theory Spec2Isabelle
  imports Complex_Main
begin

section \<open>Python values and errors\<close>

text \<open>
  The exceptions the modelled code can raise. A function that can raise returns
  \<open>py_error + 'a\<close>, with \<open>Inl\<close> for the exception.
\<close>

datatype py_error =
  NameError | UnboundLocalError | ValueError | IndexError | TypeError
  | FileNotFoundError | OSError | ReadError

definition then_do :: "py_error + 'a \<Rightarrow> ('a \<Rightarrow> py_error + 'b) \<Rightarrow> py_error + 'b" where
  "then_do m f = (case m of Inl e \<Rightarrow> Inl e | Inr v \<Rightarrow> f v)"

fun map_err :: "('a \<Rightarrow> py_error + 'b) \<Rightarrow> 'a list \<Rightarrow> py_error + 'b list" where
  "map_err f [] = Inr []"
| "map_err f (x # xs) =
     then_do (f x) (\<lambda>y. then_do (map_err f xs) (\<lambda>ys. Inr (y # ys)))"

text \<open>A cell of a pandas row: an integer, a float (a real here) or a string.
  A missing cell (NaN, \<^verbatim>\<open>pd.NA\<close>) is \<open>None\<close> of \<open>cell option\<close>.\<close>

datatype cell = CInt int | CFloat real | CStr string

text \<open>\<^verbatim>\<open>seq[i]\<close> and \<^verbatim>\<open>series.iloc[i]\<close>: a negative index counts from the end,
  an index out of range raises.\<close>

definition iloc :: "'a list \<Rightarrow> int \<Rightarrow> py_error + 'a" where
  "iloc xs i =
     (if 0 \<le> i then
        (if i < int (length xs) then Inr (xs ! nat i) else Inl IndexError)
      else if - int (length xs) \<le> i then Inr (xs ! nat (int (length xs) + i))
      else Inl IndexError)"

text \<open>\<^verbatim>\<open>row.dropna()\<close>: the cells that are present, in order.\<close>

definition dropna :: "cell option list \<Rightarrow> cell list" where
  "dropna row = List.map_filter (\<lambda>c. c) row"

text \<open>\<^verbatim>\<open>int(s)\<close> on a string: surrounding whitespace, an optional sign, decimal digits
  with single underscores between digits. Characters are ASCII.\<close>

definition is_space :: "char \<Rightarrow> bool" where
  "is_space c = (let n = (of_char c :: nat) in (9 \<le> n \<and> n \<le> 13) \<or> (28 \<le> n \<and> n \<le> 32))"

definition is_digit :: "char \<Rightarrow> bool" where
  "is_digit c = (let n = (of_char c :: nat) in 48 \<le> n \<and> n \<le> 57)"

definition digit_val :: "char \<Rightarrow> int" where
  "digit_val c = int (of_char c) - 48"

fun parse_digits :: "int \<Rightarrow> bool \<Rightarrow> string \<Rightarrow> int option" where
  "parse_digits acc prev [] = (if prev then Some acc else None)"
| "parse_digits acc prev (c # cs) =
     (if is_digit c then parse_digits (10 * acc + digit_val c) True cs
      else if c = CHR ''_'' \<and> prev then parse_digits acc False cs
      else None)"

definition strip :: "string \<Rightarrow> string" where
  "strip s = rev (dropWhile is_space (rev (dropWhile is_space s)))"

definition py_int :: "string \<Rightarrow> py_error + int" where
  "py_int s =
     (let r = (case strip s of
                 c # cs \<Rightarrow>
                   (if c = CHR ''+'' then parse_digits 0 False cs
                    else if c = CHR ''-'' then map_option uminus (parse_digits 0 False cs)
                    else parse_digits 0 False (c # cs))
               | [] \<Rightarrow> None)
      in case r of None \<Rightarrow> Inl ValueError | Some i \<Rightarrow> Inr i)"

text \<open>\<^verbatim>\<open>int(x)\<close> on a cell: a float is truncated towards zero.\<close>

fun py_int_cell :: "cell \<Rightarrow> py_error + int" where
  "py_int_cell (CInt i) = Inr i"
| "py_int_cell (CFloat r) = Inr (if 0 \<le> r then \<lfloor>r\<rfloor> else \<lceil>r\<rceil>)"
| "py_int_cell (CStr s) = py_int s"

text \<open>
  The conversion of an integer (of 64 bits) to a double, which numpy applies where an
  integer meets a float: exact below \<open>2^53\<close>, otherwise the nearest multiple of the
  power of two that leaves 53 bits, a tie going to the even one. \<open>drop_bits n\<close> is
  the number of low bits that do not fit.
\<close>

function drop_bits :: "nat \<Rightarrow> nat" where
  "drop_bits n = (if n < 2 ^ 53 then 0 else Suc (drop_bits (n div 2)))"
  by pat_completeness auto
termination
  by (relation "measure (\<lambda>n. n)") auto

definition double_of_nat :: "nat \<Rightarrow> nat" where
  "double_of_nat n =
     (let k = drop_bits n; q = n div 2 ^ k; r = n mod 2 ^ k
      in if 2 * r < 2 ^ k \<or> (2 * r = 2 ^ k \<and> even q) then q * 2 ^ k else (q + 1) * 2 ^ k)"

definition double_of_int :: "int \<Rightarrow> real" where
  "double_of_int i =
     (if i < 0 then - real (double_of_nat (nat (- i))) else real (double_of_nat (nat i)))"

text \<open>\<^verbatim>\<open>column == value\<close> of pandas on one cell: two integers compare exactly, an
  integer and a float after the conversion of the integer, a string equals only the
  same string.\<close>

fun cell_eq :: "cell \<Rightarrow> cell \<Rightarrow> bool" where
  "cell_eq (CInt a) (CInt b) = (a = b)"
| "cell_eq (CInt a) (CFloat b) = (double_of_int a = b)"
| "cell_eq (CFloat a) (CInt b) = (a = double_of_int b)"
| "cell_eq (CFloat a) (CFloat b) = (a = b)"
| "cell_eq (CStr a) (CStr b) = (a = b)"
| "cell_eq _ _ = False"

text \<open>A float of the code is a real or NaN: \<open>real option\<close>, with \<open>None\<close> for NaN.
  \<^verbatim>\<open>ratio * value\<close> with a numpy float on the left: NaN stays NaN, an integer is
  converted, a string on the right raises.\<close>

fun mul_cell :: "real option \<Rightarrow> cell \<Rightarrow> py_error + real option" where
  "mul_cell r (CInt i) = Inr (map_option (\<lambda>x. x * double_of_int i) r)"
| "mul_cell r (CFloat v) = Inr (map_option (\<lambda>x. x * v) r)"
| "mul_cell r (CStr s) = Inl TypeError"

section \<open>Loss calculator\<close>

text \<open>
  \<^verbatim>\<open>np.interp(x, xp, fp)\<close> for a scalar \<open>x\<close>, as numpy computes it on sample points in
  non-decreasing order (numpy does not check the order and documents the result as
  meaningless otherwise): empty \<open>xp\<close> or \<open>fp\<close> of another length raise; a NaN \<open>x\<close>
  gives NaN, except on a single sample point, where it gives the stored value; right
  of the last point the last value, which numpy tests first, then left of the first
  point the first value; otherwise the segment \<open>j\<close> with \<open>xp[j] \<le> x < xp[j+1]\<close> is
  found, the stored value is returned when \<open>x = xp[j]\<close> or \<open>j\<close> is the last index,
  and \<open>slope * (x - xp[j]) + fp[j]\<close> otherwise. Arithmetic is exact (reals).
\<close>

fun interp_seg :: "real \<Rightarrow> real list \<Rightarrow> real list \<Rightarrow> real" where
  "interp_seg x (x0 # x1 # xs) (f0 # f1 # fs) =
     (if x1 \<le> x then interp_seg x (x1 # xs) (f1 # fs)
      else if x = x0 then f0
      else ((f1 - f0) / (x1 - x0)) * (x - x0) + f0)"
| "interp_seg x [x0] [f0] = f0"
| "interp_seg x _ _ = 0"

definition interp_real :: "real \<Rightarrow> real list \<Rightarrow> real list \<Rightarrow> real" where
  "interp_real x xp fp =
     (if last xp < x then last fp
      else if x < hd xp then hd fp
      else interp_seg x xp fp)"

definition np_interp ::
  "real option \<Rightarrow> real list \<Rightarrow> real list \<Rightarrow> py_error + real option" where
  "np_interp x xp fp =
     (if xp = [] then Inl ValueError
      else if length fp \<noteq> length xp then Inl ValueError
      else case x of
             None \<Rightarrow> Inr (if length xp = 1 then Some (hd fp) else None)
           | Some v \<Rightarrow> Inr (Some (interp_real v xp fp)))"

text \<open>
  The damage function table \<^verbatim>\<open>huDamLossFunc\<close>: the three key columns and, in file
  order, every other column (one per wind speed breakpoint, named like \<^verbatim>\<open>WS50\<close>);
  a row carries one loss ratio per such column.
\<close>

record dam_row =
  wbID_d :: int
  TERRAINID :: int
  DamLossDescID :: int
  ratios :: "real list"

record dam_frame =
  ws_columns :: "string list"
  dam_rows :: "dam_row list"

text \<open>\<^verbatim>\<open>config.BUILDING_DAMAGE_ID\<close> and \<^verbatim>\<open>config.CONTENTS_DAMAGE_ID\<close>.\<close>

definition BUILDING_DAMAGE_ID :: int where "BUILDING_DAMAGE_ID = 5"
definition CONTENTS_DAMAGE_ID :: int where "CONTENTS_DAMAGE_ID = 6"

text \<open>\<^verbatim>\<open>huDamLossFunc.loc[(wbID == ..) & (TERRAINID == ..) & (DamLossDescID == ..)]\<close>
  followed by the drop of the three key columns: the rows that match, under the
  columns of the table.\<close>

definition loss_func :: "dam_frame \<Rightarrow> int \<Rightarrow> int \<Rightarrow> int \<Rightarrow> dam_frame" where
  "loss_func huDamLossFunc wb terrain desc =
     huDamLossFunc\<lparr>dam_rows :=
        filter (\<lambda>d. wbID_d d = wb \<and> TERRAINID d = terrain \<and> DamLossDescID d = desc)
          (dam_rows huDamLossFunc)\<rparr>"

text \<open>\<^verbatim>\<open>frame.values.flatten().tolist()\<close>: the rows one after another.\<close>

definition flat_values :: "dam_frame \<Rightarrow> real list" where
  "flat_values f = concat (map ratios (dam_rows f))"

text \<open>\<^verbatim>\<open>[int(i[2:]) for i in frame.columns]\<close>.\<close>

definition column_speeds :: "dam_frame \<Rightarrow> py_error + int list" where
  "column_speeds f = map_err (\<lambda>i. py_int (drop 2 i)) (ws_columns f)"

text \<open>The joined building/wind table of one scenario (\<^verbatim>\<open>nsi_wrf\<close>). It comes from a
  left join, so the wind speed of a row can be empty (NaN).\<close>

record joined_row =
  fd_id_j :: cell
  Gust_Wind_Speed :: "real option"

record loss_record =
  fd_id :: cell
  countyFIPS :: cell
  wbID :: int
  terrainID :: int
  Wind_Speed :: "real option"
  Building_Loss :: "real option"
  Contents_Loss :: "real option"

text \<open>
  Lines 508-537, for one row whose wind speed was found: the two curve lookups, the
  two replacement values read by position, the breakpoints parsed from the column
  names of the structural frame, and the two interpolations. \<open>Inr None\<close> is
  \<^verbatim>\<open>continue\<close>, \<open>Inr (Some l)\<close> the list appended to \<^verbatim>\<open>losses\<close>.
\<close>

definition curve_losses ::
  "dam_frame \<Rightarrow> cell list \<Rightarrow> cell \<Rightarrow> cell \<Rightarrow> int \<Rightarrow> int \<Rightarrow> real option \<Rightarrow>
   py_error + loss_record option" where
  "curve_losses huDamLossFunc row1 fdid cbfip wb terrain wind_speed =
     (let bldgLossFunc = loss_func huDamLossFunc wb terrain BUILDING_DAMAGE_ID;
          contLossFunc = loss_func huDamLossFunc wb terrain CONTENTS_DAMAGE_ID
      in if dam_rows bldgLossFunc = [] \<or> dam_rows contLossFunc = [] then Inr None
         else
           then_do (iloc row1 12) (\<lambda>val_struct.
           then_do (iloc row1 13) (\<lambda>val_cont.
           let values_str = flat_values bldgLossFunc;
               values_cont = flat_values contLossFunc
           in
           then_do (column_speeds bldgLossFunc) (\<lambda>wind_speeds.
           then_do (then_do
               (np_interp wind_speed (map real_of_int wind_speeds) values_str)
               (\<lambda>r. mul_cell r val_struct)) (\<lambda>building_loss.
           then_do (then_do
               (np_interp wind_speed (map real_of_int wind_speeds) values_cont)
               (\<lambda>r. mul_cell r val_cont)) (\<lambda>contents_loss.
           Inr (Some \<lparr>fd_id = fdid, countyFIPS = cbfip, wbID = wb,
                      terrainID = terrain, Wind_Speed = wind_speed,
                      Building_Loss = building_loss,
                      Contents_Loss = contents_loss\<rparr>)))))))"

text \<open>
  The body of the loop over the inventory (lines 493-537) for one row: the
  positional reads from the row without its missing cells, the wind speed of the
  first joined row with the building's id (\<^verbatim>\<open>continue\<close> when there is no such
  row; an empty wind speed in the row is not tested), then the curves.
\<close>

definition building_loss_row ::
  "dam_frame \<Rightarrow> joined_row list \<Rightarrow> cell option list \<Rightarrow> py_error + loss_record option" where
  "building_loss_row huDamLossFunc nsi_wrf row =
     (let row1 = dropna row in
      then_do (iloc row1 1) (\<lambda>fdid.
      then_do (iloc row1 3) (\<lambda>cbfip.
      then_do (then_do (iloc row1 (- 2)) py_int_cell) (\<lambda>wb.
      then_do (then_do (iloc row1 (- 1)) py_int_cell) (\<lambda>terrain.
        case filter (\<lambda>w. cell_eq (fd_id_j w) fdid) nsi_wrf of
          [] \<Rightarrow> Inr None
        | w # _ \<Rightarrow>
            curve_losses huDamLossFunc row1 fdid cbfip wb terrain (Gust_Wind_Speed w))))))"


text \<open>The scenario of section 8: the structural curve 50:0.00, 100:0.50, 150:1.00 of
  vulnerability type 12 on terrain 3 (with some contents curve beside it), a building
  of structure value 200000 and a wind speed of 75.\<close>

definition scenario_curves :: dam_frame where
  "scenario_curves =
     \<lparr>ws_columns = [''WS50'', ''WS100'', ''WS150''],
      dam_rows =
        [\<lparr>wbID_d = 12, TERRAINID = 3, DamLossDescID = 5, ratios = [0, 0.5, 1]\<rparr>,
         \<lparr>wbID_d = 12, TERRAINID = 3, DamLossDescID = 6, ratios = [0, 0.2, 0.6]\<rparr>]\<rparr>"

definition scenario_row :: "cell option list" where
  "scenario_row =
     [Some (CInt 0), Some (CInt 7), None, Some (CStr ''x''), Some (CInt 220710001001000),
      Some (CStr ''RES1''), Some (CStr ''W''), Some (CInt 0), Some (CInt 0), Some (CInt 0),
      Some (CInt 0), Some (CInt 0), Some (CInt 0), Some (CFloat 200000),
      Some (CFloat 100000), None, Some (CInt 12), Some (CInt 3)]"

definition scenario_wind :: "joined_row list" where
  "scenario_wind = [\<lparr>fd_id_j = CInt 7, Gust_Wind_Speed = Some 75\<rparr>]"

definition scenario_loss :: loss_record where
  "scenario_loss =
     \<lparr>fd_id = CInt 7, countyFIPS = CInt 220710001001000, wbID = 12, terrainID = 3,
      Wind_Speed = Some 75, Building_Loss = Some 50000, Contents_Loss = Some 10000\<rparr>"

section \<open>Terrain classifier\<close>

text \<open>
  Lines 334-345 of \<^verbatim>\<open>building_losses.py\<close> (inside the per-building loop of
  \<^verbatim>\<open>characterize_buildings\<close>): the chain of comparisons on the surface roughness.
  Python floats are modelled as reals: a comparison of two finite doubles is exact, so
  the chain of \<^verbatim>\<open>if/elif\<close> is the same function of the number compared.
\<close>

definition terrain_ID :: "real \<Rightarrow> nat" where
  "terrain_ID terrain =
     (if terrain \<le> 0.03 then 1
      else if 0.03 < terrain \<and> terrain \<le> 0.15 then 2
      else if 0.15 < terrain \<and> terrain \<le> 0.35 then 3
      else if 0.35 < terrain \<and> terrain \<le> 0.7 then 4
      else 5)"

section \<open>County and scenario aggregator\<close>

text \<open>\<^verbatim>\<open>series.unique()\<close>: the distinct values in order of first appearance.\<close>

definition unique :: "'a list \<Rightarrow> 'a list" where
  "unique xs = rev (remdups (rev xs))"

text \<open>
  The builtin \<^verbatim>\<open>sum\<close>: from 0, left to right. The addition of two doubles rounds
  its result, so it is a parameter \<open>add\<close> on the numbers; a NaN operand gives NaN.
\<close>

definition nan_add ::
  "(real \<Rightarrow> real \<Rightarrow> real) \<Rightarrow> real option \<Rightarrow> real option \<Rightarrow> real option" where
  "nan_add add a b = (case (a, b) of (Some x, Some y) \<Rightarrow> Some (add x y) | _ \<Rightarrow> None)"

definition py_sum :: "(real \<Rightarrow> real \<Rightarrow> real) \<Rightarrow> real option list \<Rightarrow> real option" where
  "py_sum add xs = foldl (nan_add add) (Some 0) xs"

text \<open>\<^verbatim>\<open>round(x, 0)\<close> on a number: the nearest whole number, a tie going to the even
  one. NaN stays NaN.\<close>

definition py_round0 :: "real \<Rightarrow> real" where
  "py_round0 x =
     (let f = \<lfloor>x\<rfloor>; d = x - real_of_int f
      in real_of_int (if d < 1 / 2 then f else if 1 / 2 < d then f + 1
                      else if even f then f else f + 1))"

text \<open>
  Lines 669-695, for the rows of one scenario's loss file. \<^verbatim>\<open>astype(str)\<close> of pandas
  is a parameter: the text of a cell. A frame built from an empty list has no columns,
  so naming its three columns raises.
\<close>

definition UcountyFIPS :: "(cell \<Rightarrow> string) \<Rightarrow> loss_record \<Rightarrow> string" where
  "UcountyFIPS astype_str r = take 5 (astype_str (countyFIPS r))"

definition losses_county ::
  "(real \<Rightarrow> real \<Rightarrow> real) \<Rightarrow> (cell \<Rightarrow> string) \<Rightarrow> loss_record list \<Rightarrow>
   (string \<times> real option \<times> real option) list" where
  "losses_county add astype_str df_indiv =
     map (\<lambda>cfip.
            let df = filter (\<lambda>r. UcountyFIPS astype_str r = cfip) df_indiv
            in (cfip, py_sum add (map Building_Loss df), py_sum add (map Contents_Loss df)))
         (unique (map (UcountyFIPS astype_str) df_indiv))"

definition scenario_totals ::
  "(real \<Rightarrow> real \<Rightarrow> real) \<Rightarrow> (cell \<Rightarrow> string) \<Rightarrow> loss_record list \<Rightarrow>
   py_error + real option \<times> real option \<times> real option" where
  "scenario_totals add astype_str df_indiv =
     (let df_county_losses = losses_county add astype_str df_indiv
      in if df_county_losses = [] then Inl ValueError
         else
           let total_bldg = map_option py_round0
                              (py_sum add (map (\<lambda>(c, b, k). b) df_county_losses));
               total_cont = map_option py_round0
                              (py_sum add (map (\<lambda>(c, b, k). k) df_county_losses));
               total_all = nan_add add total_bldg total_cont
           in Inr (total_bldg, total_cont, total_all))"

text \<open>Three loss records in two counties, and a text for their cells.\<close>

fun cell_text :: "cell \<Rightarrow> string" where
  "cell_text (CStr s) = s"
| "cell_text _ = []"

definition example_losses :: "loss_record list" where
  "example_losses =
     [\<lparr>fd_id = CInt 1, countyFIPS = CStr ''220710001'', wbID = 12, terrainID = 3,
       Wind_Speed = Some 75, Building_Loss = Some 100.25, Contents_Loss = Some 50.5\<rparr>,
      \<lparr>fd_id = CInt 2, countyFIPS = CStr ''220510002'', wbID = 12, terrainID = 3,
       Wind_Speed = Some 80, Building_Loss = Some 10.5, Contents_Loss = Some 20.25\<rparr>,
      \<lparr>fd_id = CInt 3, countyFIPS = CStr ''220710003'', wbID = 12, terrainID = 3,
       Wind_Speed = Some 90, Building_Loss = Some 0.5, Contents_Loss = Some 0.5\<rparr>]"

section \<open>Characterization engine\<close>

text \<open>
  A row of the building inventory, with the columns the characterization reads by
  name: \<^verbatim>\<open>cbfips\<close> (as text), \<^verbatim>\<open>occtype\<close>, \<^verbatim>\<open>bldgtype\<close> and
  \<^verbatim>\<open>nsi_val.SURFACEROU\<close>, beside the identifier and the two replacement values.
\<close>

record building =
  fd_id_b :: cell
  cbfips :: string
  occtype :: string
  bldgtype :: string
  SURFACEROU :: real
  val_struct :: real
  val_cont :: real

text \<open>The five sheets of \<^verbatim>\<open>Mapping.xlsx\<close>. The occupancy sheet has the scheme name
  and the occupancy in its first two columns; every further column is a subtype name
  with a percentage per row.\<close>

record county_scheme =
  CountyFIPS :: int
  huBldgSchemeName :: string

record occ_row =
  huOccMapSchemeName :: string
  Occupancy :: string
  percents :: "real list"

record occ_frame =
  sbt_columns :: "string list"
  occ_rows :: "occ_row list"

record bldg_map_row =
  scheme_m :: string
  sbtName_m :: string
  BLDGCHARID :: int
  PercentDist :: real

record char_row =
  CharType :: string
  BldgCharID :: int
  BldgChar :: string

record wind_type =
  sbtName_w :: string
  wbID_w :: int
  charDescription :: "string option"

record hazus =
  huMappingSchemesByCountyFips :: "county_scheme list"
  huGbsOccMapping :: occ_frame
  huBldgMapping :: "bldg_map_row list"
  huListofBldgChar :: "char_row list"
  huListOfWindBldgTypes :: "wind_type list"

text \<open>
  What the engine takes from numpy and pandas: the generator state that
  \<^verbatim>\<open>np.random.seed(s)\<close> installs, one draw of \<^verbatim>\<open>np.random.choice(a, p=p)\<close> from a
  state (it raises on an empty \<open>a\<close>, on \<open>p\<close> of another length or not summing to 1),
  and the test of \<^verbatim>\<open>Series.str.contains(pat)\<close> on one description (a regular
  expression search; plain containment for a pattern without metacharacters).
\<close>

record 'g library =
  np_seed :: "nat \<Rightarrow> 'g"
  np_choice :: "'g \<Rightarrow> string list \<Rightarrow> real list \<Rightarrow> py_error + string \<times> 'g"
  str_contains :: "string \<Rightarrow> string \<Rightarrow> bool"

text \<open>\<^verbatim>\<open>config.RANDOM_SEED\<close>.\<close>

definition RANDOM_SEED :: nat where "RANDOM_SEED = 121"

text \<open>A \<^verbatim>\<open>for\<close> loop over a list, with the variables it updates as a state; an
  exception in the body ends the loop.\<close>

fun for_each :: "('a \<Rightarrow> 's \<Rightarrow> py_error + 's) \<Rightarrow> 'a list \<Rightarrow> 's \<Rightarrow> py_error + 's" where
  "for_each body [] s = Inr s"
| "for_each body (x # xs) s = then_do (body x s) (for_each body xs)"

text \<open>\<^verbatim>\<open>xs[a:b]\<close> for \<open>0 \<le> a \<le> b\<close>.\<close>

definition slice :: "nat \<Rightarrow> nat \<Rightarrow> 'a list \<Rightarrow> 'a list" where
  "slice a b xs = take (b - a) (drop a xs)"

text \<open>
  \<^verbatim>\<open>np.random.seed(seed)\<close> followed by \<^verbatim>\<open>column.apply(lambda x: np.random.choice(a, p=p))\<close>
  on a column of \<open>n\<close> rows (lines 256-258 and 297-299): \<open>n\<close> draws in row order from the
  freshly seeded state. The state before the call is overwritten.
\<close>

fun draws ::
  "('g \<Rightarrow> py_error + string \<times> 'g) \<Rightarrow> nat \<Rightarrow> 'g \<Rightarrow> py_error + string list \<times> 'g" where
  "draws ch 0 g = Inr ([], g)"
| "draws ch (Suc n) g =
     then_do (ch g) (\<lambda>(v, g').
     then_do (draws ch n g') (\<lambda>(vs, g''). Inr (v # vs, g'')))"

definition sample_column ::
  "'g library \<Rightarrow> nat \<Rightarrow> string list \<Rightarrow> real list \<Rightarrow> 'g \<Rightarrow> py_error + string list \<times> 'g" where
  "sample_column lib n a p g =
     draws (\<lambda>g'. np_choice lib g' a p) n (np_seed lib RANDOM_SEED)"

text \<open>A row of the output: the source row, the columns added on the way
  (\<^verbatim>\<open>countyFIPS\<close>, \<^verbatim>\<open>sbtName\<close>, one column per characteristic type, missing where the
  type does not apply), \<^verbatim>\<open>wbID\<close> (missing for \<^verbatim>\<open>pd.NA\<close>) and \<^verbatim>\<open>terrainID\<close>.\<close>

record enriched =
  source :: building
  countyFIPS_e :: string
  sbtName_e :: string
  profile :: "(string \<times> string option) list"
  wbID_e :: "int option"
  terrainID_e :: nat

text \<open>\<^verbatim>\<open>rows[char]\<close> for a characteristic column.\<close>

definition row_value :: "(string \<times> string option) list \<Rightarrow> string \<Rightarrow> string option" where
  "row_value prof char = (case map_of prof char of Some (Some v) \<Rightarrow> Some v | _ \<Rightarrow> None)"

text \<open>Lines 308-317: the copy of \<^verbatim>\<open>char_desc\<close> without one of the two garage
  characteristics, depending on the sampled shutter value. Comparing a missing value
  in the \<^verbatim>\<open>if\<close> raises.\<close>

definition shutter_exclusion ::
  "string list \<Rightarrow> (string \<times> string option) list \<Rightarrow> py_error + string list" where
  "shutter_exclusion char_desc prof =
     (if ''Shutters'' \<in> set char_desc then
        (case row_value prof ''Shutters'' of
           None \<Rightarrow> Inl TypeError
         | Some v \<Rightarrow>
             if v = ''shtys'' then Inr (remove1 ''Garage, Houses w/out Shutters'' char_desc)
             else Inr (remove1 ''Garage, Houses with Shutters'' char_desc))
      else Inr char_desc)"

text \<open>Lines 320-323: one filter per characteristic; a filter that leaves no row is
  not applied. A missing description never matches (\<^verbatim>\<open>na=False\<close>); a missing
  pattern raises.\<close>

fun match_chars ::
  "(string \<Rightarrow> string \<Rightarrow> bool) \<Rightarrow> (string \<times> string option) list \<Rightarrow> string list \<Rightarrow>
   wind_type list \<Rightarrow> py_error + wind_type list" where
  "match_chars contains prof [] wbId_df = Inr wbId_df"
| "match_chars contains prof (char # cs) wbId_df =
     (case row_value prof char of
        None \<Rightarrow> Inl TypeError
      | Some v \<Rightarrow>
          (let sample1 = filter (\<lambda>w. case charDescription w of
                                         None \<Rightarrow> False
                                       | Some d \<Rightarrow> contains d v) wbId_df
           in match_chars contains prof cs (if sample1 \<noteq> [] then sample1 else wbId_df)))"

text \<open>Lines 306-332: the vulnerability type of one row.\<close>

definition wbID_of_row ::
  "(string \<Rightarrow> string \<Rightarrow> bool) \<Rightarrow> wind_type list \<Rightarrow> string \<Rightarrow> string list \<Rightarrow>
   (string \<times> string option) list \<Rightarrow> py_error + int option" where
  "wbID_of_row contains wind_types sbt char_desc prof =
     (let wbId_df = filter (\<lambda>w. sbtName_w w = sbt) wind_types in
      then_do (shutter_exclusion char_desc prof) (\<lambda>char_desc1.
      then_do (match_chars contains prof char_desc1 wbId_df) (\<lambda>wbId_df'.
      Inr (case map wbID_w wbId_df' of [] \<Rightarrow> None | i # _ \<Rightarrow> Some i))))"

text \<open>Lines 305-351: the row that one iteration appends to \<^verbatim>\<open>building_list\<close>.\<close>

definition characterize_row ::
  "(string \<Rightarrow> string \<Rightarrow> bool) \<Rightarrow> wind_type list \<Rightarrow> string \<Rightarrow> string list \<Rightarrow>
   building \<times> (string \<times> string option) list \<Rightarrow> py_error + enriched" where
  "characterize_row contains wind_types sbt char_desc r =
     (case r of (b, prof) \<Rightarrow>
        then_do (wbID_of_row contains wind_types sbt char_desc prof) (\<lambda>wb.
        Inr \<lparr>source = b, countyFIPS_e = take 5 (cbfips b), sbtName_e = sbt,
             profile = prof, wbID_e = wb, terrainID_e = terrain_ID (SURFACEROU b)\<rparr>))"

text \<open>One iteration of the loop over the rows of a group (lines 304-351):
  \<^verbatim>\<open>building_list.append(datas)\<close> closes it, whatever \<^verbatim>\<open>wbID\<close> is.\<close>

definition append_row ::
  "(string \<Rightarrow> string \<Rightarrow> bool) \<Rightarrow> wind_type list \<Rightarrow> string \<Rightarrow> string list \<Rightarrow>
   building \<times> (string \<times> string option) list \<Rightarrow> enriched list \<Rightarrow>
   py_error + enriched list" where
  "append_row contains wind_types sbt char_desc r building_list =
     then_do (characterize_row contains wind_types sbt char_desc r)
       (\<lambda>datas. Inr (building_list @ [datas]))"

text \<open>
  Lines 277-301, for a subtype group of \<open>n\<close> rows: for each characteristic type of the
  catalog, in catalog order, whether one of its ids is mapped for the subtype; if so
  the type joins \<^verbatim>\<open>char_desc\<close> and its column is sampled, otherwise the column is
  missing. The percentages are taken in the order of the characteristic ids (rows of
  equal id stay in file order here; the sort of pandas does not promise that). The
  result is \<^verbatim>\<open>char_desc\<close>, the columns, and the generator state.
\<close>

fun assign_chars ::
  "'g library \<Rightarrow> char_row list \<Rightarrow> bldg_map_row list \<Rightarrow> nat \<Rightarrow> string list \<Rightarrow> 'g \<Rightarrow>
   py_error + string list \<times> (string \<times> string option list) list \<times> 'g" where
  "assign_chars lib chars huBldg n [] g = Inr ([], [], g)"
| "assign_chars lib chars huBldg n (charType # cts) g =
     (let main = filter (\<lambda>c. CharType c = charType) chars;
          main_list = map BldgCharID main;
          bldgCharId = map BLDGCHARID huBldg;
          check = list_ex (\<lambda>item. item \<in> set bldgCharId) main_list
      in if check then
           (let bldgChar = map BldgChar main;
                probs_df = sort_key BLDGCHARID
                             (filter (\<lambda>m. BLDGCHARID m \<in> set main_list) huBldg);
                probs = map (\<lambda>m. PercentDist m / 100) probs_df;
                bldgChar1 = (if length probs < length bldgChar
                             then take (length probs) bldgChar else bldgChar)
            in then_do (sample_column lib n bldgChar1 probs g) (\<lambda>(vals, g').
               then_do (assign_chars lib chars huBldg n cts g') (\<lambda>(char_desc, cols, g'').
               Inr (charType # char_desc, (charType, map Some vals) # cols, g''))))
         else
           then_do (assign_chars lib chars huBldg n cts g) (\<lambda>(char_desc, cols, g').
           Inr (char_desc, (charType, replicate n None) # cols, g')))"

text \<open>\<^verbatim>\<open>charTypes\<close> (line 176).\<close>

definition charTypes :: "hazus \<Rightarrow> string list" where
  "charTypes tables = unique (map CharType (huListofBldgChar tables))"

text \<open>The characteristic cells of row \<open>i\<close> of a group.\<close>

definition row_profile ::
  "(string \<times> string option list) list \<Rightarrow> nat \<Rightarrow> (string \<times> string option) list" where
  "row_profile cols i = map (\<lambda>(ct, col). (ct, col ! i)) cols"

text \<open>
  Lines 262-351 for one sampled subtype: the rows of the group, the mapping rows of
  the scheme and subtype (\<^verbatim>\<open>continue\<close> when there are none), the characteristic
  columns, then one appended row per building. The state is \<^verbatim>\<open>building_list\<close> and
  the generator.
\<close>

definition characterize_subtype ::
  "'g library \<Rightarrow> hazus \<Rightarrow> string \<Rightarrow> (building \<times> string) list \<Rightarrow> string \<Rightarrow>
   enriched list \<times> 'g \<Rightarrow> py_error + enriched list \<times> 'g" where
  "characterize_subtype lib tables scheme df2 sbt st =
     (case st of (building_list, g) \<Rightarrow>
        (let df3 = map fst (filter (\<lambda>(b, s). s = sbt) df2);
             huBldg = filter (\<lambda>m. scheme_m m = scheme \<and> sbtName_m m = sbt)
                        (huBldgMapping tables)
         in if huBldg = [] then Inr (building_list, g)
            else
              then_do (assign_chars lib (huListofBldgChar tables) huBldg (length df3)
                         (charTypes tables) g) (\<lambda>(char_desc, cols, g').
              then_do (for_each
                         (\<lambda>row. append_row (str_contains lib)
                                   (huListOfWindBldgTypes tables) sbt char_desc
                                   (df3 ! row, row_profile cols row))
                         [0..<length df3] building_list) (\<lambda>bl.
              Inr (bl, g')))))"

text \<open>The column ranges of the subtypes of a building type (lines 239-250,
  \<^verbatim>\<open>config.BUILDING_SUBTYPE_RANGES\<close>); \<open>None\<close> for another building type.\<close>

definition sbt_range :: "string \<Rightarrow> (nat \<times> nat option) option" where
  "sbt_range bldgType =
     (if bldgType = ''W'' then Some (0, Some 5)
      else if bldgType = ''M'' then Some (5, Some 19)
      else if bldgType = ''C'' then Some (19, Some 25)
      else if bldgType = ''S'' then Some (25, Some 34)
      else if bldgType = ''H'' then Some (34, None)
      else None)"

definition py_slice :: "nat \<times> nat option \<Rightarrow> 'a list \<Rightarrow> 'a list" where
  "py_slice r xs = (case r of (a, None) \<Rightarrow> drop a xs | (a, Some b) \<Rightarrow> slice a b xs)"

text \<open>
  Lines 235-351 for one building type of an occupancy group: the subtype names of the
  type (\<^verbatim>\<open>continue\<close> for an unknown type), their percentages over the rows of
  \<^verbatim>\<open>huOcc\<close> flattened, one sampled subtype per building, then the subtypes drawn, in
  order of first appearance.
\<close>

definition characterize_bldgtype ::
  "'g library \<Rightarrow> hazus \<Rightarrow> string \<Rightarrow> occ_row list \<Rightarrow> string list \<Rightarrow> building list \<Rightarrow>
   string \<Rightarrow> enriched list \<times> 'g \<Rightarrow> py_error + enriched list \<times> 'g" where
  "characterize_bldgtype lib tables scheme huOcc Occschemes df1 bldgType st =
     (case st of (building_list, g) \<Rightarrow>
        (let df2 = filter (\<lambda>b. bldgtype b = bldgType) df1 in
         case sbt_range bldgType of
           None \<Rightarrow> Inr (building_list, g)
         | Some r \<Rightarrow>
             (let sbtNames = py_slice r Occschemes;
                  OccMapProb = map (\<lambda>i. i / 100)
                                 (concat (map (\<lambda>oc. py_slice r (percents oc)) huOcc))
              in then_do (sample_column lib (length df2) sbtNames OccMapProb g)
                   (\<lambda>(col, g').
                      for_each (characterize_subtype lib tables scheme (zip df2 col))
                        (unique col) (building_list, g')))))"

text \<open>
  Lines 219-351 for one occupancy of a county: a suffix after \<^verbatim>\<open>-\<close> is cut off for
  the lookup, an occupancy without a row in the scheme is skipped (\<^verbatim>\<open>continue\<close>).
\<close>

definition characterize_occ ::
  "'g library \<Rightarrow> hazus \<Rightarrow> string \<Rightarrow> occ_row list \<Rightarrow> building list \<Rightarrow>
   string \<Rightarrow> enriched list \<times> 'g \<Rightarrow> py_error + enriched list \<times> 'g" where
  "characterize_occ lib tables scheme huOccMap df0 occ st =
     (let df1 = filter (\<lambda>b. occtype b = occ) df0;
          occ' = (if CHR ''-'' \<in> set occ then takeWhile (\<lambda>c. c \<noteq> CHR ''-'') occ else occ);
          huOcc = filter (\<lambda>oc. Occupancy oc = occ') huOccMap
      in if huOcc = [] then Inr st
         else
           for_each
             (characterize_bldgtype lib tables scheme huOcc
                (sbt_columns (huGbsOccMapping tables)) df1)
             (unique (map bldgtype df1)) st)"

text \<open>
  Lines 206-213: the scheme of a county. The lookup is inside \<^verbatim>\<open>try\<close> with a bare
  \<^verbatim>\<open>except\<close>: a county code that is not a number and a county without a row both end
  in the \<^verbatim>\<open>except\<close> branch (\<open>None\<close>).
\<close>

definition scheme_of_county :: "hazus \<Rightarrow> string \<Rightarrow> string option" where
  "scheme_of_county tables cfip =
     (case py_int cfip of
        Inl e \<Rightarrow> None
      | Inr n \<Rightarrow>
          (case filter (\<lambda>m. CountyFIPS m = n) (huMappingSchemesByCountyFips tables) of
             [] \<Rightarrow> None
           | m # _ \<Rightarrow> Some (huBldgSchemeName m)))"

text \<open>The messages of the logger that depend on the run.\<close>

datatype log_entry =
    CountyProgress nat nat
  | NoMappingScheme string
  | CheckpointLoaded nat
  | CheckpointLoadError
  | OutputExists string
  | JoinedLoaded nat
  | ProcessedSoFar nat
  | ProcessedTotal nat
  | LossStatistics real real real
  | SavingLosses string

text \<open>The county of a building: \<^verbatim>\<open>nsi_cb['cbfips'].astype(str).str[:5]\<close>.\<close>

definition countyFIPS_b :: "building \<Rightarrow> string" where
  "countyFIPS_b b = take 5 (cbfips b)"

text \<open>Lines 204 and 215-351 for a county whose scheme was found.\<close>

definition county_buildings ::
  "'g library \<Rightarrow> hazus \<Rightarrow> building list \<Rightarrow> string \<Rightarrow> string \<Rightarrow>
   enriched list \<times> 'g \<Rightarrow> py_error + enriched list \<times> 'g" where
  "county_buildings lib tables nsi_cb cfip scheme st =
     (let df0 = filter (\<lambda>b. countyFIPS_b b = cfip) nsi_cb;
          huOccMap = filter (\<lambda>oc. huOccMapSchemeName oc = scheme)
                       (occ_rows (huGbsOccMapping tables))
      in for_each (characterize_occ lib tables scheme huOccMap df0)
           (unique (map occtype df0)) st)"

text \<open>
  The state of the main loop (lines 186-188 and 196): \<^verbatim>\<open>building_list\<close>, the
  generator of numpy, the log and \<^verbatim>\<open>county_count\<close>.
\<close>

record 'g char_state =
  building_list :: "enriched list"
  rng :: 'g
  log :: "log_entry list"
  county_count :: nat

text \<open>One iteration of the loop over the counties (lines 197-351); \<open>ncounties\<close> is
  \<^verbatim>\<open>len(cfips)\<close>.\<close>

definition county_step ::
  "'g library \<Rightarrow> hazus \<Rightarrow> building list \<Rightarrow> nat \<Rightarrow> string \<Rightarrow>
   'g char_state \<Rightarrow> py_error + 'g char_state" where
  "county_step lib tables nsi_cb ncounties cfip st =
     (let n = county_count st + 1;
          log1 = (if n mod 10 = 0 then log st @ [CountyProgress n ncounties] else log st)
      in case scheme_of_county tables cfip of
           None \<Rightarrow> Inr (st\<lparr>log := log1 @ [NoMappingScheme cfip], county_count := n\<rparr>)
         | Some scheme \<Rightarrow>
             then_do (county_buildings lib tables nsi_cb cfip scheme
                        (building_list st, rng st)) (\<lambda>(bl, g).
             Inr (st\<lparr>building_list := bl, rng := g, log := log1, county_count := n\<rparr>)))"

text \<open>
  Line 182, \<^verbatim>\<open>cfips = [str(io) for i in nsi_cb['countyFIPS'].unique()]\<close>: the loop
  variable is \<^verbatim>\<open>i\<close>, and \<^verbatim>\<open>io\<close> is bound nowhere in the module, so the element
  expression raises for every county.
\<close>

definition str_io :: "py_error + string" where
  "str_io = Inl NameError"

definition county_codes :: "building list \<Rightarrow> py_error + string list" where
  "county_codes nsi_cb = map_err (\<lambda>i. str_io) (unique (map countyFIPS_b nsi_cb))"

text \<open>
  Lines 176-359 on the loaded tables: the county codes, the seeding of the generator
  (line 188, which overwrites the state \<open>g\<close> found on entry), the loop, and the final
  frame, whose column names are read from \<^verbatim>\<open>rows\<close>, a variable bound only by an
  iteration of the innermost loop, that is, only when a row was appended.
\<close>

definition build_inventory ::
  "'g library \<Rightarrow> hazus \<Rightarrow> building list \<Rightarrow> 'g \<Rightarrow> py_error + 'g char_state" where
  "build_inventory lib tables nsi_cb g =
     then_do (county_codes nsi_cb) (\<lambda>cfips.
     then_do (for_each (county_step lib tables nsi_cb (length cfips)) cfips
                \<lparr>building_list = [], rng = np_seed lib RANDOM_SEED, log = [],
                 county_count = 0\<rparr>) (\<lambda>st.
     if building_list st = [] then Inl UnboundLocalError else Inr st))"

section \<open>Vulnerability-type resolution in the words of the specification\<close>

text \<open>
  Section 4.3, step 5. The shutter value is \<open>None\<close> when the shutter characteristic
  does not apply to the subtype; shutters are present when the sampled value is
  \<^verbatim>\<open>shtys\<close>. A characteristic whose filter would leave no candidate does not
  discriminate. The id is the first remaining candidate, if any.
\<close>

definition spec_chars_to_match :: "string list \<Rightarrow> string option \<Rightarrow> string list" where
  "spec_chars_to_match applicable shutter =
     (case shutter of
        None \<Rightarrow> applicable
      | Some v \<Rightarrow>
          if v = ''shtys''
          then filter (\<lambda>c. c \<noteq> ''Garage, Houses w/out Shutters'') applicable
          else filter (\<lambda>c. c \<noteq> ''Garage, Houses with Shutters'') applicable)"

definition spec_narrow ::
  "(string \<Rightarrow> string \<Rightarrow> bool) \<Rightarrow> wind_type list \<Rightarrow> string \<Rightarrow> wind_type list" where
  "spec_narrow contains candidates v =
     (let kept = filter (\<lambda>w. case charDescription w of
                                   Some d \<Rightarrow> contains d v
                                 | None \<Rightarrow> False) candidates
      in if kept = [] then candidates else kept)"

definition spec_resolve ::
  "(string \<Rightarrow> string \<Rightarrow> bool) \<Rightarrow> wind_type list \<Rightarrow> string list \<Rightarrow> int option" where
  "spec_resolve contains candidates vals =
     (case foldl (spec_narrow contains) candidates vals of
        [] \<Rightarrow> None
      | w # _ \<Rightarrow> Some (wbID_w w))"

section \<open>Stages and their files\<close>

text \<open>
  The files the three stages read and write, by what they hold, and the directories
  that exist. A file that pandas cannot parse is \<open>Unreadable\<close>; reading a file of
  another kind than the one expected is taken as a read error too. Paths are compared
  as they are written, a directory up to slashes at its end; \<^verbatim>\<open>.\<close> and \<^verbatim>\<open>..\<close> are
  not resolved.
\<close>

type_synonym path = string

datatype file_content =
    Unreadable
  | InventoryCsv "enriched list"
  | NsiCsv "building list"
  | MappingXlsx hazus
  | DamageCsv dam_frame
  | JoinedCsv "joined_row list"
  | LossesCsv "loss_record list"
  | TotalLossCsv "(string \<times> real option \<times> real option \<times> real option) list"

record filesystem =
  files :: "path \<Rightarrow> file_content option"
  dirs :: "path set"

text \<open>\<^verbatim>\<open>os.path.join\<close> of two components (POSIX).\<close>

definition path_join :: "path \<Rightarrow> string \<Rightarrow> path" where
  "path_join a b =
     (if b \<noteq> [] \<and> hd b = CHR ''/'' then b
      else if a = [] \<or> last a = CHR ''/'' then a @ b
      else a @ ''/'' @ b)"

text \<open>A directory path without the slashes at its end (the root stays).\<close>

definition dir_key :: "path \<Rightarrow> path" where
  "dir_key d =
     (if d \<noteq> [] \<and> set d \<subseteq> {CHR ''/''} then ''/''
      else rev (dropWhile (\<lambda>c. c = CHR ''/'') (rev d)))"

definition isdir :: "filesystem \<Rightarrow> path \<Rightarrow> bool" where
  "isdir fs p = (p \<noteq> [] \<and> dir_key p \<in> dirs fs)"

text \<open>\<^verbatim>\<open>os.path.exists\<close>: a file or a directory.\<close>

definition path_exists :: "filesystem \<Rightarrow> path \<Rightarrow> bool" where
  "path_exists fs p = (files fs p \<noteq> None \<or> isdir fs p)"

text \<open>
  \<^verbatim>\<open>os.makedirs(d, exist_ok=True)\<close>: the directory and the directories above it (the
  parts of \<open>d\<close> before a slash) exist afterwards; the empty path and a file in the way
  raise.
\<close>

definition dir_keys :: "path \<Rightarrow> path list" where
  "dir_keys d = map dir_key (d # [take i d. i \<leftarrow> [1..<length d], d ! i = CHR ''/''])"

definition makedirs :: "filesystem \<Rightarrow> path \<Rightarrow> py_error + filesystem" where
  "makedirs fs d =
     (if d = [] then Inl FileNotFoundError
      else if list_ex (\<lambda>k. files fs k \<noteq> None) (dir_keys d) then Inl OSError
      else Inr (fs\<lparr>dirs := dirs fs \<union> set (dir_keys d)\<rparr>))"

text \<open>
  \<^verbatim>\<open>frame.to_csv(os.path.join(d, name))\<close> for one of the file names of the configuration
  (a plain name): the directory \<open>d\<close> must exist (the empty \<open>d\<close> is the working
  directory) and the path must not be a directory.
\<close>

definition to_csv :: "filesystem \<Rightarrow> path \<Rightarrow> string \<Rightarrow> file_content \<Rightarrow> py_error + filesystem" where
  "to_csv fs d name content =
     (if (d \<noteq> [] \<and> \<not> isdir fs d) \<or> isdir fs (path_join d name) then Inl OSError
      else Inr (fs\<lparr>files := (files fs)(path_join d name \<mapsto> content)\<rparr>))"

definition read_file :: "filesystem \<Rightarrow> path \<Rightarrow> py_error + file_content" where
  "read_file fs p =
     (if isdir fs p then Inl OSError
      else case files fs p of None \<Rightarrow> Inl FileNotFoundError | Some c \<Rightarrow> Inr c)"

text \<open>The file names of \<^verbatim>\<open>config.py\<close>.\<close>

definition BUILDING_INVENTORY_CHECKPOINT :: string where
  "BUILDING_INVENTORY_CHECKPOINT = ''nsi_wbId_sr.csv''"

definition HAZUS_mapping :: string where
  "HAZUS_mapping = ''Mapping.xlsx''"

definition HAZUS_damage_functions :: string where
  "HAZUS_damage_functions = ''huDamLossFunc.csv''"

definition BUILDING_LOSSES_PATTERN :: string where
  "BUILDING_LOSSES_PATTERN = ''Losses.csv''"

definition TOTAL_LOSS_OUTPUT :: string where
  "TOTAL_LOSS_OUTPUT = ''TotalLoss.csv''"

definition read_inventory :: "filesystem \<Rightarrow> path \<Rightarrow> py_error + enriched list" where
  "read_inventory fs p =
     then_do (read_file fs p) (\<lambda>c. case c of InventoryCsv t \<Rightarrow> Inr t | _ \<Rightarrow> Inl ReadError)"

definition read_nsi :: "filesystem \<Rightarrow> path \<Rightarrow> py_error + building list" where
  "read_nsi fs p =
     then_do (read_file fs p) (\<lambda>c. case c of NsiCsv t \<Rightarrow> Inr t | _ \<Rightarrow> Inl ReadError)"

definition read_mapping :: "filesystem \<Rightarrow> path \<Rightarrow> py_error + hazus" where
  "read_mapping fs p =
     then_do (read_file fs p) (\<lambda>c. case c of MappingXlsx t \<Rightarrow> Inr t | _ \<Rightarrow> Inl ReadError)"

definition read_damage :: "filesystem \<Rightarrow> path \<Rightarrow> py_error + dam_frame" where
  "read_damage fs p =
     then_do (read_file fs p) (\<lambda>c. case c of DamageCsv t \<Rightarrow> Inr t | _ \<Rightarrow> Inl ReadError)"

definition read_joined :: "filesystem \<Rightarrow> path \<Rightarrow> py_error + joined_row list" where
  "read_joined fs p =
     then_do (read_file fs p) (\<lambda>c. case c of JoinedCsv t \<Rightarrow> Inr t | _ \<Rightarrow> Inl ReadError)"

definition read_losses :: "filesystem \<Rightarrow> path \<Rightarrow> py_error + loss_record list" where
  "read_losses fs p =
     then_do (read_file fs p) (\<lambda>c. case c of LossesCsv t \<Rightarrow> Inr t | _ \<Rightarrow> Inl ReadError)"

subsection \<open>Characterize\<close>

text \<open>\<^verbatim>\<open>nsi_data\<close> is a path or a frame.\<close>

datatype nsi_source = NsiPath path | NsiFrame "building list"

text \<open>
  Lines 136-371, the path taken when the checkpoint is not used: load the inventory
  and the mapping workbook, build, write the checkpoint, return the frame.
\<close>

definition recompute_characterization ::
  "'g library \<Rightarrow> filesystem \<Rightarrow> nsi_source \<Rightarrow> path \<Rightarrow> path \<Rightarrow> log_entry list \<Rightarrow> 'g \<Rightarrow>
   py_error + enriched list \<times> filesystem \<times> log_entry list" where
  "recompute_characterization lib fs nsi_data hazus_dir output_dir lg g =
     then_do (case nsi_data of NsiPath p \<Rightarrow> read_nsi fs p | NsiFrame df \<Rightarrow> Inr df)
       (\<lambda>nsi_cb.
     let mapping_file = path_join hazus_dir HAZUS_mapping in
     if \<not> path_exists fs mapping_file then Inl FileNotFoundError
     else
       then_do (read_mapping fs mapping_file) (\<lambda>tables.
       then_do (build_inventory lib tables nsi_cb g) (\<lambda>st.
       then_do (to_csv fs output_dir BUILDING_INVENTORY_CHECKPOINT
                  (InventoryCsv (building_list st))) (\<lambda>fs'.
       Inr (building_list st, fs', lg @ log st)))))"

text \<open>
  \<^verbatim>\<open>characterize_buildings\<close>: line 116 makes the output directory, lines 119-135
  decide between the checkpoint and the computation; a checkpoint that exists but
  cannot be read is logged and recomputed.
\<close>

definition characterize_buildings ::
  "'g library \<Rightarrow> filesystem \<Rightarrow> nsi_source \<Rightarrow> path \<Rightarrow> path \<Rightarrow> bool \<Rightarrow> 'g \<Rightarrow>
   py_error + enriched list \<times> filesystem \<times> log_entry list" where
  "characterize_buildings lib fs0 nsi_data hazus_dir output_dir force_rerun g =
     then_do (makedirs fs0 output_dir) (\<lambda>fs.
     let checkpoint_path = path_join output_dir BUILDING_INVENTORY_CHECKPOINT in
     if path_exists fs checkpoint_path \<and> \<not> force_rerun then
       (case read_inventory fs checkpoint_path of
          Inr building_data \<Rightarrow>
            Inr (building_data, fs, [CheckpointLoaded (length building_data)])
        | Inl e \<Rightarrow>
            recompute_characterization lib fs nsi_data hazus_dir output_dir
              [CheckpointLoadError] g)
     else recompute_characterization lib fs nsi_data hazus_dir output_dir [] g)"

subsection \<open>Calculate\<close>

text \<open>One iteration of the loop over the inventory (lines 492-542); the state is
  \<^verbatim>\<open>losses\<close>, \<^verbatim>\<open>buildings_processed\<close> and the log.\<close>

definition loss_step ::
  "dam_frame \<Rightarrow> joined_row list \<Rightarrow> cell option list \<Rightarrow>
   loss_record list \<times> nat \<times> log_entry list \<Rightarrow>
   py_error + loss_record list \<times> nat \<times> log_entry list" where
  "loss_step huDamLossFunc nsi_wrf row st =
     (case st of (losses, buildings_processed, lg) \<Rightarrow>
        then_do (building_loss_row huDamLossFunc nsi_wrf row) (\<lambda>r.
          case r of
            None \<Rightarrow> Inr (losses, buildings_processed, lg)
          | Some l \<Rightarrow>
              (let n = buildings_processed + 1
               in Inr (losses @ [l], n,
                       if n mod 10000 = 0 then lg @ [ProcessedSoFar n] else lg))))"

text \<open>Lines 484-555 for one scenario: the loop, the frame of the losses (naming the
  seven columns of a frame built from an empty list raises) and the statistics, which
  are sums of pandas and leave NaN out (their rounding is not modelled).\<close>

definition scenario_losses ::
  "dam_frame \<Rightarrow> cell option list list \<Rightarrow> joined_row list \<Rightarrow>
   py_error + loss_record list \<times> log_entry list" where
  "scenario_losses huDamLossFunc building_inventory nsi_wrf =
     then_do (for_each (loss_step huDamLossFunc nsi_wrf) building_inventory
                ([], 0, [JoinedLoaded (length nsi_wrf)])) (\<lambda>(losses, buildings_processed, lg).
     if losses = [] then Inl ValueError
     else Inr (losses,
               lg @ [ProcessedTotal buildings_processed,
                     LossStatistics (sum_list (List.map_filter Building_Loss losses))
                       (sum_list (List.map_filter Contents_Loss losses))
                       (sum_list (List.map_filter Building_Loss losses)
                        + sum_list (List.map_filter Contents_Loss losses))]))"

text \<open>\<^verbatim>\<open>d[k] = v\<close> on a dictionary kept in insertion order.\<close>

fun dict_set :: "'k \<Rightarrow> 'v \<Rightarrow> ('k \<times> 'v) list \<Rightarrow> ('k \<times> 'v) list" where
  "dict_set k v [] = [(k, v)]"
| "dict_set k v ((k', v') # d) = (if k' = k then (k, v) # d else (k', v') # dict_set k v d)"

definition losses_path :: "path \<Rightarrow> string \<Rightarrow> path" where
  "losses_path output_dir scenario =
     path_join (path_join output_dir scenario) BUILDING_LOSSES_PATTERN"

text \<open>The dictionary \<^verbatim>\<open>loss_files\<close> after the scenarios \<open>paths\<close>: each scenario with
  the path of its loss file.\<close>

definition loss_files_of ::
  "path \<Rightarrow> (string \<times> path) list \<Rightarrow> (string \<times> path) list \<Rightarrow> (string \<times> path) list" where
  "loss_files_of output_dir loss_files paths =
     foldl (\<lambda>d sj. dict_set (fst sj) (losses_path output_dir (fst sj)) d) loss_files paths"

text \<open>One iteration of the loop over the scenarios (lines 465-562); the state is
  \<^verbatim>\<open>loss_files\<close>, the files and the log.\<close>

definition calculate_scenario ::
  "dam_frame \<Rightarrow> cell option list list \<Rightarrow> path \<Rightarrow> bool \<Rightarrow> string \<times> path \<Rightarrow>
   (string \<times> path) list \<times> filesystem \<times> log_entry list \<Rightarrow>
   py_error + (string \<times> path) list \<times> filesystem \<times> log_entry list" where
  "calculate_scenario huDamLossFunc building_inventory output_dir force_rerun sj st =
     (case (sj, st) of ((scenario, joined_csv), (loss_files, fs0, lg)) \<Rightarrow>
        then_do (makedirs fs0 (path_join output_dir scenario)) (\<lambda>fs.
        let output_csv = losses_path output_dir scenario in
        if path_exists fs output_csv \<and> \<not> force_rerun then
          Inr (dict_set scenario output_csv loss_files, fs, lg @ [OutputExists output_csv])
        else
          then_do (read_joined fs joined_csv) (\<lambda>nsi_wrf.
          then_do (scenario_losses huDamLossFunc building_inventory nsi_wrf)
            (\<lambda>(losses, lg').
          then_do (to_csv fs (path_join output_dir scenario) BUILDING_LOSSES_PATTERN
                     (LossesCsv losses)) (\<lambda>fs'.
          Inr (dict_set scenario output_csv loss_files, fs',
               lg @ lg' @ [SavingLosses output_csv]))))))"

text \<open>\<^verbatim>\<open>calculate_building_losses\<close>; \<^verbatim>\<open>joined_data_paths\<close> is the dictionary as the
  list of its items.\<close>

definition calculate_building_losses ::
  "filesystem \<Rightarrow> cell option list list \<Rightarrow> (string \<times> path) list \<Rightarrow> path \<Rightarrow> path \<Rightarrow> bool \<Rightarrow>
   py_error + (string \<times> path) list \<times> filesystem \<times> log_entry list" where
  "calculate_building_losses fs building_inventory joined_data_paths hazus_dir output_dir
     force_rerun =
     (let damage_func_file = path_join hazus_dir HAZUS_damage_functions in
      if \<not> path_exists fs damage_func_file then Inl FileNotFoundError
      else
        then_do (read_damage fs damage_func_file) (\<lambda>huDamLossFunc.
        for_each (calculate_scenario huDamLossFunc building_inventory output_dir force_rerun)
          joined_data_paths ([], fs, [])))"

subsection \<open>Aggregate\<close>

text \<open>One iteration of the loop over the scenarios (lines 657-695).\<close>

definition aggregate_scenario ::
  "(real \<Rightarrow> real \<Rightarrow> real) \<Rightarrow> (cell \<Rightarrow> string) \<Rightarrow> filesystem \<Rightarrow> string \<times> path \<Rightarrow>
   (string \<times> real option \<times> real option \<times> real option) list \<Rightarrow>
   py_error + (string \<times> real option \<times> real option \<times> real option) list" where
  "aggregate_scenario add astype_str fs sl total_losses =
     (case sl of (scenario, losses_csv) \<Rightarrow>
        if \<not> path_exists fs losses_csv then Inl FileNotFoundError
        else
          then_do (read_losses fs losses_csv) (\<lambda>df_indiv.
          then_do (scenario_totals add astype_str df_indiv)
            (\<lambda>(total_bldg, total_cont, total_all).
          Inr (total_losses @ [(scenario, total_bldg, total_cont, total_all)]))))"

text \<open>\<^verbatim>\<open>aggregate_county_losses\<close>; naming the four columns of a summary built from an
  empty list raises, and so does writing into a directory that does not exist (the
  function makes none).\<close>

definition aggregate_county_losses ::
  "(real \<Rightarrow> real \<Rightarrow> real) \<Rightarrow> (cell \<Rightarrow> string) \<Rightarrow> filesystem \<Rightarrow> (string \<times> path) list \<Rightarrow>
   path \<Rightarrow> bool \<Rightarrow> py_error + path \<times> filesystem" where
  "aggregate_county_losses add astype_str fs loss_data_paths output_dir force_rerun =
     (let output_csv = path_join output_dir TOTAL_LOSS_OUTPUT in
      if path_exists fs output_csv \<and> \<not> force_rerun then Inr (output_csv, fs)
      else
        then_do (for_each (aggregate_scenario add astype_str fs) loss_data_paths [])
          (\<lambda>total_losses.
        if total_losses = [] then Inl ValueError
        else
          then_do (to_csv fs output_dir TOTAL_LOSS_OUTPUT (TotalLossCsv total_losses))
            (\<lambda>fs'. Inr (output_csv, fs'))))"

section \<open>Example data\<close>

text \<open>
  A library for evaluating the engine on examples: containment of plain text, and a
  generator whose draw is the first candidate of positive probability, which is the
  draw of numpy wherever one candidate has probability 1. The state counts the draws.
\<close>

fun starts_with :: "string \<Rightarrow> string \<Rightarrow> bool" where
  "starts_with d [] = True"
| "starts_with [] (c # cs) = False"
| "starts_with (x # xs) (c # cs) = (x = c \<and> starts_with xs cs)"

fun contains_text :: "string \<Rightarrow> string \<Rightarrow> bool" where
  "contains_text [] v = (v = [])"
| "contains_text (x # xs) v = (starts_with (x # xs) v \<or> contains_text xs v)"

definition first_choice :: "nat \<Rightarrow> string list \<Rightarrow> real list \<Rightarrow> py_error + string \<times> nat" where
  "first_choice g a p =
     (if a = [] \<or> length p \<noteq> length a \<or> list_ex (\<lambda>q. q < 0) p \<or> sum_list p \<noteq> 1
      then Inl ValueError
      else case filter (\<lambda>(x, q). 0 < q) (zip a p) of
             [] \<Rightarrow> Inl ValueError
           | (x, q) # _ \<Rightarrow> Inr (x, Suc g))"

definition plain_library :: "nat library" where
  "plain_library = \<lparr>np_seed = (\<lambda>s. s), np_choice = first_choice, str_contains = contains_text\<rparr>"

text \<open>One scheme with the wood subtypes, two characteristic types that apply to the
  subtype \<^verbatim>\<open>WSF1\<close>, and two vulnerability types registered for it.\<close>

definition example_hazus :: hazus where
  "example_hazus =
     \<lparr>huMappingSchemesByCountyFips = [\<lparr>CountyFIPS = 22071, huBldgSchemeName = ''LA1''\<rparr>],
      huGbsOccMapping =
        \<lparr>sbt_columns = [''WSF1'', ''WSF2'', ''WMUH1'', ''WMUH2'', ''WMUH3''],
         occ_rows = [\<lparr>huOccMapSchemeName = ''LA1'', Occupancy = ''RES1'',
                      percents = [100, 0, 0, 0, 0]\<rparr>,
                     \<lparr>huOccMapSchemeName = ''LA1'', Occupancy = ''RES3'',
                      percents = [0, 100, 0, 0, 0]\<rparr>]\<rparr>,
      huBldgMapping =
        [\<lparr>scheme_m = ''LA1'', sbtName_m = ''WSF1'', BLDGCHARID = 1, PercentDist = 100\<rparr>,
         \<lparr>scheme_m = ''LA1'', sbtName_m = ''WSF1'', BLDGCHARID = 4, PercentDist = 100\<rparr>,
         \<lparr>scheme_m = ''LA1'', sbtName_m = ''WSF2'', BLDGCHARID = 1, PercentDist = 100\<rparr>],
      huListofBldgChar =
        [\<lparr>CharType = ''Shutters'', BldgCharID = 1, BldgChar = ''shtys''\<rparr>,
         \<lparr>CharType = ''Shutters'', BldgCharID = 2, BldgChar = ''shtno''\<rparr>,
         \<lparr>CharType = ''Roof Shape'', BldgCharID = 4, BldgChar = ''rship''\<rparr>,
         \<lparr>CharType = ''Roof Shape'', BldgCharID = 5, BldgChar = ''rsgab''\<rparr>,
         \<lparr>CharType = ''Roof Cover'', BldgCharID = 7, BldgChar = ''rcbur''\<rparr>],
      huListOfWindBldgTypes =
        [\<lparr>sbtName_w = ''WSF1'', wbID_w = 101, charDescription = Some ''rsgab shtys gdnod''\<rparr>,
         \<lparr>sbtName_w = ''WSF1'', wbID_w = 102, charDescription = Some ''rship shtys''\<rparr>,
         \<lparr>sbtName_w = ''WSF1'', wbID_w = 103, charDescription = None\<rparr>]\<rparr>"

definition example_building :: "int \<Rightarrow> string \<Rightarrow> string \<Rightarrow> building" where
  "example_building i county occ =
     \<lparr>fd_id_b = CInt i, cbfips = county @ ''0001001000'', occtype = occ, bldgtype = ''W'',
      SURFACEROU = 0.2, val_struct = 200000, val_cont = 100000\<rparr>"

text \<open>The sampled characteristics of one building of subtype \<^verbatim>\<open>WSF1\<close>.\<close>

definition example_profile :: "(string \<times> string option) list" where
  "example_profile =
     [(''Shutters'', Some ''shtys''), (''Garage, Houses w/out Shutters'', Some ''gdnod''),
      (''Roof Cover'', Some ''rcbur''), (''Roof Shape'', Some ''rship''),
      (''Garage, Houses with Shutters'', None)]"

text \<open>Files for the examples: the mapping workbook, the damage functions, the joined
  table of one scenario, and their two directories; no checkpoint and no output yet.\<close>

definition example_fs :: filesystem where
  "example_fs =
     \<lparr>files = [''hazus/Mapping.xlsx'' \<mapsto> MappingXlsx example_hazus,
               ''hazus/huDamLossFunc.csv'' \<mapsto> DamageCsv scenario_curves,
               ''joined/ida_2021.csv'' \<mapsto> JoinedCsv scenario_wind],
      dirs = {''hazus'', ''joined''}\<rparr>"

text \<open>A checkpoint of one row, and the files after a first run of each stage.\<close>

definition example_inventory :: "enriched list" where
  "example_inventory =
     [\<lparr>source = example_building 1 ''22071'' ''RES1'', countyFIPS_e = ''22071'',
       sbtName_e = ''WSF1'',
       profile = [(''Shutters'', Some ''shtys''), (''Roof Shape'', Some ''rship''),
                  (''Roof Cover'', None)],
       wbID_e = Some 102, terrainID_e = 3\<rparr>]"

definition example_fs_checkpoint :: filesystem where
  "example_fs_checkpoint =
     example_fs\<lparr>files := (files example_fs)
                   (''inventory/nsi_wbId_sr.csv'' \<mapsto> InventoryCsv example_inventory),
                 dirs := insert ''inventory'' (dirs example_fs)\<rparr>"

definition example_fs_losses :: filesystem where
  "example_fs_losses =
     example_fs\<lparr>files := (files example_fs)
                   (''results/ida_2021/Losses.csv'' \<mapsto> LossesCsv example_losses),
                 dirs := dirs example_fs \<union> {''results'', ''results/ida_2021''}\<rparr>"

text \<open>
  A column layout of the inventory frame for the examples, with the columns where the
  loss calculator reads them: an index column, the identifier, an empty column, a
  name, the block code, the occupancy and the building type, six counts, the two
  replacement values, an empty column, the vulnerability type and the terrain class.
\<close>

definition example_layout :: "enriched \<Rightarrow> cell option list" where
  "example_layout e =
     [Some (CInt 0), Some (fd_id_b (source e)), None, Some (CStr ''x''),
      Some (CStr (cbfips (source e))), Some (CStr (occtype (source e))),
      Some (CStr (bldgtype (source e))), Some (CInt 0), Some (CInt 0), Some (CInt 0),
      Some (CInt 0), Some (CInt 0), Some (CInt 0), Some (CFloat (val_struct (source e))),
      Some (CFloat (val_cont (source e))), None, map_option CInt (wbID_e e),
      Some (CInt (int (terrainID_e e)))]"

text \<open>A checkpoint of two buildings on terrain 3, both with a wind speed in the joined
  table: building 8 of vulnerability type 13, for which the damage function table has
  no curve, and building 7 of the scenario of section 8.\<close>

definition listed_building :: "int \<Rightarrow> int \<Rightarrow> enriched" where
  "listed_building i wb =
     \<lparr>source = \<lparr>fd_id_b = CInt i, cbfips = ''220710001001000'', occtype = ''RES1'',
                 bldgtype = ''W'', SURFACEROU = 0.2, val_struct = 200000,
                 val_cont = 100000\<rparr>,
      countyFIPS_e = ''22071'', sbtName_e = ''WSF1'', profile = [],
      wbID_e = Some wb, terrainID_e = 3\<rparr>"

definition listed_inventory :: "enriched list" where
  "listed_inventory = [listed_building 8 13, listed_building 7 12]"

definition listed_wind :: "joined_row list" where
  "listed_wind = [\<lparr>fd_id_j = CInt 7, Gust_Wind_Speed = Some 75\<rparr>,
                  \<lparr>fd_id_j = CInt 8, Gust_Wind_Speed = Some 90\<rparr>]"

definition listed_fs :: filesystem where
  "listed_fs =
     \<lparr>files = [''hazus/huDamLossFunc.csv'' \<mapsto> DamageCsv scenario_curves,
               ''joined/ida_2021.csv'' \<mapsto> JoinedCsv listed_wind,
               ''inventory/nsi_wbId_sr.csv'' \<mapsto> InventoryCsv listed_inventory],
      dirs = {''hazus'', ''joined'', ''inventory''}\<rparr>"

definition listed_loss :: loss_record where
  "listed_loss =
     \<lparr>fd_id = CInt 7, countyFIPS = CStr ''220710001001000'', wbID = 12, terrainID = 3,
      Wind_Speed = Some 75, Building_Loss = Some 50000, Contents_Loss = Some 10000\<rparr>"

text \<open>A joined table in which the building of the scenario has an empty wind speed.\<close>

definition calm_wind :: "joined_row list" where
  "calm_wind = [\<lparr>fd_id_j = CInt 7, Gust_Wind_Speed = None\<rparr>]"

text \<open>The main loop without its log and counter: what one county does to
  \<^verbatim>\<open>building_list\<close> and to the generator.\<close>

definition county_core ::
  "'g library \<Rightarrow> hazus \<Rightarrow> building list \<Rightarrow> string \<Rightarrow>
   enriched list \<times> 'g \<Rightarrow> py_error + enriched list \<times> 'g" where
  "county_core lib tables nsi_cb cfip st =
     (case scheme_of_county tables cfip of
        None \<Rightarrow> Inr st
      | Some scheme \<Rightarrow> county_buildings lib tables nsi_cb cfip scheme st)"

text \<open>An inventory of three buildings: one in a county without scheme, one with an
  occupancy that the scheme does not have.\<close>

definition example_nsi :: "building list" where
  "example_nsi =
     [example_building 1 ''22071'' ''RES1'', example_building 3 ''22051'' ''RES1'',
      example_building 4 ''22071'' ''COM1'']"

section \<open>Properties\<close>

subsection \<open>Integers as doubles\<close>

lemma drop_bits_small: "n < 2 ^ 53 \<Longrightarrow> drop_bits n = 0"
  by (subst drop_bits.simps) simp

lemma double_of_nat_small: "n < 2 ^ 53 \<Longrightarrow> double_of_nat n = n"
  by (simp add: double_of_nat_def drop_bits_small)

lemma double_of_int_small: "\<bar>i\<bar> < 2 ^ 53 \<Longrightarrow> double_of_int i = of_int i"
  by (auto simp: double_of_int_def double_of_nat_small nat_less_iff)

subsection \<open>Interpolation and the loss of one building\<close>







lemma then_do_Inr: "then_do m f = Inr y \<longleftrightarrow> (\<exists>v. m = Inr v \<and> f v = Inr y)"
  by (cases m) (simp_all add: then_do_def)

lemma curve_losses_emitted:
  assumes "curve_losses t row1 fdid cbfip wb terrain wind = Inr (Some l)"
  shows "\<exists>vs vc ws rs rc.
      fd_id l = fdid \<and> countyFIPS l = cbfip \<and> wbID l = wb \<and> terrainID l = terrain
    \<and> Wind_Speed l = wind
    \<and> dam_rows (loss_func t wb terrain BUILDING_DAMAGE_ID) \<noteq> []
    \<and> dam_rows (loss_func t wb terrain CONTENTS_DAMAGE_ID) \<noteq> []
    \<and> iloc row1 12 = Inr vs
    \<and> iloc row1 13 = Inr vc
    \<and> column_speeds (loss_func t wb terrain BUILDING_DAMAGE_ID) = Inr ws
    \<and> np_interp wind (map real_of_int ws)
         (flat_values (loss_func t wb terrain BUILDING_DAMAGE_ID)) = Inr rs
    \<and> mul_cell rs vs = Inr (Building_Loss l)
    \<and> np_interp wind (map real_of_int ws)
         (flat_values (loss_func t wb terrain CONTENTS_DAMAGE_ID)) = Inr rc
    \<and> mul_cell rc vc = Inr (Contents_Loss l)"
  using assms unfolding curve_losses_def Let_def
  by (auto simp: then_do_Inr split: if_splits)

lemma building_loss_row_emitted:
  assumes "building_loss_row t wrf row = Inr (Some l)"
  shows "\<exists>w ws'.
      iloc (dropna row) 1 = Inr (fd_id l)
    \<and> iloc (dropna row) 3 = Inr (countyFIPS l)
    \<and> then_do (iloc (dropna row) (- 2)) py_int_cell = Inr (wbID l)
    \<and> then_do (iloc (dropna row) (- 1)) py_int_cell = Inr (terrainID l)
    \<and> filter (\<lambda>w. cell_eq (fd_id_j w) (fd_id l)) wrf = w # ws'
    \<and> curve_losses t (dropna row) (fd_id l) (countyFIPS l) (wbID l) (terrainID l)
         (Gust_Wind_Speed w) = Inr (Some l)"
proof -
  from assms obtain fdid cbfip wb terrain where
    a: "iloc (dropna row) 1 = Inr fdid" "iloc (dropna row) 3 = Inr cbfip"
       "then_do (iloc (dropna row) (- 2)) py_int_cell = Inr wb"
       "then_do (iloc (dropna row) (- 1)) py_int_cell = Inr terrain"
    and r: "(case filter (\<lambda>w. cell_eq (fd_id_j w) fdid) wrf of
              [] \<Rightarrow> Inr None
            | w # _ \<Rightarrow> curve_losses t (dropna row) fdid cbfip wb terrain (Gust_Wind_Speed w))
           = Inr (Some l)"
    unfolding building_loss_row_def Let_def then_do_Inr by blast
  from r obtain w ws' where
    f: "filter (\<lambda>w. cell_eq (fd_id_j w) fdid) wrf = w # ws'"
    and c: "curve_losses t (dropna row) fdid cbfip wb terrain (Gust_Wind_Speed w) = Inr (Some l)"
    by (cases "filter (\<lambda>w. cell_eq (fd_id_j w) fdid) wrf") auto
  from curve_losses_emitted [OF c] have
    "fd_id l = fdid" "countyFIPS l = cbfip" "wbID l = wb" "terrainID l = terrain"
    by auto
  with a f c show ?thesis by auto
qed

lemma scenario_row_emits:
  "building_loss_row scenario_curves scenario_wind scenario_row = Inr (Some scenario_loss)"
  by (simp add: building_loss_row_def curve_losses_def scenario_curves_def scenario_wind_def
      scenario_row_def scenario_loss_def dropna_def List.map_filter_def iloc_def then_do_def
      loss_func_def flat_values_def column_speeds_def py_int_def strip_def is_space_def
      is_digit_def digit_val_def np_interp_def interp_real_def double_of_int_small
      BUILDING_DAMAGE_ID_def CONTENTS_DAMAGE_ID_def)




text \<open>
  C10. For a building that the loss calculator emits, the contents ratio is
  \<^verbatim>\<open>np.interp\<close> at the breakpoints parsed from the column names of the structural
  frame, paired with the ratios of the contents frame. Both frames are row selections
  of the one damage function table, so they have the same column layout.
\<close>

theorem contents_ratio_on_structural_breakpoints:
  assumes "building_loss_row t wrf row = Inr (Some l)"
  shows "\<exists>ws vc rc.
        column_speeds (loss_func t (wbID l) (terrainID l) BUILDING_DAMAGE_ID) = Inr ws
      \<and> np_interp (Wind_Speed l) (map real_of_int ws)
           (flat_values (loss_func t (wbID l) (terrainID l) CONTENTS_DAMAGE_ID)) = Inr rc
      \<and> iloc (dropna row) 13 = Inr vc
      \<and> mul_cell rc vc = Inr (Contents_Loss l)
      \<and> ws_columns (loss_func t (wbID l) (terrainID l) CONTENTS_DAMAGE_ID)
          = ws_columns (loss_func t (wbID l) (terrainID l) BUILDING_DAMAGE_ID)"
proof -
  from building_loss_row_emitted [OF assms] obtain w :: joined_row where
    c: "curve_losses t (dropna row) (fd_id l) (countyFIPS l) (wbID l) (terrainID l)
          (Gust_Wind_Speed w) = Inr (Some l)"
    by blast
  from curve_losses_emitted [OF c] show ?thesis
    by (auto simp: loss_func_def)
qed

theorem contents_ratio_on_structural_breakpoints_witness:
  "\<exists>ws vc rc.
        column_speeds (loss_func scenario_curves 12 3 BUILDING_DAMAGE_ID) = Inr ws
      \<and> np_interp (Some 75) (map real_of_int ws)
           (flat_values (loss_func scenario_curves 12 3 CONTENTS_DAMAGE_ID)) = Inr rc
      \<and> iloc (dropna scenario_row) 13 = Inr vc
      \<and> mul_cell rc vc = Inr (Some 10000)
      \<and> ws_columns (loss_func scenario_curves 12 3 CONTENTS_DAMAGE_ID)
          = ws_columns (loss_func scenario_curves 12 3 BUILDING_DAMAGE_ID)"
  using contents_ratio_on_structural_breakpoints [OF scenario_row_emits]
  by (simp add: scenario_loss_def)


subsection \<open>Terrain classes\<close>

text \<open>
  C4. The terrain classification is a total function into the classes 1 to 5 with
  the thresholds 0.03, 0.15, 0.35 and 0.7 (each upper bound inclusive), and it never
  decreases when the roughness grows. It holds for every real roughness, so also for
  every roughness that is at least 0.
\<close>

theorem terrain_ID_step_function:
  "terrain_ID r \<in> {1, 2, 3, 4, 5}
   \<and> (r \<le> 0.03 \<longrightarrow> terrain_ID r = 1)
   \<and> (0.03 < r \<and> r \<le> 0.15 \<longrightarrow> terrain_ID r = 2)
   \<and> (0.15 < r \<and> r \<le> 0.35 \<longrightarrow> terrain_ID r = 3)
   \<and> (0.35 < r \<and> r \<le> 0.7 \<longrightarrow> terrain_ID r = 4)
   \<and> (0.7 < r \<longrightarrow> terrain_ID r = 5)
   \<and> (r \<le> r' \<longrightarrow> terrain_ID r \<le> terrain_ID r')"
  by (simp add: terrain_ID_def)

theorem terrain_ID_step_function_witness:
  "(0.15::real) < 0.2 \<and> (0.2::real) \<le> 0.35 \<and> (0.2::real) \<le> 0.7
   \<and> terrain_ID 0.2 = 3 \<and> terrain_ID 0.2 \<le> terrain_ID 0.7
   \<and> terrain_ID 0.7 = 4 \<and> terrain_ID 0 = 1 \<and> terrain_ID 0.03 = 1
   \<and> terrain_ID 0.1 = 2 \<and> terrain_ID 0.71 = 5"
  using terrain_ID_step_function [of "0.2" "0.7"] terrain_ID_step_function [of "0.7" "0.7"]
    terrain_ID_step_function [of "0" "0"] terrain_ID_step_function [of "0.03" "0.03"]
    terrain_ID_step_function [of "0.1" "0.1"] terrain_ID_step_function [of "0.71" "0.71"]
  by simp

subsection \<open>Aggregation\<close>

lemma py_sum_exact:
  "py_sum (+) xs = (if None \<in> set xs then None else Some (sum_list (map the xs)))"
proof -
  have n: "nan_add (+) (Some x) (Some y) = Some (x + y)" "nan_add (+) None b = None"
    "nan_add (+) c None = None" for x y b c
    by (simp_all add: nan_add_def split: option.splits)
  have "foldl (nan_add (+)) acc xs =
      (case acc of None \<Rightarrow> None
       | Some a \<Rightarrow> if None \<in> set xs then None else Some (a + sum_list (map the xs)))"
    for acc
  proof (induction xs arbitrary: acc)
    case Nil
    show ?case by (simp split: option.splits)
  next
    case (Cons x xs)
    show ?case
      by (cases acc; cases x) (simp_all add: Cons.IH n add.assoc)
  qed
  then show ?thesis by (simp add: py_sum_def)
qed

lemma py_sum_Some: "py_sum (+) (map (\<lambda>k. Some (g k)) ks) = Some (sum_list (map g ks))"
  by (auto simp: py_sum_exact comp_def)

lemma unique_distinct: "distinct (unique xs)"
  by (simp add: unique_def)

lemma unique_set: "set (unique xs) = set xs"
  by (simp add: unique_def)

lemma sum_list_absent:
  "k0 \<notin> set ks \<Longrightarrow> (\<Sum>k\<leftarrow>ks. if k0 = k then (v::real) else 0) = 0"
  by (induction ks) auto

lemma sum_list_single:
  "distinct ks \<Longrightarrow> k0 \<in> set ks \<Longrightarrow>
   (\<Sum>k\<leftarrow>ks. if k0 = k then (v::real) else 0) = v"
  by (induction ks) (auto simp: sum_list_absent)

lemma sum_by_key:
  fixes f :: "'a \<Rightarrow> real"
  assumes "distinct ks" "key ` set rs \<subseteq> set ks"
  shows "(\<Sum>k\<leftarrow>ks. sum_list (map f (filter (\<lambda>r. key r = k) rs))) = sum_list (map f rs)"
  using assms(2)
proof (induction rs)
  case Nil
  show ?case by simp
next
  case (Cons r rs)
  have "(\<Sum>k\<leftarrow>ks. sum_list (map f (filter (\<lambda>r. key r = k) (r # rs))))
      = (\<Sum>k\<leftarrow>ks. (if key r = k then f r else 0)
            + sum_list (map f (filter (\<lambda>r. key r = k) rs)))"
    by (intro arg_cong [where f = sum_list] map_cong) auto
  also have "\<dots> = (\<Sum>k\<leftarrow>ks. if key r = k then f r else 0)
      + (\<Sum>k\<leftarrow>ks. sum_list (map f (filter (\<lambda>r. key r = k) rs)))"
    by (simp add: sum_list_addf)
  also have "\<dots> = f r + sum_list (map f rs)"
    using Cons assms(1) by (simp add: sum_list_single)
  finally show ?case by simp
qed

lemma losses_county_keys:
  "map fst (losses_county add a rs) = unique (map (\<lambda>r. take 5 (a (countyFIPS r))) rs)"
proof -
  have "UcountyFIPS a = (\<lambda>r. take 5 (a (countyFIPS r)))"
    by (intro ext) (simp add: UcountyFIPS_def)
  then show ?thesis
    by (simp add: losses_county_def comp_def Let_def)
qed

lemma losses_county_subtotals:
  assumes "(c, b, k) \<in> set (losses_county add a rs)"
  shows "b = py_sum add (map Building_Loss (filter (\<lambda>r. take 5 (a (countyFIPS r)) = c) rs))"
    and "k = py_sum add (map Contents_Loss (filter (\<lambda>r. take 5 (a (countyFIPS r)) = c) rs))"
  using assms by (auto simp: losses_county_def UcountyFIPS_def Let_def)

lemma subtotals_exact:
  fixes f :: "'a \<Rightarrow> real option"
  assumes "distinct ks" "key ` set rs \<subseteq> set ks"
  shows "py_sum (+) (map (\<lambda>k. py_sum (+) (map f (filter (\<lambda>r. key r = k) rs))) ks)
       = py_sum (+) (map f rs)"
proof (cases "None \<in> f ` set rs")
  case True
  then obtain r where r: "r \<in> set rs" "f r = None" by force
  with assms(2) have "key r \<in> set ks" by auto
  moreover from r have "py_sum (+) (map f (filter (\<lambda>r'. key r' = key r) rs)) = None"
    by (force simp: py_sum_exact)
  ultimately have "None \<in> set (map (\<lambda>k. py_sum (+) (map f (filter (\<lambda>r. key r = k) rs))) ks)"
    by force
  with True show ?thesis
    by (subst py_sum_exact, subst (2) py_sum_exact) simp
next
  case False
  then have sub: "py_sum (+) (map f (filter (\<lambda>r. key r = k) rs))
      = Some (sum_list (map (\<lambda>r. the (f r)) (filter (\<lambda>r. key r = k) rs)))" for k
    by (auto simp: py_sum_exact comp_def)
  have "py_sum (+) (map (\<lambda>k. py_sum (+) (map f (filter (\<lambda>r. key r = k) rs))) ks)
      = Some (\<Sum>k\<leftarrow>ks. sum_list (map (\<lambda>r. the (f r)) (filter (\<lambda>r. key r = k) rs)))"
    unfolding sub by (rule py_sum_Some)
  also have "\<dots> = Some (sum_list (map (\<lambda>r. the (f r)) rs))"
    using sum_by_key [OF assms, of "\<lambda>r. the (f r)"] by simp
  also have "\<dots> = py_sum (+) (map f rs)"
    using False by (simp add: py_sum_exact comp_def)
  finally show ?thesis .
qed

lemma losses_county_exact:
  "py_sum (+) (map (\<lambda>(c, b, k). b) (losses_county (+) a rs)) = py_sum (+) (map Building_Loss rs)"
  "py_sum (+) (map (\<lambda>(c, b, k). k) (losses_county (+) a rs)) = py_sum (+) (map Contents_Loss rs)"
  using subtotals_exact [of "unique (map (UcountyFIPS a) rs)" "UcountyFIPS a" rs Building_Loss]
    subtotals_exact [of "unique (map (UcountyFIPS a) rs)" "UcountyFIPS a" rs Contents_Loss]
  by (simp_all add: losses_county_def unique_distinct unique_set comp_def Let_def)

lemma py_round0_whole: "py_round0 (py_round0 x + py_round0 y) = py_round0 x + py_round0 y"
proof -
  have "py_round0 (real_of_int n) = real_of_int n" for n
    by (simp add: py_round0_def)
  moreover have "\<exists>n. py_round0 x + py_round0 y = real_of_int n"
    unfolding py_round0_def Let_def by (metis of_int_add)
  ultimately show ?thesis by metis
qed

lemma py_round0_half_even:
  "\<exists>n :: int. py_round0 x = of_int n \<and> \<bar>of_int n - x\<bar> \<le> 1 / 2
     \<and> (\<bar>of_int n - x\<bar> = 1 / 2 \<longrightarrow> even n)"
proof -
  define f where "f = \<lfloor>x\<rfloor>"
  define d where "d = x - real_of_int f"
  have d: "0 \<le> d" "d < 1"
    unfolding d_def f_def by linarith+
  consider "d < 1 / 2" | "1 / 2 < d" | "d = 1 / 2" "even f" | "d = 1 / 2" "odd f"
    by fastforce
  then show ?thesis
  proof cases
    case 1
    then have "py_round0 x = of_int f"
      by (simp add: py_round0_def Let_def f_def d_def)
    moreover have "\<bar>of_int f - x\<bar> < 1 / 2"
      using 1 d by (simp add: d_def)
    ultimately show ?thesis by (intro exI [of _ f]) simp
  next
    case 2
    then have "py_round0 x = of_int (f + 1)"
      by (simp add: py_round0_def Let_def f_def d_def)
    moreover have "\<bar>of_int (f + 1) - x\<bar> < 1 / 2"
      using 2 d by (simp add: d_def)
    ultimately show ?thesis by (intro exI [of _ "f + 1"]) simp
  next
    case 3
    then have "py_round0 x = of_int f"
      by (simp add: py_round0_def Let_def f_def d_def)
    moreover have "\<bar>of_int f - x\<bar> = 1 / 2"
      using 3 by (simp add: d_def)
    ultimately show ?thesis using 3 by (intro exI [of _ f]) simp
  next
    case 4
    then have "py_round0 x = of_int (f + 1)"
      by (simp add: py_round0_def Let_def f_def d_def)
    moreover have "\<bar>of_int (f + 1) - x\<bar> = 1 / 2"
      using 4 by (simp add: d_def)
    ultimately show ?thesis using 4 by (intro exI [of _ "f + 1"]) simp
  qed
qed

lemma losses_county_nonempty: "rs \<noteq> [] \<Longrightarrow> losses_county add a rs \<noteq> []"
proof -
  assume "rs \<noteq> []"
  then have "set (unique (map (UcountyFIPS a) rs)) \<noteq> {}"
    by (simp add: unique_set)
  then show ?thesis by (auto simp: losses_county_def)
qed

text \<open>
  C6, as the code has it. For the loss records of a scenario (at least one): the
  counties are the distinct 5-character prefixes of the county codes, in order of first
  appearance; each county's subtotal is the builtin sum of the losses of the records
  with that prefix; the reported structural total is the builtin sum of the county
  subtotals rounded once to the nearest whole number (a tie to the even one), and NaN
  when that sum is NaN; the same for contents; the reported combined total is the sum
  of the two reported (already rounded) totals, with no rounding of its own. When
  additions are exact, the sum of all structural losses equals the sum of the county
  subtotals (the same for contents) and the combined total is a whole number; with
  the rounding additions of doubles the two sums are summed in another order.
\<close>

theorem scenario_totals_sums:
  assumes "df_indiv \<noteq> []"
  shows "\<exists>total_bldg total_cont total_all.
      scenario_totals add a df_indiv = Inr (total_bldg, total_cont, total_all)
    \<and> map fst (losses_county add a df_indiv)
        = unique (map (\<lambda>r. take 5 (a (countyFIPS r))) df_indiv)
    \<and> distinct (map fst (losses_county add a df_indiv))
    \<and> set (map fst (losses_county add a df_indiv))
        = (\<lambda>r. take 5 (a (countyFIPS r))) ` set df_indiv
    \<and> (\<forall>(c, b, k) \<in> set (losses_county add a df_indiv).
          b = py_sum add (map Building_Loss
                (filter (\<lambda>r. take 5 (a (countyFIPS r)) = c) df_indiv))
        \<and> k = py_sum add (map Contents_Loss
                (filter (\<lambda>r. take 5 (a (countyFIPS r)) = c) df_indiv)))
    \<and> (case py_sum add (map (\<lambda>(c, b, k). b) (losses_county add a df_indiv)) of
         None \<Rightarrow> total_bldg = None
       | Some s \<Rightarrow> \<exists>n :: int. total_bldg = Some (of_int n) \<and> \<bar>of_int n - s\<bar> \<le> 1 / 2
                     \<and> (\<bar>of_int n - s\<bar> = 1 / 2 \<longrightarrow> even n))
    \<and> (case py_sum add (map (\<lambda>(c, b, k). k) (losses_county add a df_indiv)) of
         None \<Rightarrow> total_cont = None
       | Some s \<Rightarrow> \<exists>n :: int. total_cont = Some (of_int n) \<and> \<bar>of_int n - s\<bar> \<le> 1 / 2
                     \<and> (\<bar>of_int n - s\<bar> = 1 / 2 \<longrightarrow> even n))
    \<and> total_all = (case (total_bldg, total_cont) of
                     (Some x, Some y) \<Rightarrow> Some (add x y) | _ \<Rightarrow> None)
    \<and> ((\<forall>x y. add x y = x + y) \<longrightarrow>
          py_sum add (map (\<lambda>(c, b, k). b) (losses_county add a df_indiv))
            = py_sum add (map Building_Loss df_indiv)
        \<and> py_sum add (map Building_Loss df_indiv)
            = (if None \<in> Building_Loss ` set df_indiv then None
               else Some (\<Sum>r\<leftarrow>df_indiv. the (Building_Loss r)))
        \<and> py_sum add (map (\<lambda>(c, b, k). k) (losses_county add a df_indiv))
            = py_sum add (map Contents_Loss df_indiv)
        \<and> py_sum add (map Contents_Loss df_indiv)
            = (if None \<in> Contents_Loss ` set df_indiv then None
               else Some (\<Sum>r\<leftarrow>df_indiv. the (Contents_Loss r)))
        \<and> (\<forall>t. total_all = Some t \<longrightarrow> (\<exists>n :: int. t = of_int n)))"
proof -
  define sb where "sb = py_sum add (map (\<lambda>(c, b, k). b) (losses_county add a df_indiv))"
  define sc where "sc = py_sum add (map (\<lambda>(c, b, k). k) (losses_county add a df_indiv))"
  from assms have "losses_county add a df_indiv \<noteq> []"
    by (rule losses_county_nonempty)
  then have tot: "scenario_totals add a df_indiv =
      Inr (map_option py_round0 sb, map_option py_round0 sc,
           nan_add add (map_option py_round0 sb) (map_option py_round0 sc))"
    by (simp add: scenario_totals_def Let_def sb_def sc_def)
  have sub: "\<forall>(c, b, k) \<in> set (losses_county add a df_indiv).
          b = py_sum add (map Building_Loss
                (filter (\<lambda>r. take 5 (a (countyFIPS r)) = c) df_indiv))
        \<and> k = py_sum add (map Contents_Loss
                (filter (\<lambda>r. take 5 (a (countyFIPS r)) = c) df_indiv))"
    using losses_county_subtotals [of _ _ _ add a df_indiv] by blast
  have rb: "case sb of
         None \<Rightarrow> map_option py_round0 sb = None
       | Some s \<Rightarrow> \<exists>n :: int. map_option py_round0 sb = Some (of_int n)
                     \<and> \<bar>of_int n - s\<bar> \<le> 1 / 2 \<and> (\<bar>of_int n - s\<bar> = 1 / 2 \<longrightarrow> even n)"
    using py_round0_half_even by (cases sb) simp_all
  have rc: "case sc of
         None \<Rightarrow> map_option py_round0 sc = None
       | Some s \<Rightarrow> \<exists>n :: int. map_option py_round0 sc = Some (of_int n)
                     \<and> \<bar>of_int n - s\<bar> \<le> 1 / 2 \<and> (\<bar>of_int n - s\<bar> = 1 / 2 \<longrightarrow> even n)"
    using py_round0_half_even by (cases sc) simp_all
  have all: "nan_add add (map_option py_round0 sb) (map_option py_round0 sc)
      = (case (map_option py_round0 sb, map_option py_round0 sc) of
           (Some x, Some y) \<Rightarrow> Some (add x y) | _ \<Rightarrow> None)"
    by (simp add: nan_add_def)
  have exact: "sb = py_sum add (map Building_Loss df_indiv)
        \<and> py_sum add (map Building_Loss df_indiv)
            = (if None \<in> Building_Loss ` set df_indiv then None
               else Some (\<Sum>r\<leftarrow>df_indiv. the (Building_Loss r)))
        \<and> sc = py_sum add (map Contents_Loss df_indiv)
        \<and> py_sum add (map Contents_Loss df_indiv)
            = (if None \<in> Contents_Loss ` set df_indiv then None
               else Some (\<Sum>r\<leftarrow>df_indiv. the (Contents_Loss r)))
        \<and> (\<forall>t. nan_add add (map_option py_round0 sb) (map_option py_round0 sc) = Some t
              \<longrightarrow> (\<exists>n :: int. t = of_int n))"
    if ex: "\<forall>x y. add x y = x + y"
  proof -
    from ex have add: "add = (+)" by (intro ext) simp
    have whole: "\<exists>n :: int. py_round0 x + py_round0 y = of_int n" for x y
      unfolding py_round0_def Let_def by (metis of_int_add)
    have "\<exists>n :: int. t = of_int n"
      if "nan_add add (map_option py_round0 sb) (map_option py_round0 sc) = Some t" for t
      using that whole by (cases sb; cases sc) (auto simp: nan_add_def add)
    moreover have "py_sum (+) (map f df_indiv)
        = (if None \<in> f ` set df_indiv then None else Some (\<Sum>r\<leftarrow>df_indiv. the (f r)))"
      for f :: "loss_record \<Rightarrow> real option"
      by (simp add: py_sum_exact comp_def)
    ultimately show ?thesis
      by (simp add: sb_def sc_def add losses_county_exact)
  qed
  have keys: "map fst (losses_county add a df_indiv)
        = unique (map (\<lambda>r. take 5 (a (countyFIPS r))) df_indiv)"
    by (rule losses_county_keys)
  have dist: "distinct (map fst (losses_county add a df_indiv))"
    unfolding keys by (rule unique_distinct)
  have cover: "set (map fst (losses_county add a df_indiv))
        = (\<lambda>r. take 5 (a (countyFIPS r))) ` set df_indiv"
    unfolding keys by (simp add: unique_set)
  show ?thesis
    unfolding sb_def [symmetric] sc_def [symmetric]
    by (intro exI conjI; (rule tot keys dist cover sub rb rc all)?) (use exact in blast)
qed

theorem scenario_totals_sums_witness:
  "example_losses \<noteq> [] \<and> (\<forall>x y :: real. x + y = x + y)
   \<and> scenario_totals (+) cell_text example_losses = Inr (Some 111, Some 71, Some 182)
   \<and> map fst (losses_county (+) cell_text example_losses) = [''22071'', ''22051'']
   \<and> py_sum (+) (map Building_Loss example_losses) = Some 111.25
   \<and> py_sum (+) (map (\<lambda>(c, b, k). b) (losses_county (+) cell_text example_losses))
       = Some 111.25"
proof -
  have ne: "example_losses \<noteq> []"
    by (simp add: example_losses_def)
  have ev: "scenario_totals (+) cell_text example_losses = Inr (Some 111, Some 71, Some 182)"
    by (simp add: scenario_totals_def losses_county_def unique_def py_sum_def py_round0_def
        example_losses_def UcountyFIPS_def Let_def nan_add_def)
  have s: "py_sum (+) (map Building_Loss example_losses) = Some 111.25"
    by (simp add: example_losses_def py_sum_def nan_add_def)
  have u: "unique (map (\<lambda>r. take 5 (cell_text (countyFIPS r))) example_losses)
      = [''22071'', ''22051'']"
    by (simp add: example_losses_def unique_def)
  from scenario_totals_sums [OF ne, of "(+)" cell_text] obtain tb tc ta where
    t: "scenario_totals (+) cell_text example_losses = Inr (tb, tc, ta)"
    and k: "map fst (losses_county (+) cell_text example_losses)
        = unique (map (\<lambda>r. take 5 (cell_text (countyFIPS r))) example_losses)"
    and e: "py_sum (+) (map (\<lambda>(c, b, k). b) (losses_county (+) cell_text example_losses))
        = py_sum (+) (map Building_Loss example_losses)"
    by auto
  from t ev ne k u e s show ?thesis by simp
qed

text \<open>
  The records of one building with a structural and a contents loss of one half: the
  reported totals are 0, 0 and 0, while the sum of the two unrounded totals, rounded to
  the nearest whole number, is 1.
\<close>

theorem combined_total_counterexample:
  "scenario_totals (+) cell_text
     [\<lparr>fd_id = CInt 1, countyFIPS = CStr ''22071'', wbID = 12, terrainID = 3,
       Wind_Speed = Some 75, Building_Loss = Some (1 / 2), Contents_Loss = Some (1 / 2)\<rparr>]
     = Inr (Some 0, Some 0, Some 0)
   \<and> py_round0 (1 / 2 + 1 / 2) = 1"
  by (simp add: scenario_totals_def losses_county_def unique_def py_sum_def py_round0_def
      nan_add_def Let_def)

subsection \<open>Vulnerability-type resolution\<close>

lemma match_chars_narrows:
  "\<forall>c \<in> set cs. row_value prof c \<noteq> None \<Longrightarrow>
   match_chars contains prof cs cands
     = Inr (foldl (spec_narrow contains) cands (List.map_filter (row_value prof) cs))"
proof (induction cs arbitrary: cands)
  case Nil
  show ?case by (simp add: List.map_filter_simps)
next
  case (Cons c cs)
  from Cons.prems obtain v where v: "row_value prof c = Some v" by auto
  from Cons.prems have rest: "\<forall>c \<in> set cs. row_value prof c \<noteq> None" by simp
  show ?case
    using v Cons.IH [OF rest]
    by (simp add: List.map_filter_simps spec_narrow_def Let_def)
qed

lemma shutter_exclusion_spec:
  assumes "distinct char_desc" "\<forall>c \<in> set char_desc. row_value prof c \<noteq> None"
  shows "shutter_exclusion char_desc prof
     = Inr (spec_chars_to_match char_desc
              (if ''Shutters'' \<in> set char_desc then row_value prof ''Shutters'' else None))"
proof (cases "''Shutters'' \<in> set char_desc")
  case False
  then show ?thesis by (simp add: shutter_exclusion_def spec_chars_to_match_def)
next
  case True
  with assms(2) obtain v where v: "row_value prof ''Shutters'' = Some v" by auto
  have rm: "remove1 x char_desc = filter (\<lambda>c. c \<noteq> x) char_desc" for x
    using assms(1) by (simp add: distinct_remove1_removeAll removeAll_filter_not_eq) metis
  from True v show ?thesis
    by (simp add: shutter_exclusion_def spec_chars_to_match_def rm)
qed

lemma spec_chars_subset: "set (spec_chars_to_match cd s) \<subseteq> set cd"
  by (auto simp: spec_chars_to_match_def split: option.splits if_splits)

text \<open>
  C2. With the sampled value present for every applicable characteristic type (they
  are distinct, in catalog order), the id assigned to a building is the one the
  specification describes: from the candidates registered for the subtype, after the
  shutter-dependent exclusion (shutters present removes the garage-without-shutters
  characteristic, any other shutter value removes garage-with-shutters, no exclusion
  when the shutter characteristic does not apply), each remaining characteristic
  filters the candidates by \<^verbatim>\<open>str.contains\<close> of its value in the description unless
  that would leave none, and the first remaining candidate is taken.
\<close>

theorem wbID_resolution:
  assumes "distinct char_desc" and "\<forall>c \<in> set char_desc. row_value prof c \<noteq> None"
  shows "wbID_of_row contains wind_types sbt char_desc prof =
     Inr (spec_resolve contains (filter (\<lambda>w. sbtName_w w = sbt) wind_types)
            (List.map_filter (row_value prof)
               (spec_chars_to_match char_desc
                  (if ''Shutters'' \<in> set char_desc then row_value prof ''Shutters''
                   else None))))"
proof -
  let ?cs = "spec_chars_to_match char_desc
                  (if ''Shutters'' \<in> set char_desc then row_value prof ''Shutters'' else None)"
  from assms(2) spec_chars_subset [of char_desc] have "\<forall>c \<in> set ?cs. row_value prof c \<noteq> None"
    by blast
  from match_chars_narrows [OF this] shutter_exclusion_spec [OF assms] show ?thesis
    by (simp add: wbID_of_row_def then_do_def spec_resolve_def Let_def split: list.splits)
qed

theorem wbID_resolution_witness:
  "wbID_of_row contains_text (huListOfWindBldgTypes example_hazus) ''WSF1''
     [''Shutters'', ''Garage, Houses w/out Shutters'', ''Roof Cover'', ''Roof Shape'']
     example_profile = Inr (Some 102)
   \<and> match_chars contains_text example_profile
       [''Shutters'', ''Garage, Houses w/out Shutters'', ''Roof Cover'', ''Roof Shape'']
       (huListOfWindBldgTypes example_hazus)
     = Inr [\<lparr>sbtName_w = ''WSF1'', wbID_w = 101,
             charDescription = Some ''rsgab shtys gdnod''\<rparr>]"
proof -
  let ?cd = "[''Shutters'', ''Garage, Houses w/out Shutters'', ''Roof Cover'', ''Roof Shape'']"
  have d: "distinct ?cd" by code_simp
  have p: "\<forall>c \<in> set ?cd. row_value example_profile c \<noteq> None"
    by code_simp
  have m: "match_chars contains_text example_profile ?cd (huListOfWindBldgTypes example_hazus)
     = Inr [\<lparr>sbtName_w = ''WSF1'', wbID_w = 101,
             charDescription = Some ''rsgab shtys gdnod''\<rparr>]"
    by code_simp
  have e: "spec_resolve contains_text
      (filter (\<lambda>w. sbtName_w w = ''WSF1'') (huListOfWindBldgTypes example_hazus))
      (List.map_filter (row_value example_profile)
         (spec_chars_to_match ?cd
            (if ''Shutters'' \<in> set ?cd then row_value example_profile ''Shutters''
             else None))) = Some 102"
    by code_simp
  from wbID_resolution [OF d p, of contains_text "huListOfWindBldgTypes example_hazus" "''WSF1''"]
  have "wbID_of_row contains_text (huListOfWindBldgTypes example_hazus) ''WSF1'' ?cd
     example_profile = Inr (Some 102)"
    by (simp only: e)
  then show ?thesis using m by (rule conjI)
qed

subsection \<open>A subtype without candidates\<close>

lemma match_chars_no_candidates:
  "\<forall>c \<in> set cs. row_value prof c \<noteq> None \<Longrightarrow> match_chars contains prof cs [] = Inr []"
  by (induction cs) auto

lemma shutter_exclusion_subset:
  "\<forall>c \<in> set char_desc. row_value prof c \<noteq> None \<Longrightarrow>
   \<exists>cs. shutter_exclusion char_desc prof = Inr cs \<and> set cs \<subseteq> set char_desc"
  using set_remove1_subset [of _ char_desc]
  by (auto simp: shutter_exclusion_def split: option.splits)

lemma append_row_no_candidates:
  assumes "filter (\<lambda>w. sbtName_w w = sbt) wind_types = []"
    and "\<forall>c \<in> set char_desc. row_value prof c \<noteq> None"
  shows "append_row contains wind_types sbt char_desc (b, prof) bl =
     Inr (bl @
          [\<lparr>source = b, countyFIPS_e = take 5 (cbfips b), sbtName_e = sbt, profile = prof,
            wbID_e = None, terrainID_e = terrain_ID (SURFACEROU b)\<rparr>])"
proof -
  from shutter_exclusion_subset [OF assms(2)] obtain cs where
    cs: "shutter_exclusion char_desc prof = Inr cs" "set cs \<subseteq> set char_desc" by blast
  with assms(2) have "\<forall>c \<in> set cs. row_value prof c \<noteq> None" by blast
  then have "match_chars contains prof cs [] = Inr []"
    by (rule match_chars_no_candidates)
  with cs(1) assms(1) have "wbID_of_row contains wind_types sbt char_desc prof = Inr None"
    by (simp add: wbID_of_row_def then_do_def)
  then show ?thesis
    by (simp add: append_row_def characterize_row_def then_do_def)
qed

lemma draws_length: "draws ch n g = Inr (vs, g') \<Longrightarrow> length vs = n"
proof (induction n arbitrary: g vs g')
  case 0
  then show ?case by simp
next
  case (Suc n)
  from Suc.prems obtain v g1 ws g2 where
    "ch g = Inr (v, g1)" "draws ch n g1 = Inr (ws, g2)" "vs = v # ws"
    by (auto simp: then_do_Inr)
  with Suc.IH [of g1 ws g2] show ?case by simp
qed

text \<open>After the characteristic columns of a group of \<open>n\<close> rows are drawn, every type of
  \<^verbatim>\<open>char_desc\<close> has a column of \<open>n\<close> sampled values.\<close>

lemma assign_chars_columns:
  assumes "assign_chars lib chars huBldg n cts g = Inr (cd, cols, g')" "distinct cts"
  shows "set cd \<subseteq> set cts
    \<and> (\<forall>c \<in> set cd. \<exists>vals. map_of cols c = Some (map Some vals) \<and> length vals = n)"
  using assms
proof (induction cts arbitrary: g cd cols g')
  case Nil
  then show ?case by simp
next
  case (Cons ct cts)
  let ?main = "filter (\<lambda>c. CharType c = ct) chars"
  let ?check = "list_ex (\<lambda>item. item \<in> set (map BLDGCHARID huBldg)) (map BldgCharID ?main)"
  from Cons.prems(2) have d: "distinct cts" "ct \<notin> set cts" by simp_all
  show ?case
  proof (cases ?check)
    case True
    with Cons.prems(1) obtain a p vals g1 cd' cols' where
      s: "sample_column lib n a p g = Inr (vals, g1)"
      and r: "assign_chars lib chars huBldg n cts g1 = Inr (cd', cols', g')"
      and e: "cd = ct # cd'" "cols = (ct, map Some vals) # cols'"
      by (simp add: Let_def then_do_Inr) blast
    from s have len: "length vals = n"
      by (simp add: sample_column_def draws_length)
    from Cons.IH [OF r d(1)] have ih: "set cd' \<subseteq> set cts"
      "\<forall>c \<in> set cd'. \<exists>vals. map_of cols' c = Some (map Some vals) \<and> length vals = n"
      by simp_all
    from ih(1) d(2) have "ct \<notin> set cd'" by blast
    with ih e len show ?thesis by auto
  next
    case False
    with Cons.prems(1) obtain cols' where
      r: "assign_chars lib chars huBldg n cts g = Inr (cd, cols', g')"
      and e: "cols = (ct, replicate n None) # cols'"
      by (simp add: Let_def then_do_Inr) blast
    from Cons.IH [OF r d(1)] have ih: "set cd \<subseteq> set cts"
      "\<forall>c \<in> set cd. \<exists>vals. map_of cols' c = Some (map Some vals) \<and> length vals = n"
      by simp_all
    from ih(1) d(2) have "ct \<notin> set cd" by blast
    with ih e show ?thesis by auto
  qed
qed

lemma row_profile_sampled:
  assumes "map_of cols c = Some (map Some vals)" "i < length vals"
  shows "row_value (row_profile cols i) c = Some (vals ! i)"
proof -
  have "map_of (map (\<lambda>(ct, col). (ct, col ! i)) cols) c = map_option (\<lambda>col. col ! i) (map_of cols c)"
    by (induction cols) auto
  with assms show ?thesis
    by (simp add: row_value_def row_profile_def)
qed

lemma for_each_appends:
  assumes "\<And>x bl. x \<in> set xs \<Longrightarrow> body x bl = Inr (bl @ [f x])"
  shows "for_each body xs bl = Inr (bl @ map f xs)"
  using assms by (induction xs arbitrary: bl) (simp_all add: then_do_def)

text \<open>
  C3, as the code has it, in the loop over the sampled subtypes of a group of
  buildings (lines 262-351). A subtype with no registered vulnerability type and (1)
  no mapping row for the scheme: the loop goes on to the next subtype, the list of the
  output and the generator stay as they are, so none of the group's buildings is in
  the output, and nothing is raised; (2) with mapping rows, once the characteristic
  columns are drawn: nothing is raised and every building of the group is appended to
  the list of the output, in row order, with a missing id, its sampled
  characteristics and its terrain class.
\<close>

theorem no_candidates_rows_kept:
  assumes "filter (\<lambda>w. sbtName_w w = sbt) (huListOfWindBldgTypes tables) = []"
  shows "(filter (\<lambda>m. scheme_m m = scheme \<and> sbtName_m m = sbt) (huBldgMapping tables) = []
        \<longrightarrow> characterize_subtype lib tables scheme df_sub sbt (bl, g) = Inr (bl, g))
    \<and> (filter (\<lambda>m. scheme_m m = scheme \<and> sbtName_m m = sbt) (huBldgMapping tables) \<noteq> []
        \<and> assign_chars lib (huListofBldgChar tables)
            (filter (\<lambda>m. scheme_m m = scheme \<and> sbtName_m m = sbt) (huBldgMapping tables))
            (length (filter (\<lambda>(b, s). s = sbt) df_sub)) (charTypes tables) g
          = Inr (char_desc, cols, g_after)
        \<longrightarrow> characterize_subtype lib tables scheme df_sub sbt (bl, g) =
              Inr (bl @ map (\<lambda>i. \<lparr>source = map fst (filter (\<lambda>(b, s). s = sbt) df_sub) ! i,
                                   countyFIPS_e =
                                     take 5 (cbfips (map fst (filter (\<lambda>(b, s). s = sbt) df_sub) ! i)),
                                   sbtName_e = sbt, profile = row_profile cols i,
                                   wbID_e = None,
                                   terrainID_e = terrain_ID (SURFACEROU
                                     (map fst (filter (\<lambda>(b, s). s = sbt) df_sub) ! i))\<rparr>)
                         [0..<length (filter (\<lambda>(b, s). s = sbt) df_sub)],
                   g_after))"
proof (intro conjI impI)
  assume "filter (\<lambda>m. scheme_m m = scheme \<and> sbtName_m m = sbt) (huBldgMapping tables) = []"
  then show "characterize_subtype lib tables scheme df_sub sbt (bl, g) = Inr (bl, g)"
    by (simp add: characterize_subtype_def)
next
  let ?huBldg = "filter (\<lambda>m. scheme_m m = scheme \<and> sbtName_m m = sbt) (huBldgMapping tables)"
  let ?df3 = "map fst (filter (\<lambda>(b, s). s = sbt) df_sub)"
  let ?row = "\<lambda>i. \<lparr>source = ?df3 ! i, countyFIPS_e = take 5 (cbfips (?df3 ! i)),
                    sbtName_e = sbt, profile = row_profile cols i, wbID_e = None,
                    terrainID_e = terrain_ID (SURFACEROU (?df3 ! i))\<rparr>"
  assume h: "?huBldg \<noteq> []
        \<and> assign_chars lib (huListofBldgChar tables) ?huBldg
            (length (filter (\<lambda>(b, s). s = sbt) df_sub)) (charTypes tables) g
          = Inr (char_desc, cols, g_after)"
  then have ac: "assign_chars lib (huListofBldgChar tables) ?huBldg (length ?df3)
      (charTypes tables) g = Inr (char_desc, cols, g_after)"
    by simp
  have "distinct (charTypes tables)"
    by (simp add: charTypes_def unique_distinct)
  from assign_chars_columns [OF ac this] have
    cols: "\<forall>c \<in> set char_desc. \<exists>vals. map_of cols c = Some (map Some vals)
             \<and> length vals = length ?df3"
    by blast
  have sampled: "\<forall>c \<in> set char_desc. row_value (row_profile cols i) c \<noteq> None"
    if "i < length ?df3" for i
    using cols that row_profile_sampled [of cols _ _ i] by fastforce
  have "for_each (\<lambda>row. append_row (str_contains lib) (huListOfWindBldgTypes tables) sbt
                          char_desc (?df3 ! row, row_profile cols row))
          [0..<length ?df3] bl = Inr (bl @ map ?row [0..<length ?df3])"
  proof (rule for_each_appends)
    fix x bl'
    assume "x \<in> set [0..<length ?df3]"
    then have "x < length ?df3" by simp
    from append_row_no_candidates [OF assms sampled [OF this]]
    show "append_row (str_contains lib) (huListOfWindBldgTypes tables) sbt char_desc
            (?df3 ! x, row_profile cols x) bl' = Inr (bl' @ [?row x])" .
  qed
  with h ac show "characterize_subtype lib tables scheme df_sub sbt (bl, g) =
      Inr (bl @ map ?row [0..<length (filter (\<lambda>(b, s). s = sbt) df_sub)], g_after)"
    by (simp add: characterize_subtype_def Let_def then_do_def)
qed

theorem no_candidates_rows_kept_witness:
  "characterize_subtype plain_library example_hazus ''LA1''
     [(example_building 5 ''22071'' ''RES3'', ''WMUH1'')] ''WMUH1'' ([], 0) = Inr ([], 0)
   \<and> characterize_subtype plain_library example_hazus ''LA1''
       [(example_building 2 ''22071'' ''RES3'', ''WSF2'')] ''WSF2'' ([], 0)
     = Inr ([\<lparr>source = example_building 2 ''22071'' ''RES3'', countyFIPS_e = ''22071'',
              sbtName_e = ''WSF2'',
              profile = [(''Shutters'', Some ''shtys''), (''Roof Shape'', None),
                         (''Roof Cover'', None)],
              wbID_e = None, terrainID_e = 3\<rparr>], 122)"
proof -
  have w1: "filter (\<lambda>w. sbtName_w w = ''WMUH1'') (huListOfWindBldgTypes example_hazus) = []"
    by code_simp
  have m1: "filter (\<lambda>m. scheme_m m = ''LA1'' \<and> sbtName_m m = ''WMUH1'')
      (huBldgMapping example_hazus) = []"
    by code_simp
  have w2: "filter (\<lambda>w. sbtName_w w = ''WSF2'') (huListOfWindBldgTypes example_hazus) = []"
    by code_simp
  have m2: "filter (\<lambda>m. scheme_m m = ''LA1'' \<and> sbtName_m m = ''WSF2'')
      (huBldgMapping example_hazus) \<noteq> []"
    by code_simp
  have n2: "filter (\<lambda>(b, s). s = ''WSF2'') [(example_building 2 ''22071'' ''RES3'', ''WSF2'')]
      = [(example_building 2 ''22071'' ''RES3'', ''WSF2'')]"
    by simp
  have a2: "assign_chars plain_library (huListofBldgChar example_hazus)
      (filter (\<lambda>m. scheme_m m = ''LA1'' \<and> sbtName_m m = ''WSF2'') (huBldgMapping example_hazus))
      (length (filter (\<lambda>(b, s). s = ''WSF2'')
         [(example_building 2 ''22071'' ''RES3'', ''WSF2'')]))
      (charTypes example_hazus) 0
    = Inr ([''Shutters''],
           [(''Shutters'', [Some ''shtys'']), (''Roof Shape'', [None]), (''Roof Cover'', [None])],
           122)"
    by code_simp
  have t: "terrain_ID (SURFACEROU (example_building 2 ''22071'' ''RES3'')) = 3"
    by (simp add: example_building_def terrain_ID_def)
  have k: "take 5 (cbfips (example_building 2 ''22071'' ''RES3'')) = ''22071''"
    by (simp add: example_building_def)
  from no_candidates_rows_kept [OF w1, where scheme = "''LA1''" and lib = plain_library
      and df_sub = "[(example_building 5 ''22071'' ''RES3'', ''WMUH1'')]" and bl = "[]"
      and g = 0] m1
  have first: "characterize_subtype plain_library example_hazus ''LA1''
     [(example_building 5 ''22071'' ''RES3'', ''WMUH1'')] ''WMUH1'' ([], 0) = Inr ([], 0)"
    by blast
  from no_candidates_rows_kept [OF w2, where scheme = "''LA1''" and lib = plain_library
      and df_sub = "[(example_building 2 ''22071'' ''RES3'', ''WSF2'')]" and g = 0
      and char_desc = "[''Shutters'']"
      and cols = "[(''Shutters'', [Some ''shtys'']), (''Roof Shape'', [None]),
                   (''Roof Cover'', [None])]"
      and g_after = 122 and bl = "[]"] m2 a2
  have "characterize_subtype plain_library example_hazus ''LA1''
       [(example_building 2 ''22071'' ''RES3'', ''WSF2'')] ''WSF2'' ([], 0)
     = Inr ([] @ map (\<lambda>i. \<lparr>source = map fst (filter (\<lambda>(b, s). s = ''WSF2'')
                                 [(example_building 2 ''22071'' ''RES3'', ''WSF2'')]) ! i,
                 countyFIPS_e = take 5 (cbfips (map fst (filter (\<lambda>(b, s). s = ''WSF2'')
                                 [(example_building 2 ''22071'' ''RES3'', ''WSF2'')]) ! i)),
                 sbtName_e = ''WSF2'',
                 profile = row_profile [(''Shutters'', [Some ''shtys'']), (''Roof Shape'', [None]),
                                        (''Roof Cover'', [None])] i,
                 wbID_e = None,
                 terrainID_e = terrain_ID (SURFACEROU (map fst (filter (\<lambda>(b, s). s = ''WSF2'')
                                 [(example_building 2 ''22071'' ''RES3'', ''WSF2'')]) ! i))\<rparr>)
              [0..<length (filter (\<lambda>(b, s). s = ''WSF2'')
                              [(example_building 2 ''22071'' ''RES3'', ''WSF2'')])], 122)"
    by blast
  then have second: "characterize_subtype plain_library example_hazus ''LA1''
       [(example_building 2 ''22071'' ''RES3'', ''WSF2'')] ''WSF2'' ([], 0)
     = Inr ([\<lparr>source = example_building 2 ''22071'' ''RES3'', countyFIPS_e = ''22071'',
              sbtName_e = ''WSF2'',
              profile = [(''Shutters'', Some ''shtys''), (''Roof Shape'', None),
                         (''Roof Cover'', None)],
              wbID_e = None, terrainID_e = 3\<rparr>], 122)"
    by (simp add: n2 t k row_profile_def)
  from first second show ?thesis by (rule conjI)
qed

text \<open>
  The claim as stated, that such a building is dropped from the output and nothing is
  raised, fails twice on an inventory of one building that is drawn into the subtype
  \<^verbatim>\<open>WSF2\<close>, for which no vulnerability type is registered. The stage, run without a
  checkpoint, raises at line 182 before it reaches the loop over the counties. The
  loop over the counties, entered with the county codes of the inventory, keeps the
  building: it ends in \<^verbatim>\<open>building_list\<close> with a missing id.
\<close>

theorem no_candidates_counterexample:
  "map sbtName_w (huListOfWindBldgTypes example_hazus) = [''WSF1'', ''WSF1'', ''WSF1'']
   \<and> characterize_buildings plain_library example_fs
        (NsiFrame [example_building 2 ''22071'' ''RES3'']) ''hazus'' ''inventory'' False 0
     = Inl NameError
   \<and> for_each (county_step plain_library example_hazus
        [example_building 2 ''22071'' ''RES3''] 1) [''22071'']
        \<lparr>building_list = [], rng = 0, log = [], county_count = 0\<rparr>
     = Inr \<lparr>building_list =
              [\<lparr>source = example_building 2 ''22071'' ''RES3'',
                countyFIPS_e = ''22071'', sbtName_e = ''WSF2'',
                profile = [(''Shutters'', Some ''shtys''), (''Roof Shape'', None),
                           (''Roof Cover'', None)],
                wbID_e = None, terrainID_e = 3\<rparr>],
            rng = 122, log = [], county_count = 1\<rparr>"
proof -
  have a: "map sbtName_w (huListOfWindBldgTypes example_hazus) = [''WSF1'', ''WSF1'', ''WSF1'']"
    by code_simp
  have d: "dir_keys ''inventory'' = [''inventory'']"
    by code_simp
  have b: "characterize_buildings plain_library example_fs
        (NsiFrame [example_building 2 ''22071'' ''RES3'']) ''hazus'' ''inventory'' False 0
     = Inl NameError"
    by (simp add: characterize_buildings_def makedirs_def d example_fs_def then_do_def
        path_exists_def isdir_def dir_key_def path_join_def Let_def
        BUILDING_INVENTORY_CHECKPOINT_def HAZUS_mapping_def
        recompute_characterization_def read_mapping_def read_file_def
        build_inventory_def county_codes_def str_io_def unique_def countyFIPS_b_def)
  have c: "for_each (county_step plain_library example_hazus
        [example_building 2 ''22071'' ''RES3''] 1) [''22071'']
        \<lparr>building_list = [], rng = 0, log = [], county_count = 0\<rparr>
     = Inr \<lparr>building_list =
              [\<lparr>source = example_building 2 ''22071'' ''RES3'',
                countyFIPS_e = ''22071'', sbtName_e = ''WSF2'',
                profile = [(''Shutters'', Some ''shtys''), (''Roof Shape'', None),
                           (''Roof Cover'', None)],
                wbID_e = None, terrainID_e = 3\<rparr>],
            rng = 122, log = [], county_count = 1\<rparr>"
    by code_simp
  from a b c show ?thesis by simp
qed

subsection \<open>The checkpoint of the characterization\<close>

text \<open>The computation never returns: on an inventory with a row, line 182 raises;
  on an empty one no row is appended and line 358 reads an unbound variable.\<close>

lemma map_err_raises: "xs \<noteq> [] \<Longrightarrow> map_err (\<lambda>i. Inl e) xs = Inl e"
  by (cases xs) (simp_all add: then_do_def)

lemma build_inventory_raises:
  "build_inventory lib tables nsi_cb g
     = Inl (if nsi_cb = [] then UnboundLocalError else NameError)"
proof (cases "nsi_cb = []")
  case True
  then show ?thesis
    by (simp add: build_inventory_def county_codes_def unique_def then_do_def)
next
  case False
  then have "set (unique (map countyFIPS_b nsi_cb)) \<noteq> {}"
    by (simp add: unique_set)
  then have "unique (map countyFIPS_b nsi_cb) \<noteq> []" by auto
  then have "county_codes nsi_cb = Inl NameError"
    by (simp add: county_codes_def str_io_def map_err_raises)
  with False show ?thesis
    by (simp add: build_inventory_def then_do_def)
qed

lemma recompute_characterization_raises:
  "recompute_characterization lib fs nsi_data hazus_dir output_dir lg g \<noteq> Inr r"
  by (auto simp: recompute_characterization_def then_do_def build_inventory_raises Let_def
      split: sum.splits)

subsection \<open>Paths and directories\<close>

lemma dir_key_nonempty: "d \<noteq> [] \<Longrightarrow> dir_key d \<noteq> []"
  by (auto simp: dir_key_def dropWhile_eq_Nil_conv)

lemma dir_key_plain:
  assumes "p \<noteq> []" "last p \<noteq> CHR ''/''"
  shows "dir_key p = p"
proof -
  from assms have "\<not> set p \<subseteq> {CHR ''/''}"
    using last_in_set by fastforce
  moreover have "dropWhile (\<lambda>c. c = CHR ''/'') (rev p) = rev p"
    using assms by (cases p rule: rev_cases) simp_all
  ultimately show ?thesis by (simp add: dir_key_def)
qed

lemma dir_key_idem: "dir_key (dir_key d) = dir_key d"
proof (cases "d \<noteq> [] \<and> set d \<subseteq> {CHR ''/''}")
  case True
  then show ?thesis by (simp add: dir_key_def)
next
  case False
  let ?y = "dropWhile (\<lambda>c. c = CHR ''/'') (rev d)"
  from False have k: "dir_key d = rev ?y" by (auto simp: dir_key_def)
  show ?thesis
  proof (cases "?y = []")
    case True
    with k show ?thesis by (simp add: dir_key_def)
  next
    case ne: False
    then have "hd ?y \<noteq> CHR ''/''"
      using hd_dropWhile [of "\<lambda>c. c = CHR ''/''" "rev d"] by simp
    with ne have "last (rev ?y) \<noteq> CHR ''/''" "rev ?y \<noteq> []"
      by (simp_all add: last_rev)
    then have "dir_key (rev ?y) = rev ?y" by (intro dir_key_plain)
    with k show ?thesis by simp
  qed
qed

lemma dir_keys_members:
  assumes "k \<in> set (dir_keys d)" "d \<noteq> []"
  shows "k \<noteq> [] \<and> dir_key k = k"
proof -
  from assms obtain x where "k = dir_key x" "x \<noteq> []"
    by (auto simp: dir_keys_def)
  then show ?thesis by (simp add: dir_key_nonempty dir_key_idem)
qed

lemma path_join_suffix: "\<exists>c. path_join a b = c @ b"
proof -
  have "path_join a b = [] @ b \<or> path_join a b = a @ b \<or> path_join a b = (a @ ''/'') @ b"
    by (simp add: path_join_def)
  then show ?thesis by blast
qed

lemma makedirs_returns:
  assumes "makedirs fs d = Inr fs'"
  shows "d \<noteq> []" "\<forall>k \<in> set (dir_keys d). files fs k = None"
    "fs' = fs\<lparr>dirs := dirs fs \<union> set (dir_keys d)\<rparr>"
  using assms by (auto simp: makedirs_def list_ex_iff split: if_splits)

lemma makedirs_ready:
  "makedirs fs d = Inr fs \<longleftrightarrow>
     d \<noteq> [] \<and> (\<forall>k \<in> set (dir_keys d). files fs k = None \<and> k \<in> dirs fs)"
proof
  assume m: "makedirs fs d = Inr fs"
  from makedirs_returns [OF m] have "d \<noteq> []" "\<forall>k \<in> set (dir_keys d). files fs k = None"
    and "dirs fs = dirs (fs\<lparr>dirs := dirs fs \<union> set (dir_keys d)\<rparr>)"
    by simp_all
  then show "d \<noteq> [] \<and> (\<forall>k \<in> set (dir_keys d). files fs k = None \<and> k \<in> dirs fs)"
    by auto
next
  assume h: "d \<noteq> [] \<and> (\<forall>k \<in> set (dir_keys d). files fs k = None \<and> k \<in> dirs fs)"
  then have "dirs fs \<union> set (dir_keys d) = dirs fs" by auto
  with h show "makedirs fs d = Inr fs"
    by (simp add: makedirs_def list_ex_iff)
qed

lemma makedirs_again:
  assumes "makedirs fs d = Inr fs'"
  shows "makedirs fs' d = Inr fs'"
  using makedirs_returns [OF assms] by (simp add: makedirs_ready)

text \<open>A directory that is in place stays in place when directories are only added and
  no file is written onto a directory.\<close>

lemma makedirs_kept:
  assumes "makedirs fs d = Inr fs" "dirs fs \<subseteq> dirs fs'"
    and "\<forall>p. isdir fs p \<longrightarrow> files fs' p = files fs p"
  shows "makedirs fs' d = Inr fs'"
proof -
  from assms(1) have d: "d \<noteq> []"
    and k: "\<forall>k \<in> set (dir_keys d). files fs k = None \<and> k \<in> dirs fs"
    by (simp_all add: makedirs_ready)
  have "files fs' k = None \<and> k \<in> dirs fs'" if "k \<in> set (dir_keys d)" for k
  proof -
    from dir_keys_members [OF that d] k that have "isdir fs k"
      by (simp add: isdir_def)
    with assms(3) have "files fs' k = files fs k" by blast
    with k that assms(2) show ?thesis by auto
  qed
  with d show ?thesis by (simp add: makedirs_ready)
qed

text \<open>A file with one of the names of the configuration can still be read when files
  are written elsewhere and no directory is made in its place.\<close>

lemma read_file_kept:
  assumes "read_file fs (path_join d name) = Inr c" "name \<noteq> []" "last name \<noteq> CHR ''/''"
    and "files fs' (path_join d name) = files fs (path_join d name)"
    and "\<forall>k \<in> dirs fs'. k \<notin> dirs fs \<longrightarrow> files fs k = None \<or> k \<in> outputs"
    and "path_join d name \<notin> outputs"
  shows "read_file fs' (path_join d name) = Inr c"
proof -
  let ?p = "path_join d name"
  obtain q where q: "?p = q @ name" using path_join_suffix by blast
  with assms(2,3) have "?p \<noteq> []" "last ?p \<noteq> CHR ''/''" by simp_all
  then have key: "dir_key ?p = ?p" by (rule dir_key_plain)
  from assms(1) have nd: "\<not> isdir fs ?p" and f: "files fs ?p = Some c"
    by (auto simp: read_file_def split: if_splits option.splits)
  have "\<not> isdir fs' ?p"
  proof
    assume "isdir fs' ?p"
    with key have "?p \<in> dirs fs'" by (simp add: isdir_def)
    moreover from nd key \<open>?p \<noteq> []\<close> have "?p \<notin> dirs fs" by (simp add: isdir_def)
    ultimately have "files fs ?p = None \<or> ?p \<in> outputs" using assms(5) by blast
    with f assms(6) show False by simp
  qed
  with f assms(4) show ?thesis by (simp add: read_file_def)
qed

lemma characterize_buildings_returns:
  assumes "characterize_buildings lib fs nsi_data hazus_dir output_dir force_rerun g
             = Inr (data, fs_after, lg)"
  shows "\<not> force_rerun \<and> makedirs fs output_dir = Inr fs_after
    \<and> path_exists fs_after (path_join output_dir BUILDING_INVENTORY_CHECKPOINT)
    \<and> read_inventory fs_after (path_join output_dir BUILDING_INVENTORY_CHECKPOINT) = Inr data
    \<and> lg = [CheckpointLoaded (length data)]"
proof -
  from assms obtain fs' where m: "makedirs fs output_dir = Inr fs'"
    and r: "(let checkpoint_path = path_join output_dir BUILDING_INVENTORY_CHECKPOINT in
       if path_exists fs' checkpoint_path \<and> \<not> force_rerun then
         (case read_inventory fs' checkpoint_path of
            Inr building_data \<Rightarrow>
              Inr (building_data, fs', [CheckpointLoaded (length building_data)])
          | Inl e \<Rightarrow>
              recompute_characterization lib fs' nsi_data hazus_dir output_dir
                [CheckpointLoadError] g)
       else recompute_characterization lib fs' nsi_data hazus_dir output_dir [] g)
      = Inr (data, fs_after, lg)"
    unfolding characterize_buildings_def then_do_Inr by blast
  from r m show ?thesis
    by (auto simp: Let_def recompute_characterization_raises split: if_splits sum.splits)
qed

lemma characterize_buildings_checkpoint:
  assumes "makedirs fs output_dir = Inr fs"
    and "path_exists fs (path_join output_dir BUILDING_INVENTORY_CHECKPOINT)"
    and "read_inventory fs (path_join output_dir BUILDING_INVENTORY_CHECKPOINT) = Inr data"
  shows "characterize_buildings lib fs nsi_data hazus_dir output_dir False g
             = Inr (data, fs, [CheckpointLoaded (length data)])"
  using assms by (simp add: characterize_buildings_def Let_def then_do_def)

text \<open>
  C5, at inputs where the claim and the code part: an inventory of one building,
  the workbook in place, and (first) no checkpoint, (second) a checkpoint that cannot
  be read, (third) the force flag set. The claim has the classification run, its
  result written to the checkpoint and returned; the code raises \<^verbatim>\<open>NameError\<close>,
  whatever the generator and the library.
\<close>

theorem characterize_buildings_recompute_raises:
  "characterize_buildings lib example_fs (NsiFrame [example_building 1 ''22071'' ''RES1''])
     ''hazus'' ''inventory'' False g = Inl NameError
   \<and> characterize_buildings lib
       (example_fs\<lparr>files := (files example_fs)(''inventory/nsi_wbId_sr.csv'' \<mapsto> Unreadable),
                   dirs := insert ''inventory'' (dirs example_fs)\<rparr>)
       (NsiFrame [example_building 1 ''22071'' ''RES1'']) ''hazus'' ''inventory'' False g
     = Inl NameError
   \<and> characterize_buildings lib example_fs (NsiFrame [example_building 1 ''22071'' ''RES1''])
     ''hazus'' ''inventory'' True g = Inl NameError"
proof -
  have d: "dir_keys ''inventory'' = [''inventory'']"
    by code_simp
  show ?thesis
    by (simp add: characterize_buildings_def recompute_characterization_def Let_def
        makedirs_def d path_exists_def isdir_def dir_key_def to_csv_def
        read_inventory_def read_mapping_def read_file_def path_join_def example_fs_def
        then_do_def build_inventory_raises BUILDING_INVENTORY_CHECKPOINT_def
        HAZUS_mapping_def)
qed

subsection \<open>Running a stage again\<close>

lemma characterize_buildings_again:
  assumes "characterize_buildings lib fs nsi_data hazus_dir output_dir force_rerun g
             = Inr (data, fs_after, lg)"
  shows "characterize_buildings lib fs_after nsi_data hazus_dir output_dir False g'
             = Inr (data, fs_after, [CheckpointLoaded (length data)])"
proof -
  from characterize_buildings_returns [OF assms] have
    m: "makedirs fs output_dir = Inr fs_after"
    and e: "path_exists fs_after (path_join output_dir BUILDING_INVENTORY_CHECKPOINT)"
    and r: "read_inventory fs_after (path_join output_dir BUILDING_INVENTORY_CHECKPOINT)
              = Inr data"
    by simp_all
  from makedirs_again [OF m] e r show ?thesis
    by (rule characterize_buildings_checkpoint)
qed

lemma losses_path_plain: "\<exists>c. losses_path output_dir scenario = c @ BUILDING_LOSSES_PATTERN"
  unfolding losses_path_def by (rule path_join_suffix)

lemma damage_file_not_output:
  "path_join hazus_dir HAZUS_damage_functions \<noteq> losses_path output_dir scenario"
proof
  assume eq: "path_join hazus_dir HAZUS_damage_functions = losses_path output_dir scenario"
  obtain c where c: "path_join hazus_dir HAZUS_damage_functions = c @ HAZUS_damage_functions"
    using path_join_suffix by blast
  obtain d where d: "losses_path output_dir scenario = d @ BUILDING_LOSSES_PATTERN"
    using losses_path_plain by blast
  from eq c d have "take 5 (rev (c @ HAZUS_damage_functions))
      = take 5 (rev (d @ BUILDING_LOSSES_PATTERN))"
    by simp
  then show False
    by (simp add: HAZUS_damage_functions_def BUILDING_LOSSES_PATTERN_def)
qed

lemma to_csv_returns:
  assumes "to_csv fs d name content = Inr fs'"
  shows "\<not> isdir fs (path_join d name)"
    "fs' = fs\<lparr>files := (files fs)(path_join d name \<mapsto> content)\<rparr>"
  using assms by (auto simp: to_csv_def split: if_splits)

text \<open>What one scenario of the loss calculator leaves: the scenario's directory in
  place, its loss file there, every other file as it was, no file on a directory,
  and new directories only where no file was.\<close>

lemma calculate_scenario_returns:
  assumes "calculate_scenario t bi out force (s, j) (lf, fs, lg) = Inr (lf', fs', lg')"
  shows "lf' = dict_set s (losses_path out s) lf"
    and "makedirs fs' (path_join out s) = Inr fs'"
    and "path_exists fs' (losses_path out s)"
    and "\<forall>p. p \<noteq> losses_path out s \<longrightarrow> files fs' p = files fs p"
    and "\<forall>p. isdir fs p \<longrightarrow> files fs' p = files fs p"
    and "\<forall>p. path_exists fs p \<longrightarrow> path_exists fs' p"
    and "dirs fs \<subseteq> dirs fs'"
    and "\<forall>k \<in> dirs fs'. k \<notin> dirs fs \<longrightarrow> files fs k = None"
proof -
  let ?D = "path_join out s"
  let ?P = "losses_path out s"
  from assms obtain fs1 where m: "makedirs fs ?D = Inr fs1"
    and r: "(if path_exists fs1 ?P \<and> \<not> force then
          Inr (dict_set s ?P lf, fs1, lg @ [OutputExists ?P])
        else
          then_do (read_joined fs1 j) (\<lambda>nsi_wrf.
          then_do (scenario_losses t bi nsi_wrf)
            (\<lambda>(losses, lg').
          then_do (to_csv fs1 ?D BUILDING_LOSSES_PATTERN (LossesCsv losses)) (\<lambda>fs'.
          Inr (dict_set s ?P lf, fs', lg @ lg' @ [SavingLosses ?P])))))
       = Inr (lf', fs', lg')"
    by (auto simp: calculate_scenario_def Let_def then_do_Inr)
  from makedirs_returns [OF m] have dne: "?D \<noteq> []"
    and free: "\<forall>k \<in> set (dir_keys ?D). files fs k = None"
    and fs1: "fs1 = fs\<lparr>dirs := dirs fs \<union> set (dir_keys ?D)\<rparr>"
    by simp_all
  from fs1 have f1: "files fs1 = files fs" and d1: "dirs fs1 = dirs fs \<union> set (dir_keys ?D)"
    by simp_all
  have up: "isdir fs p \<Longrightarrow> isdir fs1 p" for p
    by (simp add: isdir_def d1)
  have keydir: "isdir fs1 k" if "k \<in> set (dir_keys ?D)" for k
    using dir_keys_members [OF that dne] that by (simp add: isdir_def d1)
  consider (kept) "lf' = dict_set s ?P lf" "fs' = fs1" "path_exists fs1 ?P"
    | (written) content where "lf' = dict_set s ?P lf" "\<not> isdir fs1 ?P"
        "fs' = fs1\<lparr>files := (files fs1)(?P \<mapsto> content)\<rparr>"
  proof (cases "path_exists fs1 ?P \<and> \<not> force")
    case True
    with r have "lf' = dict_set s ?P lf" "fs' = fs1" by simp_all
    with True show ?thesis by (intro kept) simp_all
  next
    case False
    with r obtain losses where
      w: "to_csv fs1 ?D BUILDING_LOSSES_PATTERN (LossesCsv losses) = Inr fs'"
      and l: "lf' = dict_set s ?P lf"
      by (auto simp: then_do_Inr)
    from to_csv_returns [OF w] l show ?thesis
      by (intro written [of "LossesCsv losses"]) (simp_all add: losses_path_def)
  qed
  then have all: "lf' = dict_set s ?P lf
    \<and> makedirs fs' ?D = Inr fs'
    \<and> path_exists fs' ?P
    \<and> (\<forall>p. p \<noteq> ?P \<longrightarrow> files fs' p = files fs p)
    \<and> (\<forall>p. isdir fs p \<longrightarrow> files fs' p = files fs p)
    \<and> (\<forall>p. path_exists fs p \<longrightarrow> path_exists fs' p)
    \<and> dirs fs \<subseteq> dirs fs'
    \<and> (\<forall>k \<in> dirs fs'. k \<notin> dirs fs \<longrightarrow> files fs k = None)"
  proof cases
    case kept
    have "makedirs fs1 ?D = Inr fs1" using m by (rule makedirs_again)
    moreover have "\<forall>p. path_exists fs p \<longrightarrow> path_exists fs1 p"
      by (auto simp: path_exists_def f1 up)
    moreover have "\<forall>k \<in> dirs fs1. k \<notin> dirs fs \<longrightarrow> files fs k = None"
      using free by (auto simp: d1)
    ultimately show ?thesis
      using kept f1 d1 by auto
  next
    case written
    have fw: "files fs' p = (if p = ?P then Some content else files fs p)" for p
      by (simp add: written(3) f1)
    have dw: "dirs fs' = dirs fs1"
      by (simp add: written(3))
    have notkey: "k \<noteq> ?P" if "k \<in> set (dir_keys ?D)" for k
      using keydir [OF that] written(2) by auto
    have "makedirs fs' ?D = Inr fs'"
      unfolding makedirs_ready using dne free notkey by (auto simp: fw dw d1)
    moreover have "path_exists fs' ?P"
      by (simp add: path_exists_def fw)
    moreover have "\<forall>p. isdir fs p \<longrightarrow> files fs' p = files fs p"
      using up written(2) by (auto simp: fw)
    moreover have "\<forall>p. path_exists fs p \<longrightarrow> path_exists fs' p"
      by (auto simp: path_exists_def fw isdir_def dw d1)
    moreover have "\<forall>k \<in> dirs fs'. k \<notin> dirs fs \<longrightarrow> files fs k = None"
      using free by (auto simp: dw d1)
    ultimately show ?thesis
      using written(1) by (auto simp: fw dw d1)
  qed
  from all show "lf' = dict_set s (losses_path out s) lf"
    and "makedirs fs' (path_join out s) = Inr fs'"
    and "path_exists fs' (losses_path out s)"
    and "\<forall>p. p \<noteq> losses_path out s \<longrightarrow> files fs' p = files fs p"
    and "\<forall>p. isdir fs p \<longrightarrow> files fs' p = files fs p"
    and "\<forall>p. path_exists fs p \<longrightarrow> path_exists fs' p"
    and "dirs fs \<subseteq> dirs fs'"
    and "\<forall>k \<in> dirs fs'. k \<notin> dirs fs \<longrightarrow> files fs k = None"
    by blast+
qed

lemma calculate_loop_returns:
  "for_each (calculate_scenario t bi out force) paths (lf, fs, lg) = Inr (lf', fs', lg')
   \<Longrightarrow> lf' = loss_files_of out lf paths
    \<and> (\<forall>sj \<in> set paths. makedirs fs' (path_join out (fst sj)) = Inr fs'
           \<and> path_exists fs' (losses_path out (fst sj)))
    \<and> (\<forall>p. (\<forall>sj \<in> set paths. p \<noteq> losses_path out (fst sj)) \<longrightarrow> files fs' p = files fs p)
    \<and> (\<forall>p. isdir fs p \<longrightarrow> files fs' p = files fs p)
    \<and> (\<forall>p. path_exists fs p \<longrightarrow> path_exists fs' p)
    \<and> dirs fs \<subseteq> dirs fs'
    \<and> (\<forall>k \<in> dirs fs'. k \<notin> dirs fs \<longrightarrow>
          files fs k = None \<or> k \<in> (\<lambda>sj. losses_path out (fst sj)) ` set paths)"
proof (induction paths arbitrary: lf fs lg)
  case Nil
  then show ?case by (simp add: loss_files_of_def)
next
  case (Cons sj paths)
  obtain s j where sj: "sj = (s, j)" by (cases sj)
  from Cons.prems sj obtain lf1 fs1 lg1 where
    st: "calculate_scenario t bi out force (s, j) (lf, fs, lg) = Inr (lf1, fs1, lg1)"
    and rest: "for_each (calculate_scenario t bi out force) paths (lf1, fs1, lg1)
                 = Inr (lf', fs', lg')"
    by (auto simp: then_do_Inr)
  note a = calculate_scenario_returns [OF st]
  from Cons.IH [OF rest] have
    b1: "lf' = loss_files_of out lf1 paths"
    and b2: "\<And>x. x \<in> set paths \<Longrightarrow> makedirs fs' (path_join out (fst x)) = Inr fs'
           \<and> path_exists fs' (losses_path out (fst x))"
    and b3: "\<And>p. (\<forall>x \<in> set paths. p \<noteq> losses_path out (fst x)) \<Longrightarrow> files fs' p = files fs1 p"
    and b4: "\<And>p. isdir fs1 p \<Longrightarrow> files fs' p = files fs1 p"
    and b5: "\<And>p. path_exists fs1 p \<Longrightarrow> path_exists fs' p"
    and b6: "dirs fs1 \<subseteq> dirs fs'"
    and b7: "\<And>k. k \<in> dirs fs' \<Longrightarrow> k \<notin> dirs fs1 \<Longrightarrow>
          files fs1 k = None \<or> k \<in> (\<lambda>sj. losses_path out (fst sj)) ` set paths"
    by blast+
  have c1: "lf' = loss_files_of out lf (sj # paths)"
    using a(1) b1 sj by (simp add: loss_files_of_def)
  have c2: "\<forall>x \<in> set (sj # paths). makedirs fs' (path_join out (fst x)) = Inr fs'
           \<and> path_exists fs' (losses_path out (fst x))"
  proof -
    have "makedirs fs' (path_join out s) = Inr fs'"
      using a(2) b6 by (rule makedirs_kept) (simp add: b4)
    moreover have "path_exists fs' (losses_path out s)"
      using a(3) by (rule b5)
    ultimately show ?thesis using b2 sj by simp
  qed
  have c3: "\<forall>p. (\<forall>x \<in> set (sj # paths). p \<noteq> losses_path out (fst x))
              \<longrightarrow> files fs' p = files fs p"
  proof (intro allI impI)
    fix p
    assume h: "\<forall>x \<in> set (sj # paths). p \<noteq> losses_path out (fst x)"
    then have "p \<noteq> losses_path out s" using sj by simp
    with a(4) have "files fs1 p = files fs p" by blast
    moreover from h have "files fs' p = files fs1 p" by (intro b3) simp
    ultimately show "files fs' p = files fs p" by simp
  qed
  have up: "isdir fs p \<Longrightarrow> isdir fs1 p" for p
    using a(7) by (auto simp: isdir_def)
  have c4: "\<forall>p. isdir fs p \<longrightarrow> files fs' p = files fs p"
    using a(5) b4 up by simp
  have c5: "\<forall>p. path_exists fs p \<longrightarrow> path_exists fs' p"
    using a(6) b5 by blast
  have c6: "dirs fs \<subseteq> dirs fs'"
    using a(7) b6 by blast
  have c7: "\<forall>k \<in> dirs fs'. k \<notin> dirs fs \<longrightarrow>
          files fs k = None \<or> k \<in> (\<lambda>sj. losses_path out (fst sj)) ` set (sj # paths)"
  proof (intro ballI impI)
    fix k
    assume k: "k \<in> dirs fs'" "k \<notin> dirs fs"
    show "files fs k = None \<or> k \<in> (\<lambda>sj. losses_path out (fst sj)) ` set (sj # paths)"
    proof (cases "k \<in> dirs fs1")
      case True
      with a(8) k(2) show ?thesis by blast
    next
      case False
      from b7 [OF k(1) False] show ?thesis
      proof
        assume n: "files fs1 k = None"
        show ?thesis
        proof (cases "k = losses_path out s")
          case True
          then show ?thesis using sj by simp
        next
          case False
          with a(4) n show ?thesis by simp
        qed
      next
        assume "k \<in> (\<lambda>sj. losses_path out (fst sj)) ` set paths"
        then show ?thesis by auto
      qed
    qed
  qed
  from c1 c2 c3 c4 c5 c6 c7 show ?case by blast
qed

lemma calculate_loop_skips:
  "\<forall>sj \<in> set paths. makedirs fs (path_join out (fst sj)) = Inr fs
       \<and> path_exists fs (losses_path out (fst sj)) \<Longrightarrow>
   for_each (calculate_scenario t bi out False) paths (lf, fs, lg)
     = Inr (loss_files_of out lf paths, fs,
            lg @ map (\<lambda>sj. OutputExists (losses_path out (fst sj))) paths)"
proof (induction paths arbitrary: lf lg)
  case Nil
  show ?case by (simp add: loss_files_of_def)
next
  case (Cons sj paths)
  obtain s j where sj: "sj = (s, j)" by (cases sj)
  from Cons.prems sj have
    "calculate_scenario t bi out False sj (lf, fs, lg)
       = Inr (dict_set s (losses_path out s) lf, fs, lg @ [OutputExists (losses_path out s)])"
    by (simp add: calculate_scenario_def Let_def then_do_def)
  moreover from Cons.prems have "\<forall>sj \<in> set paths. makedirs fs (path_join out (fst sj)) = Inr fs
       \<and> path_exists fs (losses_path out (fst sj))"
    by simp
  ultimately show ?case
    using Cons.IH sj by (simp add: then_do_def loss_files_of_def)
qed

text \<open>The loss calculator writes only loss files, so a file of the configuration with
  another name reads afterwards as before.\<close>

lemma calculate_keeps_file:
  assumes "for_each (calculate_scenario t bi out force) paths (lf, fs, lg) = Inr (lf', fs', lg')"
    and "read_file fs (path_join d name) = Inr c" "name \<noteq> []" "last name \<noteq> CHR ''/''"
    and "\<And>s. path_join d name \<noteq> losses_path out s"
  shows "read_file fs' (path_join d name) = Inr c"
proof -
  from calculate_loop_returns [OF assms(1)] have
    k: "\<And>p. (\<forall>x \<in> set paths. p \<noteq> losses_path out (fst x)) \<Longrightarrow> files fs' p = files fs p"
    and n: "\<forall>k \<in> dirs fs'. k \<notin> dirs fs \<longrightarrow>
          files fs k = None \<or> k \<in> (\<lambda>sj. losses_path out (fst sj)) ` set paths"
    by blast+
  have same: "files fs' (path_join d name) = files fs (path_join d name)"
    by (rule k) (simp add: assms(5))
  have out: "path_join d name \<notin> (\<lambda>sj. losses_path out (fst sj)) ` set paths"
    using assms(5) by auto
  from assms(2-4) same n out show ?thesis by (rule read_file_kept)
qed

lemma calculate_building_losses_again:
  assumes "calculate_building_losses fs bi paths hz out force = Inr (lf, fs_after, lg)"
  shows "calculate_building_losses fs_after bi paths hz out False
     = Inr (lf, fs_after, map (\<lambda>sj. OutputExists (losses_path out (fst sj))) paths)"
proof -
  let ?d = "path_join hz HAZUS_damage_functions"
  from assms have ex: "path_exists fs ?d"
    by (simp add: calculate_building_losses_def Let_def split: if_splits)
  with assms obtain t where t: "read_damage fs ?d = Inr t"
    and loop: "for_each (calculate_scenario t bi out force) paths ([], fs, [])
                 = Inr (lf, fs_after, lg)"
    by (simp add: calculate_building_losses_def Let_def then_do_Inr) blast
  from calculate_loop_returns [OF loop] have
    files: "lf = loss_files_of out [] paths"
    and all: "\<forall>sj \<in> set paths. makedirs fs_after (path_join out (fst sj)) = Inr fs_after
           \<and> path_exists fs_after (losses_path out (fst sj))"
    and ex1: "path_exists fs_after ?d"
    using ex by blast+
  from t obtain c where c: "read_file fs ?d = Inr c"
    by (auto simp: read_damage_def then_do_Inr)
  have "read_file fs_after ?d = Inr c"
    using loop c by (rule calculate_keeps_file)
      (simp_all add: HAZUS_damage_functions_def damage_file_not_output [unfolded HAZUS_damage_functions_def])
  with t c have t1: "read_damage fs_after ?d = Inr t"
    by (simp add: read_damage_def)
  have "for_each (calculate_scenario t bi out False) paths ([], fs_after, [])
     = Inr (lf, fs_after, map (\<lambda>sj. OutputExists (losses_path out (fst sj))) paths)"
    using calculate_loop_skips [OF all, of t bi "[]" "[]"] files by simp
  with ex1 t1 show ?thesis
    by (simp add: calculate_building_losses_def Let_def then_do_def)
qed

lemma aggregate_county_losses_again:
  assumes "aggregate_county_losses add a fs paths out force = Inr (p, fs_after)"
  shows "aggregate_county_losses add a fs_after paths out False = Inr (p, fs_after)"
proof (cases "path_exists fs (path_join out TOTAL_LOSS_OUTPUT) \<and> \<not> force")
  case True
  with assms have "p = path_join out TOTAL_LOSS_OUTPUT" "fs_after = fs"
    by (simp_all add: aggregate_county_losses_def Let_def)
  with True show ?thesis
    by (simp add: aggregate_county_losses_def Let_def)
next
  case False
  with assms have "then_do (for_each (aggregate_scenario add a fs) paths [])
      (\<lambda>total_losses.
         if total_losses = [] then Inl ValueError
         else then_do (to_csv fs out TOTAL_LOSS_OUTPUT (TotalLossCsv total_losses))
                (\<lambda>fs'. Inr (path_join out TOTAL_LOSS_OUTPUT, fs')))
     = Inr (p, fs_after)"
    by (simp add: aggregate_county_losses_def Let_def split: if_splits)
  then obtain total_losses where
    w: "to_csv fs out TOTAL_LOSS_OUTPUT (TotalLossCsv total_losses) = Inr fs_after"
    and p: "p = path_join out TOTAL_LOSS_OUTPUT"
    by (auto simp: then_do_Inr split: if_splits)
  from to_csv_returns(2) [OF w] have "path_exists fs_after (path_join out TOTAL_LOSS_OUTPUT)"
    by (simp add: path_exists_def)
  with p show ?thesis
    by (simp add: aggregate_county_losses_def Let_def)
qed

text \<open>
  C7. When an invocation of a stage has returned, a second invocation on the files
  it left, with the same arguments and the force flag unset, returns the same value
  and leaves every file as it is, without computing: Characterize returns the content
  of the checkpoint, Calculate the same dictionary of loss files with every scenario
  reported as existing, Aggregate the path of the summary.
\<close>

theorem stages_idempotent:
  "(characterize_buildings lib fs nsi_data hazus_dir output_dir force_rerun g
      = Inr (data, fs_after, lg) \<longrightarrow>
    characterize_buildings lib fs_after nsi_data hazus_dir output_dir False g'
      = Inr (data, fs_after, [CheckpointLoaded (length data)]))
   \<and> (calculate_building_losses fs_c bi paths hz out force_c = Inr (lf, fs_c_after, lg_c) \<longrightarrow>
      calculate_building_losses fs_c_after bi paths hz out False
        = Inr (lf, fs_c_after, map (\<lambda>sj. OutputExists (losses_path out (fst sj))) paths))
   \<and> (aggregate_county_losses add a fs_a lpaths out_a force_a = Inr (p, fs_a_after) \<longrightarrow>
      aggregate_county_losses add a fs_a_after lpaths out_a False = Inr (p, fs_a_after))"
proof (intro conjI impI)
  assume "characterize_buildings lib fs nsi_data hazus_dir output_dir force_rerun g
      = Inr (data, fs_after, lg)"
  then show "characterize_buildings lib fs_after nsi_data hazus_dir output_dir False g'
      = Inr (data, fs_after, [CheckpointLoaded (length data)])"
    by (rule characterize_buildings_again)
next
  assume "calculate_building_losses fs_c bi paths hz out force_c = Inr (lf, fs_c_after, lg_c)"
  then show "calculate_building_losses fs_c_after bi paths hz out False
        = Inr (lf, fs_c_after, map (\<lambda>sj. OutputExists (losses_path out (fst sj))) paths)"
    by (rule calculate_building_losses_again)
next
  assume "aggregate_county_losses add a fs_a lpaths out_a force_a = Inr (p, fs_a_after)"
  then show "aggregate_county_losses add a fs_a_after lpaths out_a False = Inr (p, fs_a_after)"
    by (rule aggregate_county_losses_again)
qed

lemma example_dir_keys:
  "dir_keys ''inventory'' = [''inventory'']"
  "dir_keys ''results/ida_2021'' = [''results/ida_2021'', ''results'']"
  by code_simp+

lemma example_paths:
  "path_join ''inventory'' BUILDING_INVENTORY_CHECKPOINT = ''inventory/nsi_wbId_sr.csv''"
  "path_join ''hazus'' HAZUS_damage_functions = ''hazus/huDamLossFunc.csv''"
  "path_join ''results'' ''ida_2021'' = ''results/ida_2021''"
  "losses_path ''results'' ''ida_2021'' = ''results/ida_2021/Losses.csv''"
  "path_join ''results/ida_2021'' BUILDING_LOSSES_PATTERN = ''results/ida_2021/Losses.csv''"
  "path_join ''results'' TOTAL_LOSS_OUTPUT = ''results/TotalLoss.csv''"
  by (simp_all add: path_join_def losses_path_def BUILDING_INVENTORY_CHECKPOINT_def
      HAZUS_damage_functions_def BUILDING_LOSSES_PATTERN_def TOTAL_LOSS_OUTPUT_def)

lemma example_dir_key:
  "dir_key ''inventory/nsi_wbId_sr.csv'' = ''inventory/nsi_wbId_sr.csv''"
  "dir_key ''hazus/huDamLossFunc.csv'' = ''hazus/huDamLossFunc.csv''"
  "dir_key ''joined/ida_2021.csv'' = ''joined/ida_2021.csv''"
  "dir_key ''results/ida_2021/Losses.csv'' = ''results/ida_2021/Losses.csv''"
  "dir_key ''results/TotalLoss.csv'' = ''results/TotalLoss.csv''"
  "dir_key ''results/ida_2021'' = ''results/ida_2021''"
  "dir_key ''results'' = ''results''"
  by (rule dir_key_plain; simp)+

lemma example_characterize_first:
  "characterize_buildings lib example_fs_checkpoint (NsiPath ''nsi.csv'') ''hazus''
      ''inventory'' False g = Inr (example_inventory, example_fs_checkpoint, [CheckpointLoaded 1])"
proof -
  have m: "makedirs example_fs_checkpoint ''inventory'' = Inr example_fs_checkpoint"
    by (simp add: makedirs_ready example_dir_keys example_fs_checkpoint_def example_fs_def)
  have e: "path_exists example_fs_checkpoint ''inventory/nsi_wbId_sr.csv''"
    by (simp add: path_exists_def example_fs_checkpoint_def)
  have r: "read_inventory example_fs_checkpoint ''inventory/nsi_wbId_sr.csv''
      = Inr example_inventory"
    by (simp add: read_inventory_def read_file_def isdir_def example_dir_key then_do_def
        example_fs_checkpoint_def example_fs_def)
  have n: "length example_inventory = 1" by (simp add: example_inventory_def)
  from characterize_buildings_checkpoint [of example_fs_checkpoint "''inventory''"
      example_inventory lib "NsiPath ''nsi.csv''" "''hazus''" g] m e r
  show ?thesis by (simp add: example_paths n)
qed

lemma scenario_wind_length: "length scenario_wind = 1"
  by (simp add: scenario_wind_def)

lemma example_calculate_first:
  "calculate_building_losses example_fs [scenario_row]
      [(''ida_2021'', ''joined/ida_2021.csv'')] ''hazus'' ''results'' False
    = Inr ([(''ida_2021'', ''results/ida_2021/Losses.csv'')],
           example_fs\<lparr>files := (files example_fs)
                         (''results/ida_2021/Losses.csv'' \<mapsto> LossesCsv [scenario_loss]),
                       dirs := dirs example_fs \<union> {''results/ida_2021'', ''results''}\<rparr>,
           [JoinedLoaded 1, ProcessedTotal 1, LossStatistics 50000 10000 60000,
            SavingLosses ''results/ida_2021/Losses.csv''])"
  by (simp add: calculate_building_losses_def calculate_scenario_def scenario_losses_def
      loss_step_def Let_def read_damage_def read_joined_def read_file_def example_paths
      example_dir_keys example_dir_key makedirs_def to_csv_def path_exists_def isdir_def
      example_fs_def then_do_def List.map_filter_def
      scenario_row_emits scenario_wind_length scenario_loss_def)

lemma example_aggregate_first:
  "aggregate_county_losses (+) cell_text example_fs_losses
      [(''ida_2021'', ''results/ida_2021/Losses.csv'')] ''results'' False
    = Inr (''results/TotalLoss.csv'',
           example_fs_losses\<lparr>files := (files example_fs_losses)(''results/TotalLoss.csv'' \<mapsto>
             TotalLossCsv [(''ida_2021'', Some 111, Some 71, Some 182)])\<rparr>)"
proof -
  have ev: "scenario_totals (+) cell_text example_losses = Inr (Some 111, Some 71, Some 182)"
    by (simp add: scenario_totals_def losses_county_def unique_def py_sum_def py_round0_def
        example_losses_def UcountyFIPS_def Let_def nan_add_def)
  show ?thesis
    by (simp add: aggregate_county_losses_def aggregate_scenario_def Let_def read_losses_def
        read_file_def to_csv_def path_exists_def isdir_def example_paths example_dir_key
        example_fs_losses_def example_fs_def then_do_def ev)
qed

theorem stages_idempotent_witness:
  "characterize_buildings plain_library example_fs_checkpoint (NsiPath ''nsi.csv'') ''hazus''
      ''inventory'' False 7 = Inr (example_inventory, example_fs_checkpoint, [CheckpointLoaded 1])
   \<and> calculate_building_losses
        (example_fs\<lparr>files := (files example_fs)
                       (''results/ida_2021/Losses.csv'' \<mapsto> LossesCsv [scenario_loss]),
                    dirs := dirs example_fs \<union> {''results/ida_2021'', ''results''}\<rparr>)
        [scenario_row] [(''ida_2021'', ''joined/ida_2021.csv'')] ''hazus'' ''results'' False
      = Inr ([(''ida_2021'', ''results/ida_2021/Losses.csv'')],
             example_fs\<lparr>files := (files example_fs)
                           (''results/ida_2021/Losses.csv'' \<mapsto> LossesCsv [scenario_loss]),
                         dirs := dirs example_fs \<union> {''results/ida_2021'', ''results''}\<rparr>,
             [OutputExists ''results/ida_2021/Losses.csv''])
   \<and> aggregate_county_losses (+) cell_text
        (example_fs_losses\<lparr>files := (files example_fs_losses)(''results/TotalLoss.csv'' \<mapsto>
           TotalLossCsv [(''ida_2021'', Some 111, Some 71, Some 182)])\<rparr>)
        [(''ida_2021'', ''results/ida_2021/Losses.csv'')] ''results'' False
      = Inr (''results/TotalLoss.csv'',
             example_fs_losses\<lparr>files := (files example_fs_losses)(''results/TotalLoss.csv'' \<mapsto>
               TotalLossCsv [(''ida_2021'', Some 111, Some 71, Some 182)])\<rparr>)"
proof -
  note again = stages_idempotent
    [where lib = plain_library and fs = example_fs_checkpoint and nsi_data = "NsiPath ''nsi.csv''"
       and hazus_dir = "''hazus''" and output_dir = "''inventory''" and force_rerun = False
       and g = 0 and g' = 7 and data = example_inventory and fs_after = example_fs_checkpoint
       and lg = "[CheckpointLoaded 1]"
       and fs_c = example_fs and bi = "[scenario_row]"
       and paths = "[(''ida_2021'', ''joined/ida_2021.csv'')]" and hz = "''hazus''"
       and out = "''results''" and force_c = False
       and lf = "[(''ida_2021'', ''results/ida_2021/Losses.csv'')]"
       and fs_c_after = "example_fs\<lparr>files := (files example_fs)
                           (''results/ida_2021/Losses.csv'' \<mapsto> LossesCsv [scenario_loss]),
                         dirs := dirs example_fs \<union> {''results/ida_2021'', ''results''}\<rparr>"
       and lg_c = "[JoinedLoaded 1, ProcessedTotal 1, LossStatistics 50000 10000 60000,
            SavingLosses ''results/ida_2021/Losses.csv'']"
       and add = "(+)" and a = cell_text and fs_a = example_fs_losses
       and lpaths = "[(''ida_2021'', ''results/ida_2021/Losses.csv'')]"
       and out_a = "''results''" and force_a = False and p = "''results/TotalLoss.csv''"
       and fs_a_after = "example_fs_losses\<lparr>files := (files example_fs_losses)
               (''results/TotalLoss.csv'' \<mapsto>
                 TotalLossCsv [(''ida_2021'', Some 111, Some 71, Some 182)])\<rparr>"]
  have n: "length example_inventory = 1" by (simp add: example_inventory_def)
  from again example_characterize_first [of plain_library 0] example_calculate_first
    example_aggregate_first
  show ?thesis by (simp add: n example_paths)
qed

subsection \<open>Skipped buildings\<close>

lemma for_each_append:
  "for_each body (xs @ ys) s = then_do (for_each body xs s) (for_each body ys)"
  by (induction xs arbitrary: s) (auto simp: then_do_def split: sum.splits)

lemma for_each_skip:
  assumes "\<And>s. body x s = Inr s"
  shows "for_each body (pre @ x # post) s = for_each body (pre @ post) s"
  by (cases "for_each body pre s") (simp_all add: for_each_append assms then_do_def)

lemma building_loss_row_skipped:
  assumes "iloc (dropna row) 1 = Inr fdid" "iloc (dropna row) 3 = Inr cbfip"
    and "then_do (iloc (dropna row) (- 2)) py_int_cell = Inr wb"
    and "then_do (iloc (dropna row) (- 1)) py_int_cell = Inr terrain"
    and "filter (\<lambda>w. cell_eq (fd_id_j w) fdid) nsi_wrf = []
         \<or> dam_rows (loss_func t wb terrain BUILDING_DAMAGE_ID) = []
         \<or> dam_rows (loss_func t wb terrain CONTENTS_DAMAGE_ID) = []"
  shows "building_loss_row t nsi_wrf row = Inr None"
proof -
  have "curve_losses t (dropna row) fdid cbfip wb terrain ws = Inr None"
    if "dam_rows (loss_func t wb terrain BUILDING_DAMAGE_ID) = []
         \<or> dam_rows (loss_func t wb terrain CONTENTS_DAMAGE_ID) = []" for ws
    using that by (auto simp: curve_losses_def Let_def)
  with assms(5) have "(case filter (\<lambda>w. cell_eq (fd_id_j w) fdid) nsi_wrf of
          [] \<Rightarrow> Inr None
        | w # _ \<Rightarrow> curve_losses t (dropna row) fdid cbfip wb terrain (Gust_Wind_Speed w))
      = Inr None"
    by (auto split: list.splits)
  with assms(1-4) show ?thesis
    unfolding building_loss_row_def Let_def
    by (simp add: then_do_def split: sum.splits)
qed

lemma loss_step_skipped:
  "building_loss_row t nsi_wrf row = Inr None \<Longrightarrow> loss_step t nsi_wrf row st = Inr st"
  by (cases st) (simp add: loss_step_def then_do_def)

lemma county_step_core:
  "map_sum id (\<lambda>s. (building_list s, rng s)) (county_step lib tables nsi_cb n cfip st)
     = county_core lib tables nsi_cb cfip (building_list st, rng st)"
  by (auto simp: county_step_def county_core_def Let_def then_do_def
      split: option.splits sum.splits)

lemma county_loop_core:
  "map_sum id (\<lambda>s. (building_list s, rng s)) (for_each (county_step lib tables nsi_cb n) cfips st)
     = for_each (county_core lib tables nsi_cb) cfips (building_list st, rng st)"
proof (induction cfips arbitrary: st)
  case Nil
  show ?case by simp
next
  case (Cons c cfips)
  have core: "county_core lib tables nsi_cb c (building_list st, rng st)
      = map_sum id (\<lambda>s. (building_list s, rng s)) (county_step lib tables nsi_cb n c st)"
    by (rule county_step_core [symmetric])
  show ?case
  proof (cases "county_step lib tables nsi_cb n c st")
    case (Inl e)
    then show ?thesis
      by (simp add: core then_do_def)
  next
    case (Inr st')
    then show ?thesis
      using Cons.IH [of st'] by (simp add: core then_do_def)
  qed
qed

lemma county_without_scheme:
  assumes "scheme_of_county tables cfip = None"
  shows "county_step lib tables nsi_cb n cfip st =
           Inr (st\<lparr>log := (if (county_count st + 1) mod 10 = 0
                            then log st @ [CountyProgress (county_count st + 1) n]
                            else log st) @ [NoMappingScheme cfip],
                   county_count := county_count st + 1\<rparr>)"
    and "map_sum id (\<lambda>s. (building_list s, rng s))
           (for_each (county_step lib tables nsi_cb n) (pre @ cfip # post) st)
         = map_sum id (\<lambda>s. (building_list s, rng s))
           (for_each (county_step lib tables nsi_cb m) (pre @ post) st)"
proof -
  show "county_step lib tables nsi_cb n cfip st =
           Inr (st\<lparr>log := (if (county_count st + 1) mod 10 = 0
                            then log st @ [CountyProgress (county_count st + 1) n]
                            else log st) @ [NoMappingScheme cfip],
                   county_count := county_count st + 1\<rparr>)"
    using assms by (simp add: county_step_def Let_def)
  have "county_core lib tables nsi_cb cfip s = Inr s" for s
    using assms by (simp add: county_core_def)
  then show "map_sum id (\<lambda>s. (building_list s, rng s))
           (for_each (county_step lib tables nsi_cb n) (pre @ cfip # post) st)
         = map_sum id (\<lambda>s. (building_list s, rng s))
           (for_each (county_step lib tables nsi_cb m) (pre @ post) st)"
    by (simp add: county_loop_core for_each_skip)
qed

lemma occupancy_without_entry:
  assumes "filter (\<lambda>oc. Occupancy oc
             = (if CHR ''-'' \<in> set occ then takeWhile (\<lambda>c. c \<noteq> CHR ''-'') occ else occ))
             huOccMap = []"
  shows "characterize_occ lib tables scheme huOccMap dfo occ st = Inr st"
  using assms by (simp add: characterize_occ_def Let_def)

lemma checkpoint_not_output:
  "path_join d BUILDING_INVENTORY_CHECKPOINT \<noteq> losses_path output_dir scenario"
proof
  assume eq: "path_join d BUILDING_INVENTORY_CHECKPOINT = losses_path output_dir scenario"
  obtain c where c: "path_join d BUILDING_INVENTORY_CHECKPOINT = c @ BUILDING_INVENTORY_CHECKPOINT"
    using path_join_suffix by blast
  obtain e where e: "losses_path output_dir scenario = e @ BUILDING_LOSSES_PATTERN"
    using losses_path_plain by blast
  from eq c e have "take 5 (rev (c @ BUILDING_INVENTORY_CHECKPOINT))
      = take 5 (rev (e @ BUILDING_LOSSES_PATTERN))"
    by simp
  then show False
    by (simp add: BUILDING_INVENTORY_CHECKPOINT_def BUILDING_LOSSES_PATTERN_def)
qed

lemma calculate_keeps_checkpoint:
  assumes "calculate_building_losses fs bi paths hz out force = Inr (lf, fs', lg)"
    and "read_inventory fs (path_join d BUILDING_INVENTORY_CHECKPOINT) = Inr inventory"
  shows "read_inventory fs' (path_join d BUILDING_INVENTORY_CHECKPOINT) = Inr inventory"
proof -
  from assms(1) obtain t where
    loop: "for_each (calculate_scenario t bi out force) paths ([], fs, []) = Inr (lf, fs', lg)"
    by (auto simp: calculate_building_losses_def Let_def then_do_Inr split: if_splits)
  from assms(2) obtain c where c: "read_file fs (path_join d BUILDING_INVENTORY_CHECKPOINT) = Inr c"
    and i: "(case c of InventoryCsv t \<Rightarrow> Inr t | _ \<Rightarrow> Inl ReadError) = Inr inventory"
    by (auto simp: read_inventory_def then_do_Inr)
  have "read_file fs' (path_join d BUILDING_INVENTORY_CHECKPOINT) = Inr c"
    using loop c by (rule calculate_keeps_file)
      (simp_all add: BUILDING_INVENTORY_CHECKPOINT_def
         checkpoint_not_output [unfolded BUILDING_INVENTORY_CHECKPOINT_def])
  with i show ?thesis by (simp add: read_inventory_def then_do_def)
qed

text \<open>A joined row with an empty wind speed is not a skip: with both curves in the
  table, the row is either emitted, with an empty wind speed, or an exception.\<close>

lemma building_loss_row_nan:
  assumes "iloc (dropna row) 1 = Inr fdid" "iloc (dropna row) 3 = Inr cbfip"
    and "then_do (iloc (dropna row) (- 2)) py_int_cell = Inr wb"
    and "then_do (iloc (dropna row) (- 1)) py_int_cell = Inr terrain"
    and "filter (\<lambda>w. cell_eq (fd_id_j w) fdid) nsi_wrf = w # ws"
    and "Gust_Wind_Speed w = None"
    and "dam_rows (loss_func t wb terrain BUILDING_DAMAGE_ID) \<noteq> []"
    and "dam_rows (loss_func t wb terrain CONTENTS_DAMAGE_ID) \<noteq> []"
    and "building_loss_row t nsi_wrf row = Inr r"
  shows "\<exists>l. r = Some l \<and> Wind_Speed l = None"
proof -
  from assms(1-6,9) have "curve_losses t (dropna row) fdid cbfip wb terrain None = Inr r"
    unfolding building_loss_row_def Let_def by (simp add: then_do_def)
  with assms(7,8) show ?thesis
    unfolding curve_losses_def Let_def by (auto simp: then_do_Inr)
qed

text \<open>
  C8, as the code has it. (1) A building whose row reads well and that has no row in
  the joined table, or no structural or no contents curve, adds no loss record and
  raises nothing, and the loop over the inventory (its records, its counter and its
  log) runs as if the building were not there: the skip is neither counted nor logged.
  (2) A county without scheme adds no row, is logged by one warning and counted as a
  county, and the rows and the generator after the loop are those of the loop without
  that county. (3) An occupancy without entry in the scheme leaves the rows and the
  generator as they are, with no log, and the loop over the occupancies runs as without
  it. (4) When the loss calculator has run on the rows of the checkpoint (whatever the
  column layout of the frame), a building of the checkpoint whose curve is missing from
  the damage function table of the run gives no loss record in any scenario, and the
  checkpoint read after the run has the rows it had before, this building with its
  vulnerability type and terrain class among them. (5) A building whose row in the
  joined table has an empty wind speed is not skipped: with both curves in the table,
  a row that raises nothing is emitted, with an empty wind speed.
\<close>

theorem skips_are_silent:
  "(iloc (dropna row) 1 = Inr fdid \<and> iloc (dropna row) 3 = Inr cbfip
      \<and> then_do (iloc (dropna row) (- 2)) py_int_cell = Inr wb
      \<and> then_do (iloc (dropna row) (- 1)) py_int_cell = Inr terrain
      \<and> (filter (\<lambda>w. cell_eq (fd_id_j w) fdid) nsi_wrf = []
         \<or> dam_rows (loss_func t wb terrain BUILDING_DAMAGE_ID) = []
         \<or> dam_rows (loss_func t wb terrain CONTENTS_DAMAGE_ID) = [])
     \<longrightarrow> building_loss_row t nsi_wrf row = Inr None
       \<and> for_each (loss_step t nsi_wrf) (rs @ row # rs') st
           = for_each (loss_step t nsi_wrf) (rs @ rs') st)
   \<and> (scheme_of_county tables cfip = None
     \<longrightarrow> county_step lib tables nsi_cb n cfip cst =
           Inr (cst\<lparr>log := (if (county_count cst + 1) mod 10 = 0
                             then log cst @ [CountyProgress (county_count cst + 1) n]
                             else log cst) @ [NoMappingScheme cfip],
                    county_count := county_count cst + 1\<rparr>)
       \<and> map_sum id (\<lambda>s. (building_list s, rng s))
           (for_each (county_step lib tables nsi_cb n) (cs @ cfip # cs') cst)
         = map_sum id (\<lambda>s. (building_list s, rng s))
           (for_each (county_step lib tables nsi_cb m) (cs @ cs') cst))
   \<and> (filter (\<lambda>oc. Occupancy oc
             = (if CHR ''-'' \<in> set occ then takeWhile (\<lambda>c. c \<noteq> CHR ''-'') occ else occ))
             huOccMap = []
     \<longrightarrow> characterize_occ lib' tables' scheme huOccMap dfo occ ost = Inr ost
       \<and> for_each (characterize_occ lib' tables' scheme huOccMap dfo) (os @ occ # os') ost
           = for_each (characterize_occ lib' tables' scheme huOccMap dfo) (os @ os') ost)
   \<and> (read_inventory fs (path_join d BUILDING_INVENTORY_CHECKPOINT) = Inr inventory \<and> e \<in> set inventory
      \<and> read_damage fs (path_join hz HAZUS_damage_functions) = Inr tc
      \<and> iloc (dropna (layout e)) 1 = Inr fdid_e \<and> iloc (dropna (layout e)) 3 = Inr cbfip_e
      \<and> then_do (iloc (dropna (layout e)) (- 2)) py_int_cell = Inr wb_e
      \<and> then_do (iloc (dropna (layout e)) (- 1)) py_int_cell = Inr terrain_e
      \<and> (dam_rows (loss_func tc wb_e terrain_e BUILDING_DAMAGE_ID) = []
         \<or> dam_rows (loss_func tc wb_e terrain_e CONTENTS_DAMAGE_ID) = [])
      \<and> calculate_building_losses fs (map layout inventory) paths hz out force
          = Inr (lf, fs_after, lg)
     \<longrightarrow> (\<forall>wrf. building_loss_row tc wrf (layout e) = Inr None)
       \<and> read_inventory fs_after (path_join d BUILDING_INVENTORY_CHECKPOINT) = Inr inventory)
   \<and> (iloc (dropna row_n) 1 = Inr fdid_n \<and> iloc (dropna row_n) 3 = Inr cbfip_n
      \<and> then_do (iloc (dropna row_n) (- 2)) py_int_cell = Inr wb_n
      \<and> then_do (iloc (dropna row_n) (- 1)) py_int_cell = Inr terrain_n
      \<and> filter (\<lambda>w. cell_eq (fd_id_j w) fdid_n) wrf_n = w_n # ws_n
      \<and> Gust_Wind_Speed w_n = None
      \<and> dam_rows (loss_func t_n wb_n terrain_n BUILDING_DAMAGE_ID) \<noteq> []
      \<and> dam_rows (loss_func t_n wb_n terrain_n CONTENTS_DAMAGE_ID) \<noteq> []
      \<and> building_loss_row t_n wrf_n row_n = Inr r_n
     \<longrightarrow> (\<exists>l. r_n = Some l \<and> Wind_Speed l = None))"
proof (intro conjI impI)
  assume h: "iloc (dropna row) 1 = Inr fdid \<and> iloc (dropna row) 3 = Inr cbfip
      \<and> then_do (iloc (dropna row) (- 2)) py_int_cell = Inr wb
      \<and> then_do (iloc (dropna row) (- 1)) py_int_cell = Inr terrain
      \<and> (filter (\<lambda>w. cell_eq (fd_id_j w) fdid) nsi_wrf = []
         \<or> dam_rows (loss_func t wb terrain BUILDING_DAMAGE_ID) = []
         \<or> dam_rows (loss_func t wb terrain CONTENTS_DAMAGE_ID) = [])"
  then show none: "building_loss_row t nsi_wrf row = Inr None"
    by (intro building_loss_row_skipped [of row fdid cbfip wb terrain]) simp_all
  show "for_each (loss_step t nsi_wrf) (rs @ row # rs') st
           = for_each (loss_step t nsi_wrf) (rs @ rs') st"
    by (rule for_each_skip) (rule loss_step_skipped [OF none])
next
  assume h: "scheme_of_county tables cfip = None"
  show "county_step lib tables nsi_cb n cfip cst =
           Inr (cst\<lparr>log := (if (county_count cst + 1) mod 10 = 0
                             then log cst @ [CountyProgress (county_count cst + 1) n]
                             else log cst) @ [NoMappingScheme cfip],
                    county_count := county_count cst + 1\<rparr>)"
    by (rule county_without_scheme(1) [OF h])
  show "map_sum id (\<lambda>s. (building_list s, rng s))
           (for_each (county_step lib tables nsi_cb n) (cs @ cfip # cs') cst)
         = map_sum id (\<lambda>s. (building_list s, rng s))
           (for_each (county_step lib tables nsi_cb m) (cs @ cs') cst)"
    by (rule county_without_scheme(2) [OF h])
next
  assume h: "filter (\<lambda>oc. Occupancy oc
             = (if CHR ''-'' \<in> set occ then takeWhile (\<lambda>c. c \<noteq> CHR ''-'') occ else occ))
             huOccMap = []"
  show "characterize_occ lib' tables' scheme huOccMap dfo occ ost = Inr ost"
    by (rule occupancy_without_entry [OF h])
  show "for_each (characterize_occ lib' tables' scheme huOccMap dfo) (os @ occ # os') ost
           = for_each (characterize_occ lib' tables' scheme huOccMap dfo) (os @ os') ost"
    by (rule for_each_skip) (rule occupancy_without_entry [OF h])
next
  assume h: "read_inventory fs (path_join d BUILDING_INVENTORY_CHECKPOINT) = Inr inventory \<and> e \<in> set inventory
      \<and> read_damage fs (path_join hz HAZUS_damage_functions) = Inr tc
      \<and> iloc (dropna (layout e)) 1 = Inr fdid_e \<and> iloc (dropna (layout e)) 3 = Inr cbfip_e
      \<and> then_do (iloc (dropna (layout e)) (- 2)) py_int_cell = Inr wb_e
      \<and> then_do (iloc (dropna (layout e)) (- 1)) py_int_cell = Inr terrain_e
      \<and> (dam_rows (loss_func tc wb_e terrain_e BUILDING_DAMAGE_ID) = []
         \<or> dam_rows (loss_func tc wb_e terrain_e CONTENTS_DAMAGE_ID) = [])
      \<and> calculate_building_losses fs (map layout inventory) paths hz out force
          = Inr (lf, fs_after, lg)"
  show "\<forall>wrf. building_loss_row tc wrf (layout e) = Inr None"
  proof
    fix wrf
    from h show "building_loss_row tc wrf (layout e) = Inr None"
      by (intro building_loss_row_skipped [of "layout e" fdid_e cbfip_e wb_e terrain_e])
         simp_all
  qed
  from h have "calculate_building_losses fs (map layout inventory) paths hz out force
          = Inr (lf, fs_after, lg)"
    and "read_inventory fs (path_join d BUILDING_INVENTORY_CHECKPOINT) = Inr inventory"
    by simp_all
  then show "read_inventory fs_after (path_join d BUILDING_INVENTORY_CHECKPOINT) = Inr inventory"
    by (rule calculate_keeps_checkpoint)
next
  assume h: "iloc (dropna row_n) 1 = Inr fdid_n \<and> iloc (dropna row_n) 3 = Inr cbfip_n
      \<and> then_do (iloc (dropna row_n) (- 2)) py_int_cell = Inr wb_n
      \<and> then_do (iloc (dropna row_n) (- 1)) py_int_cell = Inr terrain_n
      \<and> filter (\<lambda>w. cell_eq (fd_id_j w) fdid_n) wrf_n = w_n # ws_n
      \<and> Gust_Wind_Speed w_n = None
      \<and> dam_rows (loss_func t_n wb_n terrain_n BUILDING_DAMAGE_ID) \<noteq> []
      \<and> dam_rows (loss_func t_n wb_n terrain_n CONTENTS_DAMAGE_ID) \<noteq> []
      \<and> building_loss_row t_n wrf_n row_n = Inr r_n"
  then show "\<exists>l. r_n = Some l \<and> Wind_Speed l = None"
    by (intro building_loss_row_nan [of row_n fdid_n cbfip_n wb_n terrain_n wrf_n w_n ws_n t_n])
       simp_all
qed

lemma listed_row_reads:
  "iloc (dropna (example_layout (listed_building i wb))) 1 = Inr (CInt i)"
  "iloc (dropna (example_layout (listed_building i wb))) 3 = Inr (CStr ''220710001001000'')"
  "then_do (iloc (dropna (example_layout (listed_building i wb))) (- 2)) py_int_cell = Inr wb"
  "then_do (iloc (dropna (example_layout (listed_building i wb))) (- 1)) py_int_cell = Inr 3"
  by (simp_all add: example_layout_def listed_building_def dropna_def List.map_filter_def
      iloc_def then_do_def)

lemma scenario_row_reads:
  "iloc (dropna scenario_row) 1 = Inr (CInt 7)"
  "iloc (dropna scenario_row) 3 = Inr (CInt 220710001001000)"
  "then_do (iloc (dropna scenario_row) (- 2)) py_int_cell = Inr 12"
  "then_do (iloc (dropna scenario_row) (- 1)) py_int_cell = Inr 3"
  by (simp_all add: scenario_row_def dropna_def List.map_filter_def iloc_def then_do_def)

lemma scenario_curve_rows:
  "dam_rows (loss_func scenario_curves 13 3 BUILDING_DAMAGE_ID) = []"
  "dam_rows (loss_func scenario_curves 12 3 BUILDING_DAMAGE_ID) \<noteq> []"
  "dam_rows (loss_func scenario_curves 12 3 CONTENTS_DAMAGE_ID) \<noteq> []"
  by (simp_all add: loss_func_def scenario_curves_def BUILDING_DAMAGE_ID_def
      CONTENTS_DAMAGE_ID_def)

lemma listed_row_emits:
  "building_loss_row scenario_curves listed_wind (example_layout (listed_building 7 12))
     = Inr (Some listed_loss)"
  by (simp add: building_loss_row_def curve_losses_def scenario_curves_def listed_wind_def
      example_layout_def listed_building_def listed_loss_def dropna_def List.map_filter_def
      iloc_def then_do_def loss_func_def flat_values_def column_speeds_def py_int_def
      strip_def is_space_def is_digit_def digit_val_def np_interp_def interp_real_def
      BUILDING_DAMAGE_ID_def CONTENTS_DAMAGE_ID_def)

lemma listed_row_dropped:
  "building_loss_row scenario_curves wrf (example_layout (listed_building 8 13)) = Inr None"
  by (rule building_loss_row_skipped [OF listed_row_reads]) (simp add: scenario_curve_rows)

lemma calm_row_emits:
  "building_loss_row scenario_curves calm_wind scenario_row
     = Inr (Some \<lparr>fd_id = CInt 7, countyFIPS = CInt 220710001001000, wbID = 12, terrainID = 3,
                  Wind_Speed = None, Building_Loss = None, Contents_Loss = None\<rparr>)"
  by (simp add: building_loss_row_def curve_losses_def scenario_curves_def calm_wind_def
      scenario_row_def dropna_def List.map_filter_def iloc_def then_do_def
      loss_func_def flat_values_def column_speeds_def py_int_def strip_def is_space_def
      is_digit_def digit_val_def np_interp_def BUILDING_DAMAGE_ID_def CONTENTS_DAMAGE_ID_def)

lemma listed_reads:
  "read_inventory listed_fs ''inventory/nsi_wbId_sr.csv'' = Inr listed_inventory"
  "read_damage listed_fs ''hazus/huDamLossFunc.csv'' = Inr scenario_curves"
  by (simp_all add: read_inventory_def read_damage_def read_file_def isdir_def example_dir_key
      then_do_def listed_fs_def)

lemma listed_calculate:
  "calculate_building_losses listed_fs (map example_layout listed_inventory)
      [(''ida_2021'', ''joined/ida_2021.csv'')] ''hazus'' ''results'' False
    = Inr ([(''ida_2021'', ''results/ida_2021/Losses.csv'')],
           listed_fs\<lparr>files := (files listed_fs)
                        (''results/ida_2021/Losses.csv'' \<mapsto> LossesCsv [listed_loss]),
                     dirs := dirs listed_fs \<union> {''results/ida_2021'', ''results''}\<rparr>,
           [JoinedLoaded 2, ProcessedTotal 1, LossStatistics 50000 10000 60000,
            SavingLosses ''results/ida_2021/Losses.csv''])"
proof -
  have n: "length listed_wind = 2" by (simp add: listed_wind_def)
  have s: "Building_Loss listed_loss = Some 50000" "Contents_Loss listed_loss = Some 10000"
    by (simp_all add: listed_loss_def)
  have j: "read_joined listed_fs ''joined/ida_2021.csv'' = Inr listed_wind"
    by (simp add: read_joined_def read_file_def isdir_def example_dir_key then_do_def
        listed_fs_def)
  have l: "scenario_losses scenario_curves (map example_layout listed_inventory) listed_wind
      = Inr ([listed_loss],
             [JoinedLoaded 2, ProcessedTotal 1, LossStatistics 50000 10000 60000])"
    by (simp add: scenario_losses_def loss_step_def then_do_def listed_inventory_def
        listed_row_dropped listed_row_emits n s List.map_filter_def)
  define fs_dirs where
    "fs_dirs = listed_fs\<lparr>dirs := dirs listed_fs \<union> {''results/ida_2021'', ''results''}\<rparr>"
  define fs_written where
    "fs_written = listed_fs\<lparr>files := (files listed_fs)
                        (''results/ida_2021/Losses.csv'' \<mapsto> LossesCsv [listed_loss]),
                     dirs := dirs listed_fs \<union> {''results/ida_2021'', ''results''}\<rparr>"
  have m: "makedirs listed_fs ''results/ida_2021'' = Inr fs_dirs"
    by (simp add: makedirs_def example_dir_keys listed_fs_def fs_dirs_def)
  have e: "\<not> path_exists fs_dirs ''results/ida_2021/Losses.csv''"
    by (simp add: path_exists_def isdir_def example_dir_key listed_fs_def fs_dirs_def)
  have j': "read_joined fs_dirs ''joined/ida_2021.csv'' = Inr listed_wind"
    by (simp add: read_joined_def read_file_def isdir_def example_dir_key then_do_def
        listed_fs_def fs_dirs_def)
  have w: "to_csv fs_dirs ''results/ida_2021'' BUILDING_LOSSES_PATTERN (LossesCsv [listed_loss])
      = Inr fs_written"
    by (simp add: to_csv_def isdir_def example_dir_key example_paths listed_fs_def
        fs_dirs_def fs_written_def)
  have x: "path_exists listed_fs ''hazus/huDamLossFunc.csv''"
    by (simp add: path_exists_def listed_fs_def)
  have "calculate_building_losses listed_fs (map example_layout listed_inventory)
      [(''ida_2021'', ''joined/ida_2021.csv'')] ''hazus'' ''results'' False
    = Inr ([(''ida_2021'', ''results/ida_2021/Losses.csv'')], fs_written,
           [JoinedLoaded 2, ProcessedTotal 1, LossStatistics 50000 10000 60000,
            SavingLosses ''results/ida_2021/Losses.csv''])"
    by (simp add: calculate_building_losses_def calculate_scenario_def Let_def example_paths
        x listed_reads m e j' l w then_do_def)
  then show ?thesis unfolding fs_written_def .
qed

theorem skips_are_silent_witness:
  "(building_loss_row scenario_curves listed_wind (example_layout (listed_building 8 13))
      = Inr None
    \<and> for_each (loss_step scenario_curves listed_wind)
          [example_layout (listed_building 8 13), example_layout (listed_building 7 12)]
          ([], 0, [])
        = for_each (loss_step scenario_curves listed_wind)
          [example_layout (listed_building 7 12)] ([], 0, []))
   \<and> (county_step plain_library example_hazus example_nsi 2 ''22051''
          \<lparr>building_list = [], rng = 0, log = [], county_count = 0\<rparr>
        = Inr \<lparr>building_list = [], rng = 0, log = [NoMappingScheme ''22051''],
               county_count = 1\<rparr>
      \<and> map_sum id (\<lambda>s. (building_list s, rng s))
           (for_each (county_step plain_library example_hazus example_nsi 2)
              [''22051'', ''22071'']
              \<lparr>building_list = [], rng = 0, log = [], county_count = 0\<rparr>)
        = map_sum id (\<lambda>s. (building_list s, rng s))
           (for_each (county_step plain_library example_hazus example_nsi 1) [''22071'']
              \<lparr>building_list = [], rng = 0, log = [], county_count = 0\<rparr>))
   \<and> (characterize_occ plain_library example_hazus ''LA1''
          (occ_rows (huGbsOccMapping example_hazus)) example_nsi ''COM1'' ([], 0)
        = Inr ([], 0)
      \<and> for_each (characterize_occ plain_library example_hazus ''LA1''
            (occ_rows (huGbsOccMapping example_hazus)) example_nsi) [''COM1'', ''RES1''] ([], 0)
        = for_each (characterize_occ plain_library example_hazus ''LA1''
            (occ_rows (huGbsOccMapping example_hazus)) example_nsi) [''RES1''] ([], 0))
   \<and> (listed_building 8 13 \<in> set listed_inventory
      \<and> building_loss_row scenario_curves calm_wind (example_layout (listed_building 8 13))
          = Inr None
      \<and> read_inventory
          (listed_fs\<lparr>files := (files listed_fs)
                        (''results/ida_2021/Losses.csv'' \<mapsto> LossesCsv [listed_loss]),
                     dirs := dirs listed_fs \<union> {''results/ida_2021'', ''results''}\<rparr>)
          ''inventory/nsi_wbId_sr.csv'' = Inr listed_inventory
      \<and> wbID_e (listed_building 8 13) = Some 13 \<and> terrainID_e (listed_building 8 13) = 3)
   \<and> (\<exists>l. building_loss_row scenario_curves calm_wind scenario_row = Inr (Some l)
          \<and> Wind_Speed l = None)"
proof -
  note silent = skips_are_silent
    [where row = "example_layout (listed_building 8 13)" and fdid = "CInt 8"
       and cbfip = "CStr ''220710001001000''"
       and wb = 13 and terrain = 3 and nsi_wrf = listed_wind and t = scenario_curves
       and rs = "[]" and rs' = "[example_layout (listed_building 7 12)]" and st = "([], 0, [])"
       and tables = example_hazus and cfip = "''22051''" and lib = plain_library
       and nsi_cb = example_nsi and n = 2 and m = 1
       and cst = "\<lparr>building_list = [], rng = 0, log = [], county_count = 0\<rparr>"
       and cs = "[]" and cs' = "[''22071'']"
       and occ = "''COM1''" and huOccMap = "occ_rows (huGbsOccMapping example_hazus)"
       and lib' = plain_library and tables' = example_hazus and scheme = "''LA1''"
       and dfo = example_nsi and ost = "([], 0)" and os = "[]" and os' = "[''RES1'']"
       and fs = listed_fs and d = "''inventory''" and inventory = listed_inventory
       and e = "listed_building 8 13" and tc = scenario_curves and layout = example_layout
       and fdid_e = "CInt 8" and cbfip_e = "CStr ''220710001001000''" and wb_e = 13
       and terrain_e = 3
       and paths = "[(''ida_2021'', ''joined/ida_2021.csv'')]" and hz = "''hazus''"
       and out = "''results''" and force = False
       and lf = "[(''ida_2021'', ''results/ida_2021/Losses.csv'')]"
       and fs_after = "listed_fs\<lparr>files := (files listed_fs)
                        (''results/ida_2021/Losses.csv'' \<mapsto> LossesCsv [listed_loss]),
                     dirs := dirs listed_fs \<union> {''results/ida_2021'', ''results''}\<rparr>"
       and lg = "[JoinedLoaded 2, ProcessedTotal 1, LossStatistics 50000 10000 60000,
            SavingLosses ''results/ida_2021/Losses.csv'']"
       and row_n = scenario_row and fdid_n = "CInt 7" and cbfip_n = "CInt 220710001001000"
       and wb_n = 12 and terrain_n = 3 and wrf_n = calm_wind
       and w_n = "\<lparr>fd_id_j = CInt 7, Gust_Wind_Speed = None\<rparr>" and ws_n = "[]"
       and t_n = scenario_curves
       and r_n = "Some \<lparr>fd_id = CInt 7, countyFIPS = CInt 220710001001000, wbID = 12,
                         terrainID = 3, Wind_Speed = None, Building_Loss = None,
                         Contents_Loss = None\<rparr>"]
  have h1: "iloc (dropna (example_layout (listed_building 8 13))) 1 = Inr (CInt 8)
      \<and> iloc (dropna (example_layout (listed_building 8 13))) 3 = Inr (CStr ''220710001001000'')
      \<and> then_do (iloc (dropna (example_layout (listed_building 8 13))) (- 2)) py_int_cell = Inr 13
      \<and> then_do (iloc (dropna (example_layout (listed_building 8 13))) (- 1)) py_int_cell = Inr 3
      \<and> (filter (\<lambda>w. cell_eq (fd_id_j w) (CInt 8)) listed_wind = []
         \<or> dam_rows (loss_func scenario_curves 13 3 BUILDING_DAMAGE_ID) = []
         \<or> dam_rows (loss_func scenario_curves 13 3 CONTENTS_DAMAGE_ID) = [])"
    using listed_row_reads [of 8 13] scenario_curve_rows(1) by simp
  have h2: "scheme_of_county example_hazus ''22051'' = None"
    by code_simp
  have h3: "filter (\<lambda>oc. Occupancy oc
             = (if CHR ''-'' \<in> set ''COM1'' then takeWhile (\<lambda>c. c \<noteq> CHR ''-'') ''COM1''
                else ''COM1''))
             (occ_rows (huGbsOccMapping example_hazus)) = []"
    by code_simp
  have member: "listed_building 8 13 \<in> set listed_inventory"
    by (simp add: listed_inventory_def)
  have h4: "read_inventory listed_fs (path_join ''inventory'' BUILDING_INVENTORY_CHECKPOINT)
        = Inr listed_inventory
      \<and> listed_building 8 13 \<in> set listed_inventory
      \<and> read_damage listed_fs (path_join ''hazus'' HAZUS_damage_functions) = Inr scenario_curves
      \<and> iloc (dropna (example_layout (listed_building 8 13))) 1 = Inr (CInt 8)
      \<and> iloc (dropna (example_layout (listed_building 8 13))) 3 = Inr (CStr ''220710001001000'')
      \<and> then_do (iloc (dropna (example_layout (listed_building 8 13))) (- 2)) py_int_cell = Inr 13
      \<and> then_do (iloc (dropna (example_layout (listed_building 8 13))) (- 1)) py_int_cell = Inr 3
      \<and> (dam_rows (loss_func scenario_curves 13 3 BUILDING_DAMAGE_ID) = []
         \<or> dam_rows (loss_func scenario_curves 13 3 CONTENTS_DAMAGE_ID) = [])
      \<and> calculate_building_losses listed_fs (map example_layout listed_inventory)
          [(''ida_2021'', ''joined/ida_2021.csv'')] ''hazus'' ''results'' False
          = Inr ([(''ida_2021'', ''results/ida_2021/Losses.csv'')],
                 listed_fs\<lparr>files := (files listed_fs)
                        (''results/ida_2021/Losses.csv'' \<mapsto> LossesCsv [listed_loss]),
                     dirs := dirs listed_fs \<union> {''results/ida_2021'', ''results''}\<rparr>,
                 [JoinedLoaded 2, ProcessedTotal 1, LossStatistics 50000 10000 60000,
                  SavingLosses ''results/ida_2021/Losses.csv''])"
    using listed_row_reads [of 8 13] scenario_curve_rows(1) listed_reads listed_calculate member
    by (simp add: example_paths)
  have h5: "iloc (dropna scenario_row) 1 = Inr (CInt 7)
      \<and> iloc (dropna scenario_row) 3 = Inr (CInt 220710001001000)
      \<and> then_do (iloc (dropna scenario_row) (- 2)) py_int_cell = Inr 12
      \<and> then_do (iloc (dropna scenario_row) (- 1)) py_int_cell = Inr 3
      \<and> filter (\<lambda>w. cell_eq (fd_id_j w) (CInt 7)) calm_wind
          = \<lparr>fd_id_j = CInt 7, Gust_Wind_Speed = None\<rparr> # []
      \<and> Gust_Wind_Speed \<lparr>fd_id_j = CInt 7, Gust_Wind_Speed = None\<rparr> = None
      \<and> dam_rows (loss_func scenario_curves 12 3 BUILDING_DAMAGE_ID) \<noteq> []
      \<and> dam_rows (loss_func scenario_curves 12 3 CONTENTS_DAMAGE_ID) \<noteq> []
      \<and> building_loss_row scenario_curves calm_wind scenario_row
          = Inr (Some \<lparr>fd_id = CInt 7, countyFIPS = CInt 220710001001000, wbID = 12,
                       terrainID = 3, Wind_Speed = None, Building_Loss = None,
                       Contents_Loss = None\<rparr>)"
    using scenario_row_reads scenario_curve_rows(2,3) calm_row_emits
    by (simp add: calm_wind_def)
  have c1: "building_loss_row scenario_curves listed_wind (example_layout (listed_building 8 13))
      = Inr None
    \<and> for_each (loss_step scenario_curves listed_wind)
          [example_layout (listed_building 8 13), example_layout (listed_building 7 12)]
          ([], 0, [])
        = for_each (loss_step scenario_curves listed_wind)
          [example_layout (listed_building 7 12)] ([], 0, [])"
    using silent [THEN conjunct1, rule_format, OF h1] by (simp only: append.simps)
  have c2: "county_step plain_library example_hazus example_nsi 2 ''22051''
          \<lparr>building_list = [], rng = 0, log = [], county_count = 0\<rparr>
        = Inr \<lparr>building_list = [], rng = 0, log = [NoMappingScheme ''22051''],
               county_count = 1\<rparr>
      \<and> map_sum id (\<lambda>s. (building_list s, rng s))
           (for_each (county_step plain_library example_hazus example_nsi 2)
              [''22051'', ''22071'']
              \<lparr>building_list = [], rng = 0, log = [], county_count = 0\<rparr>)
        = map_sum id (\<lambda>s. (building_list s, rng s))
           (for_each (county_step plain_library example_hazus example_nsi 1) [''22071'']
              \<lparr>building_list = [], rng = 0, log = [], county_count = 0\<rparr>)"
  proof -
    note k = silent [THEN conjunct2, THEN conjunct1, rule_format, OF h2]
    from k [THEN conjunct1]
    have s: "county_step plain_library example_hazus example_nsi 2 ''22051''
          \<lparr>building_list = [], rng = 0, log = [], county_count = 0\<rparr>
        = Inr \<lparr>building_list = [], rng = 0, log = [NoMappingScheme ''22051''],
               county_count = 1\<rparr>"
      by simp
    from k [THEN conjunct2]
    have "map_sum id (\<lambda>s. (building_list s, rng s))
           (for_each (county_step plain_library example_hazus example_nsi 2)
              [''22051'', ''22071'']
              \<lparr>building_list = [], rng = 0, log = [], county_count = 0\<rparr>)
        = map_sum id (\<lambda>s. (building_list s, rng s))
           (for_each (county_step plain_library example_hazus example_nsi 1) [''22071'']
              \<lparr>building_list = [], rng = 0, log = [], county_count = 0\<rparr>)"
      by (simp only: append.simps)
    with s show ?thesis by (rule conjI)
  qed
  have c3: "characterize_occ plain_library example_hazus ''LA1''
          (occ_rows (huGbsOccMapping example_hazus)) example_nsi ''COM1'' ([], 0)
        = Inr ([], 0)
      \<and> for_each (characterize_occ plain_library example_hazus ''LA1''
            (occ_rows (huGbsOccMapping example_hazus)) example_nsi) [''COM1'', ''RES1''] ([], 0)
        = for_each (characterize_occ plain_library example_hazus ''LA1''
            (occ_rows (huGbsOccMapping example_hazus)) example_nsi) [''RES1''] ([], 0)"
    using silent [THEN conjunct2, THEN conjunct2, THEN conjunct1, rule_format, OF h3]
    by (simp only: append.simps)
  note k4 = silent [THEN conjunct2, THEN conjunct2, THEN conjunct2, THEN conjunct1,
      rule_format, OF h4]
  have f: "wbID_e (listed_building 8 13) = Some 13 \<and> terrainID_e (listed_building 8 13) = 3"
    by (simp add: listed_building_def)
  have c4: "listed_building 8 13 \<in> set listed_inventory
      \<and> building_loss_row scenario_curves calm_wind (example_layout (listed_building 8 13))
          = Inr None
      \<and> read_inventory
          (listed_fs\<lparr>files := (files listed_fs)
                        (''results/ida_2021/Losses.csv'' \<mapsto> LossesCsv [listed_loss]),
                     dirs := dirs listed_fs \<union> {''results/ida_2021'', ''results''}\<rparr>)
          ''inventory/nsi_wbId_sr.csv'' = Inr listed_inventory
      \<and> wbID_e (listed_building 8 13) = Some 13 \<and> terrainID_e (listed_building 8 13) = 3"
    using k4 [THEN conjunct1, rule_format, of calm_wind] k4 [THEN conjunct2] member f
    by (simp only: example_paths simp_thms)
  have c5: "\<exists>l. building_loss_row scenario_curves calm_wind scenario_row = Inr (Some l)
          \<and> Wind_Speed l = None"
    using silent [THEN conjunct2, THEN conjunct2, THEN conjunct2, THEN conjunct2,
        rule_format, OF h5] calm_row_emits
    by simp
  from c1 c2 c3 c4 c5 show ?thesis by blast
qed

text \<open>
  The claim as stated, that every skip is counted and surfaced in the reporting,
  fails: the run of a scenario over an inventory with a building that has no row in
  the joined table, or with a building whose curve is missing, returns the same
  records and the same log as the run without that building, and a county loop that
  drops a building for its occupancy logs nothing.
\<close>

theorem skips_counterexample:
  "building_loss_row scenario_curves listed_wind (example_layout (listed_building 9 12))
     = Inr None
   \<and> scenario_losses scenario_curves
        [example_layout (listed_building 9 12), example_layout (listed_building 8 13),
         example_layout (listed_building 7 12)] listed_wind
       = Inr ([listed_loss],
              [JoinedLoaded 2, ProcessedTotal 1, LossStatistics 50000 10000 60000])
   \<and> scenario_losses scenario_curves [example_layout (listed_building 7 12)] listed_wind
       = Inr ([listed_loss],
              [JoinedLoaded 2, ProcessedTotal 1, LossStatistics 50000 10000 60000])
   \<and> for_each (county_step plain_library example_hazus
        [example_building 4 ''22071'' ''COM1''] 1) [''22071'']
        \<lparr>building_list = [], rng = 0, log = [], county_count = 0\<rparr>
       = Inr \<lparr>building_list = [], rng = 0, log = [], county_count = 1\<rparr>"
proof -
  have n: "length listed_wind = 2" by (simp add: listed_wind_def)
  have s: "Building_Loss listed_loss = Some 50000" "Contents_Loss listed_loss = Some 10000"
    by (simp_all add: listed_loss_def)
  have a: "building_loss_row scenario_curves listed_wind (example_layout (listed_building 9 12))
      = Inr None"
    by (rule building_loss_row_skipped [OF listed_row_reads]) (simp add: listed_wind_def)
  have b: "scenario_losses scenario_curves
        [example_layout (listed_building 9 12), example_layout (listed_building 8 13),
         example_layout (listed_building 7 12)] listed_wind
       = Inr ([listed_loss],
              [JoinedLoaded 2, ProcessedTotal 1, LossStatistics 50000 10000 60000])"
    by (simp add: scenario_losses_def loss_step_def then_do_def a listed_row_dropped
        listed_row_emits n s List.map_filter_def)
  have c: "scenario_losses scenario_curves [example_layout (listed_building 7 12)] listed_wind
       = Inr ([listed_loss],
              [JoinedLoaded 2, ProcessedTotal 1, LossStatistics 50000 10000 60000])"
    by (simp add: scenario_losses_def loss_step_def then_do_def listed_row_emits n s
        List.map_filter_def)
  have d: "for_each (county_step plain_library example_hazus
        [example_building 4 ''22071'' ''COM1''] 1) [''22071'']
        \<lparr>building_list = [], rng = 0, log = [], county_count = 0\<rparr>
       = Inr \<lparr>building_list = [], rng = 0, log = [], county_count = 1\<rparr>"
    by code_simp
  from a b c d show ?thesis by blast
qed

subsection \<open>Reproducible draws\<close>

lemma sample_column_state: "sample_column lib n a p g = sample_column lib n a p g'"
  by (simp add: sample_column_def)

lemma for_each_state:
  assumes "\<And>x bl g g'. map_sum id fst (body x (bl, g)) = map_sum id fst (body x (bl, g'))"
  shows "map_sum id fst (for_each body xs (bl, g)) = map_sum id fst (for_each body xs (bl, g'))"
proof (induction xs arbitrary: bl g g')
  case Nil
  show ?case by simp
next
  case (Cons x xs)
  show ?case
  proof (cases "body x (bl, g)")
    case (Inl e)
    with assms [of x bl g g'] have "body x (bl, g') = Inl e"
      by (cases "body x (bl, g')") auto
    with Inl show ?thesis by (simp add: then_do_def)
  next
    case (Inr s)
    obtain bl1 g1 where s: "s = (bl1, g1)" by (cases s)
    with Inr assms [of x bl g g'] obtain g1' where "body x (bl, g') = Inr (bl1, g1')"
      by (cases "body x (bl, g')") auto
    with Inr s Cons.IH [of bl1 g1 g1'] show ?thesis by (simp add: then_do_def)
  qed
qed

lemma assign_chars_state:
  "map_sum id (\<lambda>(cd, cols, g). (cd, cols)) (assign_chars lib chars huBldg n cts g)
   = map_sum id (\<lambda>(cd, cols, g). (cd, cols)) (assign_chars lib chars huBldg n cts g')"
proof (induction cts arbitrary: g g')
  case Nil
  show ?case by simp
next
  case (Cons ct cts)
  let ?main = "filter (\<lambda>c. CharType c = ct) chars"
  let ?check = "list_ex (\<lambda>item. item \<in> set (map BLDGCHARID huBldg)) (map BldgCharID ?main)"
  show ?case
  proof (cases ?check)
    case True
    then show ?thesis
      by (simp add: Let_def sample_column_state [of lib n _ _ g g'])
  next
    case False
    have "map_sum id (\<lambda>(cd, cols, g). (cd, cols))
            (then_do (assign_chars lib chars huBldg n cts g)
               (\<lambda>(char_desc, cols, g'). Inr (char_desc, (ct, replicate n None) # cols, g')))
        = map_sum id (\<lambda>(cd, cols). (cd, (ct, replicate n None) # cols))
            (map_sum id (\<lambda>(cd, cols, g). (cd, cols)) (assign_chars lib chars huBldg n cts g))"
      for g
      by (cases "assign_chars lib chars huBldg n cts g") (auto simp: then_do_def)
    note h = this
    have e: "assign_chars lib chars huBldg n (ct # cts) g0
        = then_do (assign_chars lib chars huBldg n cts g0)
            (\<lambda>(char_desc, cols, g'). Inr (char_desc, (ct, replicate n None) # cols, g'))"
      for g0
      using False by (simp add: Let_def)
    show ?thesis
      by (simp only: e h Cons.IH [of g g'])
  qed
qed

lemma characterize_subtype_state:
  "map_sum id fst (characterize_subtype lib tables scheme df2 sbt (bl, g))
   = map_sum id fst (characterize_subtype lib tables scheme df2 sbt (bl, g'))"
proof -
  let ?df3 = "map fst (filter (\<lambda>(b, s). s = sbt) df2)"
  let ?huBldg = "filter (\<lambda>m. scheme_m m = scheme \<and> sbtName_m m = sbt) (huBldgMapping tables)"
  let ?rows = "\<lambda>char_desc cols. for_each
                 (\<lambda>row. append_row (str_contains lib) (huListOfWindBldgTypes tables) sbt
                    char_desc (?df3 ! row, row_profile cols row))
                 [0..<length ?df3] bl"
  show ?thesis
  proof (cases "?huBldg = []")
    case True
    then show ?thesis by (simp add: characterize_subtype_def Let_def)
  next
    case False
    have e: "map_sum id fst (characterize_subtype lib tables scheme df2 sbt (bl, g0))
        = then_do (map_sum id (\<lambda>(cd, cols, g). (cd, cols))
                     (assign_chars lib (huListofBldgChar tables) ?huBldg (length ?df3)
                        (charTypes tables) g0))
            (\<lambda>(cd, cols). ?rows cd cols)"
      for g0
      using False
      by (cases "assign_chars lib (huListofBldgChar tables) ?huBldg (length ?df3)
                   (charTypes tables) g0")
         (auto simp: characterize_subtype_def Let_def then_do_def split: sum.splits)
    show ?thesis
      by (simp only: e assign_chars_state [of lib _ _ _ _ g g'])
  qed
qed

lemma characterize_bldgtype_state:
  "map_sum id fst (characterize_bldgtype lib tables scheme huOcc cols df1 bt (bl, g))
   = map_sum id fst (characterize_bldgtype lib tables scheme huOcc cols df1 bt (bl, g'))"
  by (simp add: characterize_bldgtype_def Let_def sample_column_state [of lib _ _ _ g g']
      split: option.splits)

lemma characterize_occ_state:
  "map_sum id fst (characterize_occ lib tables scheme huOccMap df0 occ (bl, g))
   = map_sum id fst (characterize_occ lib tables scheme huOccMap df0 occ (bl, g'))"
proof -
  have "map_sum id fst
          (for_each (characterize_bldgtype lib tables scheme huOcc cols df1) xs (bl, g))
      = map_sum id fst
          (for_each (characterize_bldgtype lib tables scheme huOcc cols df1) xs (bl, g'))"
    for huOcc cols df1 xs
    by (rule for_each_state) (rule characterize_bldgtype_state)
  then show ?thesis
    by (simp add: characterize_occ_def Let_def)
qed

lemma county_core_state:
  "map_sum id fst (county_core lib tables nsi_cb cfip (bl, g))
   = map_sum id fst (county_core lib tables nsi_cb cfip (bl, g'))"
proof -
  have "map_sum id fst
          (for_each (characterize_occ lib tables scheme huOccMap df0) xs (bl, g))
      = map_sum id fst
          (for_each (characterize_occ lib tables scheme huOccMap df0) xs (bl, g'))"
    for scheme huOccMap df0 xs
    by (rule for_each_state) (rule characterize_occ_state)
  then show ?thesis
    by (simp add: county_core_def county_buildings_def Let_def split: option.splits)
qed

lemma county_loop_state:
  "map_sum id building_list (for_each (county_step lib tables nsi_cb n) cfips (st\<lparr>rng := g\<rparr>))
   = map_sum id building_list (for_each (county_step lib tables nsi_cb n) cfips (st\<lparr>rng := g'\<rparr>))"
proof -
  have "map_sum id building_list (for_each (county_step lib tables nsi_cb n) cfips s)
      = map_sum id fst (for_each (county_core lib tables nsi_cb) cfips (building_list s, rng s))"
    for s :: "'a char_state"
    using county_loop_core [of lib tables nsi_cb n cfips s]
    by (cases "for_each (county_step lib tables nsi_cb n) cfips s";
        cases "for_each (county_core lib tables nsi_cb) cfips (building_list s, rng s)") auto
  then show ?thesis
    using for_each_state [of "county_core lib tables nsi_cb" cfips "building_list st" g g',
        OF county_core_state]
    by simp
qed

text \<open>
  C9. With the seed of the configuration, the output of the characterization does
  not depend on the state of numpy's generator found on entry, which is all that can
  differ between two executions over the same inventory and tables: every sampled
  column is drawn from the freshly seeded state, the rows that the loop over the
  counties appends are the same from any generator state, and so are the result of
  the computation and of the stage.
\<close>

theorem characterization_reproducible:
  "sample_column lib k a p g = sample_column lib k a p g'
   \<and> map_sum id building_list
        (for_each (county_step lib tables nsi_cb n) cfips (st\<lparr>rng := g\<rparr>))
     = map_sum id building_list
        (for_each (county_step lib tables nsi_cb n) cfips (st\<lparr>rng := g'\<rparr>))
   \<and> build_inventory lib tables nsi_cb g = build_inventory lib tables nsi_cb g'
   \<and> characterize_buildings lib fs nsi_data hazus_dir output_dir force_rerun g
     = characterize_buildings lib fs nsi_data hazus_dir output_dir force_rerun g'"
proof (intro conjI)
  show "sample_column lib k a p g = sample_column lib k a p g'"
    by (rule sample_column_state)
  show "map_sum id building_list
        (for_each (county_step lib tables nsi_cb n) cfips (st\<lparr>rng := g\<rparr>))
     = map_sum id building_list
        (for_each (county_step lib tables nsi_cb n) cfips (st\<lparr>rng := g'\<rparr>))"
    by (rule county_loop_state)
  show b: "build_inventory lib tables nsi_cb g = build_inventory lib tables nsi_cb g'"
    by (simp add: build_inventory_def)
  show "characterize_buildings lib fs nsi_data hazus_dir output_dir force_rerun g
     = characterize_buildings lib fs nsi_data hazus_dir output_dir force_rerun g'"
  proof -
    have r: "recompute_characterization lib fs_made nsi_data hazus_dir cp lg g
        = recompute_characterization lib fs_made nsi_data hazus_dir cp lg g'" for fs_made cp lg
      unfolding recompute_characterization_def build_inventory_def by (rule refl)
    show ?thesis
      unfolding characterize_buildings_def r by (rule refl)
  qed
qed

theorem characterization_reproducible_witness:
  "map_sum id building_list
     (for_each (county_step plain_library example_hazus example_nsi 1) [''22071'']
        \<lparr>building_list = [], rng = 5, log = [], county_count = 0\<rparr>)
   = Inr example_inventory"
proof -
  have e: "map_sum id building_list
     (for_each (county_step plain_library example_hazus example_nsi 1) [''22071'']
        \<lparr>building_list = [], rng = 0, log = [], county_count = 0\<rparr>)
   = Inr example_inventory"
    by code_simp
  from characterization_reproducible
    [where lib = plain_library and tables = example_hazus and nsi_cb = example_nsi and n = 1
       and cfips = "[''22071'']" and g = 5 and g' = 0
       and st = "\<lparr>building_list = [], rng = 0, log = [], county_count = 0\<rparr>",
     THEN conjunct2, THEN conjunct1]
  have t: "map_sum id building_list
     (for_each (county_step plain_library example_hazus example_nsi 1) [''22071'']
        \<lparr>building_list = [], rng = 5, log = [], county_count = 0\<rparr>)
   = map_sum id building_list
     (for_each (county_step plain_library example_hazus example_nsi 1) [''22071'']
        \<lparr>building_list = [], rng = 0, log = [], county_count = 0\<rparr>)"
    by (simp only: char_state.simps)
  from t e show ?thesis by (rule trans)
qed


end
